(* ===== verification/Prelude.thy ===== *)
theory Prelude
  imports Main
    "HOL-Library.AList"
    "HOL-Library.Sublist"
    "HOL-Library.Multiset"
    "HOL-Library.List_Lexorder"
    "HOL-Library.Char_ord"
    "HOL-Library.Signed_Division"
begin

text \<open>
  What every component of the model shares: the error values of the repository and of the
  libraries it calls, the result type of a Go call (a value, an error or a panic), Go maps as
  association lists, 64-bit signed arithmetic with its wrap-around, and generic lemmas on
  them.  Nothing here is specific to one component.
\<close>

section \<open>Collections of facts\<close>

named_theorems opt_defs \<open>functional options of the Go API, applied to their option structs\<close>
named_theorems step_defs \<open>definitions unfolded when one operation is executed symbolically\<close>
named_theorems frame_simps \<open>which parts of the state an operation leaves alone\<close>

section \<open>Basic types\<close>

type_synonym bytes = string
type_synonym digest = string

text \<open>
  A Go map is an association list with distinct keys.  Ranging over a Go map visits its
  entries in an unspecified order; here the visit follows the list, so a theorem about every
  list is a theorem about every order of the visit.
\<close>

type_synonym ('k, 'v) gomap = "('k \<times> 'v) list"

section \<open>Error values\<close>

text \<open>
  \<open>Err\<close> is an error with only a text (\<open>errors.New\<close>, and \<open>fmt.Errorf\<close> whose verbs print
  the cause with \<open>%s\<close>), \<open>Wrap\<close> is \<open>fmt.Errorf("m: %w", e)\<close>.  The typed errors of
  \<open>pkg/compose/reader.go\<close> and the sentinels of \<open>app.go\<close>, \<open>uninstall.go\<close> and
  \<open>store.go\<close> have constructors of their own; so have the errors of the standard library and
  of containerd that the code tells apart.
\<close>

datatype error =
    Err string
  | Wrap string error
  | EOF
  | ErrBlobDigestMismatch digest digest
  | ErrBlobSizeMismatch int int
  | ErrBlobSizeLimitExceed int
  | ErrAppNotFound
  | ErrAppHasNoIndex
  | ErrAppIndexNotFound
  | ErrUninstallRunningApps
  | ErrUpdateNotFound
  | PathNotExist string
  | PathError string
  | ErrdefsNotFound string
  | ErrdefsAlreadyExists string
  | CtxCanceled
  | CtxDeadlineExceeded
  | NetError bool string
  | DNSError bool string

text \<open>The chain of an error that \<open>errors.Is\<close> and \<open>errors.As\<close> walk.\<close>

fun err_chain :: "error \<Rightarrow> error list" where
  "err_chain (Wrap m e) = Wrap m e # err_chain e"
| "err_chain e = [e]"

definition errors_Is :: "error \<Rightarrow> error \<Rightarrow> bool" where
  "errors_Is e t \<longleftrightarrow> t \<in> set (err_chain e)"

fun is_path_not_exist :: "error \<Rightarrow> bool" where
  "is_path_not_exist (PathNotExist _) = True"
| "is_path_not_exist _ = False"

fun is_errdefs_not_found :: "error \<Rightarrow> bool" where
  "is_errdefs_not_found (ErrdefsNotFound _) = True"
| "is_errdefs_not_found _ = False"

fun is_errdefs_already_exists :: "error \<Rightarrow> bool" where
  "is_errdefs_already_exists (ErrdefsAlreadyExists _) = True"
| "is_errdefs_already_exists _ = False"

text \<open>\<open>errors.Is(err, os.ErrNotExist)\<close> and \<open>errors.Is(err, errdefs.ErrNotFound)\<close>.\<close>

definition errors_Is_NotExist :: "error \<Rightarrow> bool" where
  "errors_Is_NotExist e \<longleftrightarrow> list_ex is_path_not_exist (err_chain e)"

definition errors_Is_NotFound :: "error \<Rightarrow> bool" where
  "errors_Is_NotFound e \<longleftrightarrow> list_ex is_errdefs_not_found (err_chain e)"

definition errors_Is_AlreadyExists :: "error \<Rightarrow> bool" where
  "errors_Is_AlreadyExists e \<longleftrightarrow> list_ex is_errdefs_already_exists (err_chain e)"

section \<open>Decimal text and the \<open>Error()\<close> method\<close>

fun show_nat :: "nat \<Rightarrow> string" where
  "show_nat n =
     (if n < 10 then [char_of (48 + n)] else show_nat (n div 10) @ [char_of (48 + n mod 10)])"

declare show_nat.simps [simp del]

definition show_int :: "int \<Rightarrow> string" where
  "show_int i = (if i < 0 then ''-'' @ show_nat (nat (- i)) else show_nat (nat i))"

fun err_msg :: "error \<Rightarrow> string" where
  "err_msg (Err m) = m"
| "err_msg (Wrap m e) = m @ '': '' @ err_msg e"
| "err_msg EOF = ''EOF''"
| "err_msg (ErrBlobDigestMismatch x c) =
     ''blob digest mismatch; expected: '' @ x @ '', got: '' @ c"
| "err_msg (ErrBlobSizeMismatch x r) =
     ''blob size mismatch; expected: '' @ show_int x @ '', got: '' @ show_int r"
| "err_msg (ErrBlobSizeLimitExceed l) = ''blob size limit reached; limit: '' @ show_int l"
| "err_msg ErrAppNotFound = ''app not found''"
| "err_msg ErrAppHasNoIndex = ''app has no bundle index''"
| "err_msg ErrAppIndexNotFound = ''app blob index is not found''"
| "err_msg ErrUninstallRunningApps =
     ''failed to uninstall apps: some apps are still running, please stop them first''"
| "err_msg ErrUpdateNotFound = ''Update not found''"
| "err_msg (PathNotExist m) = m"
| "err_msg (PathError m) = m"
| "err_msg (ErrdefsNotFound m) = m @ '': not found''"
| "err_msg (ErrdefsAlreadyExists m) = m @ '': already exists''"
| "err_msg CtxCanceled = ''context canceled''"
| "err_msg CtxDeadlineExceeded = ''context deadline exceeded''"
| "err_msg (NetError t m) = m"
| "err_msg (DNSError t m) = m"

section \<open>Results of Go calls\<close>

text \<open>\<open>Ok v\<close> is \<open>(v, nil)\<close>, \<open>Fail e\<close> is a non-nil error, \<open>Panic m\<close> a run-time panic.\<close>

datatype 'a res = Ok 'a | Fail error | Panic string

primrec rbind :: "'a res \<Rightarrow> ('a \<Rightarrow> 'b res) \<Rightarrow> 'b res" where
  "rbind (Ok v) f = f v"
| "rbind (Fail e) f = Fail e"
| "rbind (Panic m) f = Panic m"

primrec is_ok :: "'a res \<Rightarrow> bool" where
  "is_ok (Ok v) = True"
| "is_ok (Fail e) = False"
| "is_ok (Panic m) = False"

primrec is_panic :: "'a res \<Rightarrow> bool" where
  "is_panic (Ok v) = False"
| "is_panic (Fail e) = False"
| "is_panic (Panic m) = True"

lemma rbind_Ok_iff: "rbind r f = Ok v \<longleftrightarrow> (\<exists>x. r = Ok x \<and> f x = Ok v)"
  by (cases r) auto

lemma rbind_Fail_iff: "rbind r f = Fail e \<longleftrightarrow> r = Fail e \<or> (\<exists>x. r = Ok x \<and> f x = Fail e)"
  by (cases r) auto

lemma rbind_Panic_iff: "rbind r f = Panic m \<longleftrightarrow> r = Panic m \<or> (\<exists>x. r = Ok x \<and> f x = Panic m)"
  by (cases r) auto

lemmas rbind_iffs = rbind_Ok_iff rbind_Fail_iff rbind_Panic_iff

lemma rbind_is_okE:
  assumes "rbind r f = Ok v"
  obtains x where "r = Ok x" "f x = Ok v"
  using assms by (auto simp: rbind_Ok_iff)

text \<open>A call whose error is looked at: the \<open>if err != nil\<close> branch that does not just return.\<close>

primrec rcatch :: "'a res \<Rightarrow> ('a \<Rightarrow> 'b res) \<Rightarrow> (error \<Rightarrow> 'b res) \<Rightarrow> 'b res" where
  "rcatch (Ok v) f g = f v"
| "rcatch (Fail e) f g = g e"
| "rcatch (Panic m) f g = Panic m"

lemma rcatch_Ok_iff:
  "rcatch r f g = Ok v \<longleftrightarrow> (\<exists>x. r = Ok x \<and> f x = Ok v) \<or> (\<exists>e. r = Fail e \<and> g e = Ok v)"
  by (cases r) auto

lemma rcatch_Fail_iff:
  "rcatch r f g = Fail d \<longleftrightarrow> (\<exists>x. r = Ok x \<and> f x = Fail d) \<or> (\<exists>e. r = Fail e \<and> g e = Fail d)"
  by (cases r) auto

lemmas rcatch_iffs = rcatch_Ok_iff rcatch_Fail_iff

text \<open>
  A statement that changes a state: the state it leaves and its result.  \<open>sbind\<close> goes on in
  that state after a success and returns early, in that state, otherwise; \<open>slift\<close> is a
  computation that only reads.
\<close>

fun sbind :: "'s \<times> 'a res \<Rightarrow> ('a \<Rightarrow> 's \<Rightarrow> 's \<times> 'b res) \<Rightarrow> 's \<times> 'b res" where
  "sbind (s, Ok a) f = f a s"
| "sbind (s, Fail e) f = (s, Fail e)"
| "sbind (s, Panic m) f = (s, Panic m)"

definition slift :: "'a res \<Rightarrow> 's \<Rightarrow> 's \<times> 'a res" where
  "slift r s = (s, r)"

text \<open>A call of the operating system: the error it reports, if any, is passed on.\<close>

definition serr :: "'s \<times> error option \<Rightarrow> 's \<times> unit res" where
  "serr p = (fst p, case snd p of None \<Rightarrow> Ok () | Some e \<Rightarrow> Fail e)"

text \<open>A loop of such statements.\<close>

fun sfor :: "('a \<Rightarrow> 's \<Rightarrow> 's \<times> unit res) \<Rightarrow> 'a list \<Rightarrow> 's \<Rightarrow> 's \<times> unit res" where
  "sfor f [] s = (s, Ok ())"
| "sfor f (x # xs) s = sbind (f x s) (\<lambda>_. sfor f xs)"

lemma sbind_pair:
  "sbind (s, r) f = (case r of Ok a \<Rightarrow> f a s | Fail e \<Rightarrow> (s, Fail e) | Panic m \<Rightarrow> (s, Panic m))"
  by (cases r) simp_all

lemma sbind_Ok_iff: "sbind p f = (s', Ok b) \<longleftrightarrow> (\<exists>s a. p = (s, Ok a) \<and> f a s = (s', Ok b))"
  by (cases "(p, f)" rule: sbind.cases) auto

lemma sbind_OkE:
  assumes "sbind p f = (s', Ok b)"
  obtains s a where "p = (s, Ok a)" "f a s = (s', Ok b)"
  using assms by (auto simp: sbind_Ok_iff)

lemma serr_Ok_iff: "serr p = (s, Ok u) \<longleftrightarrow> p = (s, None)"
  by (cases p) (auto simp: serr_def split: option.splits)

lemma slift_Ok_iff: "slift r s = (s', Ok a) \<longleftrightarrow> r = Ok a \<and> s' = s"
  by (auto simp: slift_def)

lemmas stmt_iffs = sbind_Ok_iff serr_Ok_iff slift_Ok_iff

text \<open>What every statement of a sequence or a loop keeps, whatever its result, it keeps as a whole.\<close>

lemma sbind_keeps:
  assumes "P (fst p)" and "\<And>a s. p = (s, Ok a) \<Longrightarrow> P s \<Longrightarrow> P (fst (f a s))"
  shows "P (fst (sbind p f))"
  using assms by (cases "(p, f)" rule: sbind.cases) auto

lemma slift_keeps: "P s \<Longrightarrow> P (fst (slift r s))"
  by (simp add: slift_def)

lemma if_keeps: "(c \<Longrightarrow> P (fst p)) \<Longrightarrow> (\<not> c \<Longrightarrow> P (fst q)) \<Longrightarrow> P (fst (if c then p else q))"
  by simp

lemma sfor_keeps:
  assumes "\<And>x s. x \<in> set xs \<Longrightarrow> P s \<Longrightarrow> P (fst (f x s))" and "P s"
  shows "P (fst (sfor f xs s))"
  using assms
proof (induction xs arbitrary: s)
  case (Cons x xs)
  show ?case unfolding sfor.simps
    by (rule sbind_keeps) (use Cons in auto)
qed simp

text \<open>A loop that appends the results of a call and stops at the first failure.\<close>

fun map_res :: "('a \<Rightarrow> 'b res) \<Rightarrow> 'a list \<Rightarrow> 'b list res" where
  "map_res f [] = Ok []"
| "map_res f (x # xs) = rbind (f x) (\<lambda>y. rbind (map_res f xs) (\<lambda>ys. Ok (y # ys)))"

lemma map_res_Ok_length: "map_res f xs = Ok ys \<Longrightarrow> length ys = length xs"
  by (induction xs arbitrary: ys) (auto simp: rbind_Ok_iff)

lemma map_res_Ok_set: "map_res f xs = Ok ys \<Longrightarrow> y \<in> set ys \<Longrightarrow> \<exists>x\<in>set xs. f x = Ok y"
  by (induction xs arbitrary: ys) (auto simp: rbind_Ok_iff)

lemma map_res_Ok_mem: "map_res f xs = Ok ys \<Longrightarrow> x \<in> set xs \<Longrightarrow> \<exists>y\<in>set ys. f x = Ok y"
  by (induction xs arbitrary: ys) (auto simp: rbind_Ok_iff)

lemma map_res_all_Ok: "(\<And>x. x \<in> set xs \<Longrightarrow> f x = Ok (g x)) \<Longrightarrow> map_res f xs = Ok (map g xs)"
  by (induction xs) auto

section \<open>64-bit signed arithmetic\<close>

text \<open>Go's \<open>int64\<close> (and \<open>int\<close> on the 64-bit targets): an \<open>int\<close> with the wrap written out.\<close>

definition i64 :: "int \<Rightarrow> int" where
  "i64 x = (x + 2 ^ 63) mod 2 ^ 64 - 2 ^ 63"

definition in_i64 :: "int \<Rightarrow> bool" where
  "in_i64 x \<longleftrightarrow> - (2 ^ 63) \<le> x \<and> x < 2 ^ 63"

lemma i64_id: "in_i64 x \<Longrightarrow> i64 x = x"
  unfolding i64_def in_i64_def by (subst mod_pos_pos_trivial) auto

lemma in_i64_i64: "in_i64 (i64 x)"
proof -
  have "0 \<le> (x + 2 ^ 63) mod 2 ^ 64" "(x + 2 ^ 63) mod 2 ^ 64 < (2::int) ^ 64" by simp_all
  then have "- (2 ^ 63) \<le> (x + 2 ^ 63) mod 2 ^ 64 - (2::int) ^ 63"
    "(x + 2 ^ 63) mod 2 ^ 64 - 2 ^ 63 < (2::int) ^ 63" by simp_all
  then show ?thesis by (simp only: i64_def in_i64_def)
qed

lemma i64_cong: "(x - y) mod 2 ^ 64 = 0 \<Longrightarrow> i64 x = i64 y"
  unfolding i64_def
  by (metis add_diff_cancel_right diff_add_eq mod_eq_dvd_iff mod_0_imp_dvd)

lemma i64_dvd: "2 ^ 64 dvd i64 x - x"
proof -
  have "i64 x - x = - ((x + 2 ^ 63) div 2 ^ 64 * 2 ^ 64)"
    unfolding i64_def using div_mult_mod_eq [of "x + 2 ^ 63" "2 ^ 64"] by linarith
  then show ?thesis by simp
qed

lemma i64_eq_iff: "i64 x = i64 y \<longleftrightarrow> 2 ^ 64 dvd x - y"
proof
  assume eq: "i64 x = i64 y"
  have "x - y = (i64 y - y) - (i64 x - x)" using eq by simp
  then show "2 ^ 64 dvd x - y" by (metis dvd_diff i64_dvd)
next
  assume "2 ^ 64 dvd x - y"
  then show "i64 x = i64 y" by (intro i64_cong) simp
qed

lemma i64_i64_add [simp]: "i64 (i64 x + y) = i64 (x + y)"
  using i64_dvd [of x] by (simp add: i64_eq_iff)

lemma i64_add_i64 [simp]: "i64 (x + i64 y) = i64 (x + y)"
  using i64_dvd [of y] by (simp add: i64_eq_iff)

lemma i64_i64_diff [simp]: "i64 (i64 x - y) = i64 (x - y)"
  using i64_dvd [of x] by (simp add: i64_eq_iff)

lemma i64_diff_i64 [simp]: "i64 (x - i64 y) = i64 (x - y)"
proof -
  have "x - i64 y - (x - y) = - (i64 y - y)" by simp
  then show ?thesis using i64_dvd [of y] by (metis dvd_minus_iff i64_eq_iff)
qed

lemma i64_i64 [simp]: "i64 (i64 x) = i64 x"
  by (simp add: i64_id in_i64_i64)

lemma i64_norm:
  "i64 (a + i64 b - c) = i64 (a + b - c)" "i64 (i64 a + b - c) = i64 (a + b - c)"
  "i64 (a + (i64 b + c)) = i64 (a + (b + c))" "i64 (a + (b + i64 c)) = i64 (a + (b + c))"
  "i64 (a + (i64 b - c)) = i64 (a + (b - c))" "i64 (a - (i64 b + c)) = i64 (a - (b + c))"
proof -
  have "a + i64 b - c = (a - c) + i64 b" "a + b - c = (a - c) + b"
    "i64 a + b - c = (b - c) + i64 a" "a + b - c = (b - c) + a"
    "a + (i64 b + c) = (a + c) + i64 b" "a + (b + c) = (a + c) + b"
    "a + (b + i64 c) = (a + b) + i64 c" "a + (b + c) = (a + b) + c"
    "a + (i64 b - c) = (a - c) + i64 b" "a + (b - c) = (a - c) + b"
    "a - (i64 b + c) = (a - c) - i64 b" "a - (b + c) = (a - c) - b"
    by simp_all
  then show "i64 (a + i64 b - c) = i64 (a + b - c)" "i64 (i64 a + b - c) = i64 (a + b - c)"
    "i64 (a + (i64 b + c)) = i64 (a + (b + c))" "i64 (a + (b + i64 c)) = i64 (a + (b + c))"
    "i64 (a + (i64 b - c)) = i64 (a + (b - c))" "i64 (a - (i64 b + c)) = i64 (a - (b + c))"
    by (metis i64_add_i64 i64_diff_i64)+
qed

text \<open>Go's integer division and remainder truncate towards zero and panic on zero.\<close>

definition go_div :: "int \<Rightarrow> int \<Rightarrow> int res" where
  "go_div a b =
     (if b = 0 then Panic ''integer divide by zero'' else Ok (i64 (a sdiv b)))"

definition go_mod :: "int \<Rightarrow> int \<Rightarrow> int res" where
  "go_mod a b = (if b = 0 then Panic ''integer divide by zero'' else Ok (a smod b))"

section \<open>Strings and maps\<close>

text \<open>\<open>strings.Contains\<close>, \<open>HasPrefix\<close>, \<open>HasSuffix\<close> are \<open>sublist\<close>, \<open>prefix\<close> and \<open>suffix\<close>.\<close>

definition str_index :: "char \<Rightarrow> string \<Rightarrow> int" where
  "str_index c s = (if c \<in> set s then int (length (takeWhile (\<lambda>x. x \<noteq> c) s)) else - 1)"

definition trim_prefix :: "string \<Rightarrow> string \<Rightarrow> string" where
  "trim_prefix s p = (if prefix p s then drop (length p) s else s)"

definition trim_suffix :: "string \<Rightarrow> string \<Rightarrow> string" where
  "trim_suffix s p = (if suffix p s then take (length s - length p) s else s)"

text \<open>The slice \<open>s[:n]\<close> of a string, which panics when \<open>s\<close> is shorter.\<close>

definition slice_to :: "nat \<Rightarrow> string \<Rightarrow> string res" where
  "slice_to n s =
     (if n \<le> length s then Ok (take n s) else Panic ''slice bounds out of range'')"

abbreviation gm_put :: "'k \<Rightarrow> 'v \<Rightarrow> ('k, 'v) gomap \<Rightarrow> ('k, 'v) gomap" where
  "gm_put \<equiv> AList.update"

abbreviation gm_del :: "'k \<Rightarrow> ('k, 'v) gomap \<Rightarrow> ('k, 'v) gomap" where
  "gm_del \<equiv> AList.delete"

definition gm_has :: "('k, 'v) gomap \<Rightarrow> 'k \<Rightarrow> bool" where
  "gm_has m k \<longleftrightarrow> map_of m k \<noteq> None"

lemma gm_has_put [simp]: "gm_has (gm_put k v m) k' \<longleftrightarrow> k' = k \<or> gm_has m k'"
  by (simp add: gm_has_def update_conv)

lemma gm_has_del [simp]: "gm_has (gm_del k m) k' \<longleftrightarrow> k' \<noteq> k \<and> gm_has m k'"
  by (simp add: gm_has_def delete_conv)

lemma gm_has_iff: "gm_has m k \<longleftrightarrow> k \<in> fst ` set m"
  by (simp add: gm_has_def map_of_eq_None_iff)

lemma gm_has_Nil [simp]: "\<not> gm_has [] k"
  by (simp add: gm_has_def)

lemma gm_put_not_Nil [simp]: "gm_put k v m \<noteq> []"
  by (cases m) auto

lemma gm_put_twice [simp]: "gm_put k v (gm_put k u m) = gm_put k v m"
  by (induction m) auto

lemma gm_put_fresh: "k \<notin> fst ` set m \<Longrightarrow> gm_put k v m = m @ [(k, v)]"
  by (induction m) auto

lemma gm_put_memD: "e \<in> set (gm_put k v m) \<Longrightarrow> e = (k, v) \<or> e \<in> set m"
  by (induction m) (auto split: if_splits)

text \<open>Inserting one entry per element of a list, as the loops that fill a set do.\<close>

lemma gm_has_fold_put:
  "gm_has (fold (\<lambda>x m. gm_put (f x) (g x) m) xs m) k \<longleftrightarrow> k \<in> f ` set xs \<or> gm_has m k"
  by (induction xs arbitrary: m) auto

lemma distinct_fold_put:
  "distinct (map fst m) \<Longrightarrow> distinct (map fst (fold (\<lambda>x m. gm_put (f x) (g x) m) xs m))"
  by (induction xs arbitrary: m) (auto simp: distinct_update)

text \<open>A sum over the values of a map after one entry has been replaced.\<close>

lemma map_of_split_sum:
  "distinct (map fst m) \<Longrightarrow> map_of m k = Some v \<Longrightarrow>
     (\<Sum>(k, v)\<leftarrow>gm_put k v' m. f v) = (\<Sum>(k, v)\<leftarrow>m. f v) - (f v :: int) + f v'"
proof (induction m)
  case (Cons e m)
  obtain k2 v2 where e: "e = (k2, v2)" by force
  show ?case using Cons by (auto simp: e)
qed simp

lemma map_of_put_new_sum:
  "map_of m k = None \<Longrightarrow> (\<Sum>(k, v)\<leftarrow>gm_put k v' m. f v) = (\<Sum>(k, v)\<leftarrow>m. f v) + (f v' :: int)"
  by (induction m) (auto split: if_splits)

lemma fst_gm_put_existing: "gm_has m k \<Longrightarrow> map fst (gm_put k v m) = map fst m"
  by (induction m) (auto simp: gm_has_def)

text \<open>An invariant of every step of a fold is one of the fold.\<close>

lemma fold_invariant:
  assumes "\<And>x s. x \<in> set xs \<Longrightarrow> P s \<Longrightarrow> P (f x s)" and "P s"
  shows "P (fold f xs s)"
  using assms by (induction xs arbitrary: s) auto

end
