(* ===== verification/World.thy ===== *)
theory World
  imports Prelude
begin

text \<open>
  The world the program runs in.  The file system of the host is modelled (the operations of
  \<open>os\<close>, \<open>path\<close> and \<open>path/filepath\<close> the source uses).  What is not under \<open>src/\<close> is a
  parameter: the record \<open>lib\<close> holds the pure functions of third-party packages (digests,
  image references, media types, JSON decoding into their types, archives), the record
  \<open>sys\<close> extends it with the effects of the content store of containerd, of the registry
  client and of the Docker daemon, over a world with an abstract part \<open>'x\<close>.
\<close>

section \<open>Paths and files\<close>

type_synonym path = "string list"

datatype fentry = FDir | FFile bytes

type_synonym fs = "(path, fentry) gomap"

fun split_on :: "char \<Rightarrow> string \<Rightarrow> string list" where
  "split_on c [] = [[]]"
| "split_on c (x # xs) =
     (if x = c then [] # split_on c xs
      else (case split_on c xs of [] \<Rightarrow> [[x]] | w # ws \<Rightarrow> (x # w) # ws))"

text \<open>\<open>path.Join\<close> below an absolute root, with the cleaning of \<open>path.Clean\<close>.\<close>

definition push_comp :: "path \<Rightarrow> string \<Rightarrow> path" where
  "push_comp p s =
     (if s = '''' \<or> s = ''.'' then p else if s = ''..'' then butlast p else p @ [s])"

definition path_join :: "path \<Rightarrow> string list \<Rightarrow> path" where
  "path_join root elems = foldl push_comp root (concat (map (split_on (CHR ''/'')) elems))"

definition path_str :: "path \<Rightarrow> string" where
  "path_str p = concat (map (\<lambda>s. ''/'' @ s) p)"

definition path_base :: "path \<Rightarrow> string" where
  "path_base p = (if p = [] then ''/'' else last p)"

section \<open>Descriptors, references, manifests\<close>

record platform =
  p_arch :: string
  p_os :: string
  p_variant :: string

text \<open>\<open>ocispec.Descriptor\<close>; a nil annotation map is \<open>None\<close>.\<close>

record descriptor =
  d_media :: string
  d_digest :: digest
  d_size :: int
  d_urls :: "string list"
  d_annot :: "(string, string) gomap option"
  d_platform :: "platform option"

text \<open>\<open>reference.Spec\<close> of containerd.\<close>

record refspec =
  rs_locator :: string
  rs_object :: string

record manifest =
  m_media :: string
  m_config :: descriptor
  m_layers :: "descriptor list"

record layer_meta =
  lm_size :: int
  lm_usage :: int
  lm_archive :: int

record layers_meta =
  lms_block :: int
  lms_layers :: "(digest, layer_meta) gomap"

record service_config =
  sc_name :: string
  sc_image :: string
  sc_labels :: "(string, string) gomap option"

record tar_entry =
  te_name :: string
  te_regular :: bool
  te_dir :: bool
  te_size :: int
  te_data :: bytes

text \<open>The raw image root of \<open>pkg/compose/image.go\<close>; absent members are empty.\<close>

record image_root =
  ir_schema :: int
  ir_media :: string
  ir_config :: bytes
  ir_layers :: bytes
  ir_manifests :: bytes
  ir_fslayers :: bytes

section \<open>Readers\<close>

text \<open>
  A source reader is the list of what its successive reads deliver: bytes, with an error when
  the read that delivers the last of them reports one.  After the list it reports \<open>io.EOF\<close>.
  Short reads, empty reads and failures in the middle are all lists of this kind.
\<close>

type_synonym src = "(bytes \<times> error option) list"

record read_params =
  rp_ref :: string
  rp_digest :: digest
  rp_size :: int
  rp_limit :: int
  rp_desc :: descriptor
  rp_insecure :: bool

text \<open>\<open>io.LimitedReader\<close> and the \<open>secureReader\<close> of \<open>reader.go\<close>.\<close>

record limited_reader =
  lr_src :: src
  lr_n :: int

record secure_reader =
  sr_params :: read_params
  sr_lim :: limited_reader
  sr_hashed :: bytes
  sr_read_bytes :: int

datatype read_closer = Secure secure_reader | Plain src

section \<open>The Docker daemon's data\<close>

record image_summary =
  im_id :: string
  im_digests :: "string list"
  im_tags :: "string list"

record ctr =
  ct_id :: string
  ct_image :: string
  ct_image_id :: string
  ct_labels :: "(string, string) gomap"
  ct_state :: string
  ct_status :: string

record ctr_state =
  cs_health :: "string option"
  cs_status :: string
  cs_exit :: int

text \<open>The manifest of an image load and one message of the daemon's answer to it.\<close>

record load_manifest =
  lm_Config :: string
  lm_RepoTags :: "string list"
  lm_Layers :: "string list"
  lm_LayersRoot :: "path option"

record json_message =
  jm_stream :: string
  jm_error :: "string option"
  jm_id :: string
  jm_progress :: "(int \<times> int) option"

section \<open>Pure library functions\<close>

record lib =
  dg_hash :: "bytes \<Rightarrow> digest"
  dg_encoded :: "digest \<Rightarrow> string res"
  dg_parse :: "string \<Rightarrow> digest res"
  ref_parse :: "string \<Rightarrow> refspec res"
  ref_hostname :: "refspec \<Rightarrow> string"
  ref_digest :: "refspec \<Rightarrow> digest"
  ref_split_object :: "string \<Rightarrow> string \<times> digest"
  ref_string :: "refspec \<Rightarrow> string"
  any_ref :: "string \<Rightarrow> (string \<times> string) res"
  is_index_type :: "string \<Rightarrow> bool"
  is_manifest_type :: "string \<Rightarrow> bool"
  is_config_type :: "string \<Rightarrow> bool"
  is_layer_type :: "string \<Rightarrow> bool"
  platform_match :: "platform \<Rightarrow> platform \<Rightarrow> bool"
  json_manifest :: "bytes \<Rightarrow> manifest res"
  json_image_root :: "bytes \<Rightarrow> image_root res"
  json_desc :: "bytes \<Rightarrow> descriptor res"
  json_descs :: "bytes \<Rightarrow> descriptor list res"
  json_diff_ids :: "bytes \<Rightarrow> digest list res"
  json_layers_meta :: "bytes \<Rightarrow> (string, layers_meta) gomap option \<times> error option"
  json_bundle_index :: "bytes \<Rightarrow> (string, digest) gomap res"
  json_index :: "descriptor list \<Rightarrow> bytes res"
  untar :: "read_closer \<Rightarrow> (tar_entry list \<times> error option) res"
  untar_into :: "fs \<Rightarrow> read_closer \<Rightarrow> path \<Rightarrow> fs \<times> error option"
  load_project :: "string \<Rightarrow> bytes \<Rightarrow> service_config list res"
  atoi :: "string \<Rightarrow> int option"
  io_bufsz :: "nat \<Rightarrow> nat"
  io_fault :: "string \<Rightarrow> path \<Rightarrow> error option"
  io_partial :: "path \<Rightarrow> nat"

section \<open>The world and its effects\<close>

record 'x world =
  w_fs :: fs
  w_db :: "path \<Rightarrow> (bytes, bytes) gomap option"
  w_clock :: int
  w_ext :: 'x

text \<open>
  \<open>ls_*\<close>: the local content store of containerd (\<open>content/local\<close>); \<open>rm_*\<close>: the registry
  resolver and its fetchers; \<open>dk_*\<close>: the Docker client; \<open>sh_compose\<close>: running
  \<open>docker compose\<close> in a directory; \<open>ctx_err\<close>: the state of the context (\<open>ctx.Err()\<close>).
\<close>

record 'x sys = lib +
  ls_new :: "path \<Rightarrow> error option"
  ls_status :: "'x world \<Rightarrow> string \<Rightarrow> int res"
  ls_info :: "'x world \<Rightarrow> digest \<Rightarrow> int res"
  ls_reader_at :: "'x world \<Rightarrow> digest \<Rightarrow> src res"
  ls_open_writer :: "'x world \<Rightarrow> string \<Rightarrow> descriptor \<Rightarrow> 'x world \<times> error option"
  ls_delete :: "'x world \<Rightarrow> digest \<Rightarrow> 'x world \<times> error option"
  ls_copy :: "'x world \<Rightarrow> string \<Rightarrow> descriptor \<Rightarrow> read_closer \<Rightarrow> 'x world \<times> error option"
  rm_resolve :: "'x world \<Rightarrow> string \<Rightarrow> descriptor res"
  rm_fetcher :: "'x world \<Rightarrow> string \<Rightarrow> error option"
  rm_fetch :: "'x world \<Rightarrow> string \<Rightarrow> descriptor \<Rightarrow> src res"
  rc_seekable :: "read_closer \<Rightarrow> bool"
  dk_client :: "string \<Rightarrow> error option"
  dk_info :: "'x world \<Rightarrow> (string \<times> (string \<times> string) list) res"
  dk_image_load ::
    "'x world \<Rightarrow> load_manifest list \<Rightarrow> path list \<Rightarrow> 'x world \<times> (json_message list \<times> error option) res"
  dk_image_list :: "'x world \<Rightarrow> image_summary list res"
  dk_image_remove :: "'x world \<Rightarrow> string \<Rightarrow> bool \<Rightarrow> bool \<Rightarrow> 'x world \<times> error option"
  dk_container_list :: "'x world \<Rightarrow> ctr list res"
  dk_container_inspect :: "'x world \<Rightarrow> string \<Rightarrow> ctr_state option res"
  sh_compose :: "'x world \<Rightarrow> path \<Rightarrow> string list \<Rightarrow> 'x world \<times> error option"
  ctx_err :: "'x world \<Rightarrow> error option"

section \<open>File operations of the standard library\<close>

text \<open>
  \<open>io_bufsz n\<close> is how much room beyond one byte the buffer of \<open>io.ReadAll\<close> has after \<open>n\<close>
  bytes; \<open>io_fault op p\<close> is the error the operating system reports for \<open>op\<close> on \<open>p\<close>, if any; the
  errors that follow from the state of the file system are computed.
\<close>

definition no_such_file :: "string \<Rightarrow> path \<Rightarrow> error" where
  "no_such_file op p = PathNotExist (op @ '' '' @ path_str p @ '': no such file or directory'')"

text \<open>\<open>os.IsNotExist\<close>, which looks at the error itself and not at what it wraps.\<close>

definition os_IsNotExist :: "error \<Rightarrow> bool" where
  "os_IsNotExist e \<longleftrightarrow> is_path_not_exist e"

definition os_stat :: "'z lib_scheme \<Rightarrow> fs \<Rightarrow> path \<Rightarrow> fentry res" where
  "os_stat L fs p =
     (case io_fault L ''stat'' p of Some e \<Rightarrow> Fail e
      | None \<Rightarrow> (case map_of fs p of None \<Rightarrow> Fail (no_such_file ''stat'' p) | Some n \<Rightarrow> Ok n))"

definition os_open :: "'z lib_scheme \<Rightarrow> fs \<Rightarrow> path \<Rightarrow> src res" where
  "os_open L fs p =
     (case io_fault L ''open'' p of Some e \<Rightarrow> Fail e
      | None \<Rightarrow>
         (case map_of fs p of
            None \<Rightarrow> Fail (no_such_file ''open'' p)
          | Some FDir \<Rightarrow> Ok [([], Some (PathError (''read '' @ path_str p @ '': is a directory'')))]
          | Some (FFile b) \<Rightarrow> Ok [(b, None)]))"

definition os_read_file :: "'z lib_scheme \<Rightarrow> fs \<Rightarrow> path \<Rightarrow> bytes res" where
  "os_read_file L fs p =
     (case io_fault L ''open'' p of Some e \<Rightarrow> Fail e
      | None \<Rightarrow>
         (case map_of fs p of
            None \<Rightarrow> Fail (no_such_file ''open'' p)
          | Some FDir \<Rightarrow> Fail (PathError (''read '' @ path_str p @ '': is a directory''))
          | Some (FFile b) \<Rightarrow> Ok b))"

definition mkdir_step :: "path \<Rightarrow> fs \<Rightarrow> fs" where
  "mkdir_step p fs = (if gm_has fs p then fs else gm_put p FDir fs)"

definition os_mkdir_all :: "'z lib_scheme \<Rightarrow> fs \<Rightarrow> path \<Rightarrow> fs \<times> error option" where
  "os_mkdir_all L fs p =
     (case io_fault L ''mkdir'' p of Some e \<Rightarrow> (fs, Some e)
      | None \<Rightarrow>
         (if list_ex (\<lambda>q. case map_of fs q of Some (FFile _) \<Rightarrow> True | _ \<Rightarrow> False) (prefixes p)
          then (fs, Some (PathError (''mkdir '' @ path_str p @ '': not a directory'')))
          else (fold mkdir_step (prefixes p) fs, None)))"

definition os_write_file :: "'z lib_scheme \<Rightarrow> fs \<Rightarrow> path \<Rightarrow> bytes \<Rightarrow> fs \<times> error option" where
  "os_write_file L fs p b =
     (case io_fault L ''write'' p of Some e \<Rightarrow> (fs, Some e)
      | None \<Rightarrow>
         (if map_of fs (butlast p) \<noteq> Some FDir then (fs, Some (no_such_file ''open'' p))
          else if map_of fs p = Some FDir
          then (fs, Some (PathError (''open '' @ path_str p @ '': is a directory'')))
          else (gm_put p (FFile b) fs, None)))"

definition os_remove_all :: "'z lib_scheme \<Rightarrow> fs \<Rightarrow> path \<Rightarrow> fs \<times> error option" where
  "os_remove_all L fs p =
     (case io_fault L ''removeall'' p of Some e \<Rightarrow> (fs, Some e)
      | None \<Rightarrow> (filter (\<lambda>(q, _). \<not> prefix p q) fs, None))"

text \<open>Renaming a file over the destination, and a further name for a file (\<open>syscall.Link\<close>).\<close>

definition os_rename :: "'z lib_scheme \<Rightarrow> fs \<Rightarrow> path \<Rightarrow> path \<Rightarrow> fs \<times> error option" where
  "os_rename L fs p q =
     (case io_fault L ''rename'' p of Some e \<Rightarrow> (fs, Some e)
      | None \<Rightarrow>
         (case map_of fs p of
            Some (FFile b) \<Rightarrow>
              (if map_of fs (butlast q) \<noteq> Some FDir then (fs, Some (no_such_file ''rename'' q))
               else if map_of fs q = Some FDir
               then (fs, Some (PathError (''rename '' @ path_str q @ '': file exists'')))
               else (gm_put q (FFile b) (gm_del p fs), None))
          | _ \<Rightarrow> (fs, Some (no_such_file ''rename'' p))))"

definition sys_link :: "'z lib_scheme \<Rightarrow> fs \<Rightarrow> path \<Rightarrow> path \<Rightarrow> fs \<times> error option" where
  "sys_link L fs p q =
     (case io_fault L ''link'' q of Some e \<Rightarrow> (fs, Some e)
      | None \<Rightarrow>
         (case map_of fs p of
            Some (FFile b) \<Rightarrow>
              (if map_of fs (butlast q) \<noteq> Some FDir then (fs, Some (no_such_file ''link'' q))
               else if gm_has fs q then (fs, Some (PathError ''file exists''))
               else (gm_put q (FFile b) fs, None))
          | _ \<Rightarrow> (fs, Some (no_such_file ''link'' p))))"

definition sys_unlink :: "'z lib_scheme \<Rightarrow> fs \<Rightarrow> path \<Rightarrow> fs \<times> error option" where
  "sys_unlink L fs p =
     (case io_fault L ''unlink'' p of Some e \<Rightarrow> (fs, Some e)
      | None \<Rightarrow>
         (case map_of fs p of
            Some (FFile b) \<Rightarrow> (gm_del p fs, None)
          | Some FDir \<Rightarrow> (fs, Some (PathError ''is a directory''))
          | None \<Rightarrow> (fs, Some (no_such_file ''unlink'' p))))"

definition os_remove :: "'z lib_scheme \<Rightarrow> fs \<Rightarrow> path \<Rightarrow> fs \<times> error option" where
  "os_remove L fs p =
     (case io_fault L ''remove'' p of Some e \<Rightarrow> (fs, Some e)
      | None \<Rightarrow>
         (if \<not> gm_has fs p then (fs, Some (no_such_file ''remove'' p))
          else if list_ex (\<lambda>(q, _). strict_prefix p q) fs
          then (fs, Some (PathError (''remove '' @ path_str p @ '': directory not empty'')))
          else (gm_del p fs, None)))"

text \<open>
  \<open>filepath.Walk\<close> visits the root and everything below it, each directory's names in
  lexical order: component-wise lexical order of the paths.  A missing root is reported to
  the callback, which is where the callers look at it.
\<close>

definition fs_walk :: "fs \<Rightarrow> path \<Rightarrow> (path \<times> fentry) list" where
  "fs_walk fs root = sort_key fst (filter (\<lambda>(q, _). prefix root q) fs)"

text \<open>
  What the callback of a walk is given: the path, the file information unless it could not be
  read, and the error.  A directory that cannot be read is reported and not entered; a file
  that cannot be read is reported without information, and so is a root that is missing.
\<close>

definition fs_visits :: "'z lib_scheme \<Rightarrow> fs \<Rightarrow> path \<Rightarrow> (path \<times> fentry option \<times> error option) list" where
  "fs_visits L fs root =
     (if \<not> gm_has fs root then [(root, None, Some (no_such_file ''lstat'' root))]
      else map (\<lambda>(q, n).
             (q, if io_fault L ''walk'' q \<noteq> None \<and> n \<noteq> FDir then None else Some n,
              io_fault L ''walk'' q))
           (filter (\<lambda>(q, _). \<not> list_ex (\<lambda>r. prefix root r \<and> r \<noteq> q \<and> io_fault L ''walk'' r \<noteq> None) (prefixes q))
             (fs_walk fs root)))"

section \<open>Facts about the file operations\<close>

lemma set_fs_walk [simp]: "set (fs_walk fs root) = {(q, n) \<in> set fs. prefix root q}"
  by (auto simp: fs_walk_def)

lemma distinct_fs_walk:
  "distinct (map fst fs) \<Longrightarrow> distinct (map fst (fs_walk fs root))"
proof -
  assume "distinct (map fst fs)"
  then have "distinct (map fst (filter (\<lambda>(q, _). prefix root q) fs))"
    by (rule distinct_map_filter)
  moreover have "mset (map fst (fs_walk fs root)) =
      mset (map fst (filter (\<lambda>(q, _). prefix root q) fs))"
    by (simp add: fs_walk_def)
  ultimately show ?thesis by (metis mset_eq_imp_distinct_iff)
qed

lemma map_of_filter_key:
  "map_of (filter (\<lambda>(q, _). P q) fs) p = (if P p then map_of fs p else None)"
  by (induction fs) auto

lemma map_of_mkdir_step:
  "map_of (mkdir_step p fs) q = (if map_of fs q = None \<and> q = p then Some FDir else map_of fs q)"
  by (auto simp: mkdir_step_def gm_has_def update_conv)

lemma map_of_mkdirs:
  "map_of (fold mkdir_step ps fs) q =
     (if map_of fs q = None \<and> q \<in> set ps then Some FDir else map_of fs q)"
proof (induction ps arbitrary: fs)
  case Nil
  then show ?case by simp
next
  case (Cons p ps)
  show ?case
    by (auto simp: Cons map_of_mkdir_step)
qed

lemma distinct_mkdirs:
  "distinct (map fst fs) \<Longrightarrow> distinct (map fst (fold mkdir_step ps fs))"
  by (induction ps arbitrary: fs) (auto simp: mkdir_step_def distinct_update)

lemma mkdir_all_keeps_distinct:
  "distinct (map fst fs) \<Longrightarrow> distinct (map fst (fst (os_mkdir_all L fs p)))"
  by (auto simp: os_mkdir_all_def distinct_mkdirs split: option.splits)

lemma remove_all_keeps_distinct:
  "distinct (map fst fs) \<Longrightarrow> distinct (map fst (fst (os_remove_all L fs p)))"
  by (auto simp: os_remove_all_def distinct_map_filter split: option.splits)

lemma write_file_keeps_distinct:
  "distinct (map fst fs) \<Longrightarrow> distinct (map fst (fst (os_write_file L fs p b)))"
  by (auto simp: os_write_file_def distinct_update split: option.splits)

end
