(* ===== verification/Reader.thy ===== *)
theory Reader
  imports World
begin

text \<open>
  The secure reader of \<open>pkg/compose/reader.go\<close>: the options of a read, the checks at its
  construction, one \<open>Read\<close> of the reader and the loops of \<open>io.ReadAll\<close> and \<open>io.Copy\<close> over it.
  The lemmas state what the loop returns for every way a source may deliver its bytes
  (soundness) and, for a source that does not fail, that it computes \<open>secure_spec\<close>.
\<close>

section \<open>Options\<close>

datatype read_opt =
    WithRef string
  | WithExpectedSize int
  | WithExpectedDigest digest
  | WithReadLimit int
  | WithDescriptor descriptor
  | WithSecureReadOff

definition zero_desc :: descriptor where
  "zero_desc = \<lparr>d_media = '''', d_digest = '''', d_size = 0, d_urls = [], d_annot = None,
     d_platform = None\<rparr>"

definition zero_params :: read_params where
  "zero_params = \<lparr>rp_ref = '''', rp_digest = '''', rp_size = 0, rp_limit = 0,
     rp_desc = zero_desc, rp_insecure = False\<rparr>"

fun apply_read_opt :: "read_opt \<Rightarrow> read_params \<Rightarrow> read_params" where
  "apply_read_opt (WithRef r) p = p\<lparr>rp_ref := r\<rparr>"
| "apply_read_opt (WithExpectedSize n) p = p\<lparr>rp_size := n\<rparr>"
| "apply_read_opt (WithExpectedDigest d) p = p\<lparr>rp_digest := d\<rparr>"
| "apply_read_opt (WithReadLimit n) p = p\<lparr>rp_limit := n\<rparr>"
| "apply_read_opt (WithDescriptor d) p = p\<lparr>rp_desc := d\<rparr>"
| "apply_read_opt WithSecureReadOff p = p\<lparr>rp_insecure := True\<rparr>"

definition GetSecureReadParams :: "read_opt list \<Rightarrow> read_params" where
  "GetSecureReadParams opts = fold apply_read_opt opts zero_params"

lemma GetSecureReadParams_snoc:
  "GetSecureReadParams (opts @ [opt]) = apply_read_opt opt (GetSecureReadParams opts)"
  by (simp add: GetSecureReadParams_def)

section \<open>Construction\<close>

text \<open>The size a caller expects becomes the read limit unless a limit is set.\<close>

definition effective_limit :: "read_params \<Rightarrow> read_params res" where
  "effective_limit p =
     (if 0 < rp_size p then
        (if 0 < rp_limit p then
           (if rp_limit p < rp_size p
            then Fail (Err (''read limit must be higher than or equal to expected size; limit: '' @
                   show_int (rp_limit p) @ '', expected size: '' @ show_int (rp_size p)))
            else Ok p)
         else Ok (p\<lparr>rp_limit := rp_size p\<rparr>))
      else Ok p)"

definition NewSecureReadCloser :: "src \<Rightarrow> read_opt list \<Rightarrow> read_closer res" where
  "NewSecureReadCloser srcReadCloser opts =
     rbind (effective_limit (GetSecureReadParams opts)) (\<lambda>p.
       if rp_limit p = 0
       then Fail (Err ''neither `SecureReadParams.ReadLimit` not `SecureReadParams.ExpectedSize` is set'')
       else Ok (Secure \<lparr>sr_params = p, sr_lim = \<lparr>lr_src = srcReadCloser, lr_n = rp_limit p\<rparr>,
                        sr_hashed = [], sr_read_bytes = 0\<rparr>))"

section \<open>One read\<close>

fun src_read :: "nat \<Rightarrow> src \<Rightarrow> bytes \<times> error option \<times> src" where
  "src_read k [] = ([], Some EOF, [])"
| "src_read k ((b, e) # rest) =
     (if length b \<le> k then (b, e, rest) else (take k b, None, (drop k b, e) # rest))"

text \<open>\<open>io.LimitedReader.Read\<close>.\<close>

definition limited_read ::
  "nat \<Rightarrow> limited_reader \<Rightarrow> bytes \<times> error option \<times> limited_reader" where
  "limited_read k l =
     (if lr_n l \<le> 0 then ([], Some EOF, l)
      else
        (let k' = (if int k > lr_n l then nat (lr_n l) else k);
             (b, e, rest) = src_read k' (lr_src l)
         in (b, e, \<lparr>lr_src = rest, lr_n = lr_n l - int (length b)\<rparr>)))"

definition isExpectedSize :: "secure_reader \<Rightarrow> bool" where
  "isExpectedSize r \<longleftrightarrow> 0 < rp_size (sr_params r)"

text \<open>What \<open>Read\<close> makes of the end of the stream.\<close>

definition check_eof :: "'z lib_scheme \<Rightarrow> secure_reader \<Rightarrow> error res" where
  "check_eof L r =
     (let p = sr_params r;
          digest_check = (let c = dg_hash L (sr_hashed r) in
             if c \<noteq> rp_digest p then ErrBlobDigestMismatch (rp_digest p) c else EOF)
      in if isExpectedSize r then
           (if sr_read_bytes r < rp_size p
            then Ok (ErrBlobSizeMismatch (rp_size p) (sr_read_bytes r))
            else if rp_size p < sr_read_bytes r
            then Panic (''read more than expected bytes; expected: '' @ show_int (rp_size p) @
                   '', read: '' @ show_int (sr_read_bytes r))
            else Ok digest_check)
         else if lr_n (sr_lim r) = 0 then Ok (ErrBlobSizeLimitExceed (rp_limit p))
         else Ok digest_check)"

definition secure_read ::
  "'z lib_scheme \<Rightarrow> nat \<Rightarrow> secure_reader \<Rightarrow> (bytes \<times> error option \<times> secure_reader) res" where
  "secure_read L k r =
     (let (p, err, lim) = limited_read k (sr_lim r);
          r' = (if 0 < length p
                then r\<lparr>sr_lim := lim, sr_read_bytes := sr_read_bytes r + int (length p),
                       sr_hashed := sr_hashed r @ p\<rparr>
                else r\<lparr>sr_lim := lim\<rparr>)
      in if err = Some EOF then rbind (check_eof L r') (\<lambda>e. Ok (p, Some e, r'))
         else Ok (p, err, r'))"

definition rc_read ::
  "'z lib_scheme \<Rightarrow> nat \<Rightarrow> read_closer \<Rightarrow> (bytes \<times> error option \<times> read_closer) res" where
  "rc_read L k rc =
     (case rc of
        Secure r \<Rightarrow> rbind (secure_read L k r) (\<lambda>(p, e, r'). Ok (p, e, Secure r'))
      | Plain s \<Rightarrow> (let (p, e, s') = src_read k s in Ok (p, e, Plain s')))"

section \<open>Reading to the end\<close>

fun rc_src :: "read_closer \<Rightarrow> src" where
  "rc_src (Secure r) = lr_src (sr_lim r)"
| "rc_src (Plain s) = s"

definition src_weight :: "src \<Rightarrow> nat" where
  "src_weight s = sum_list (map (\<lambda>(b, e). Suc (length b)) s)"

lemma src_weight_simps [simp]:
  "src_weight [] = 0" "src_weight ((b, e) # s) = Suc (length b) + src_weight s"
  by (simp_all add: src_weight_def)

lemma src_read_weight:
  "0 < k \<Longrightarrow> src_read k s = (p, None, s') \<Longrightarrow> src_weight s' < src_weight s"
  by (cases "(k, s)" rule: src_read.cases) (auto split: if_splits)

lemma limited_read_weight:
  "0 < k \<Longrightarrow> limited_read k l = (p, None, l') \<Longrightarrow> src_weight (lr_src l') < src_weight (lr_src l)"
  by (auto simp: limited_read_def Let_def split: if_splits prod.splits dest: src_read_weight
      [rotated])

lemma check_eof_sr_lim [simp]: "sr_lim (r\<lparr>sr_lim := l\<rparr>) = l" by simp

lemma secure_read_weight:
  assumes "0 < k" and "secure_read L k r = Ok (p, None, r')"
  shows "src_weight (lr_src (sr_lim r')) < src_weight (lr_src (sr_lim r))"
  using assms by (auto simp: secure_read_def Let_def rbind_iffs split: if_splits prod.splits
      dest: limited_read_weight)

lemma rc_read_weight:
  assumes "0 < k" and "rc_read L k rc = Ok (p, None, rc')"
  shows "src_weight (rc_src rc') < src_weight (rc_src rc)"
  using assms by (cases rc) (auto simp: rc_read_def rbind_iffs Let_def split: prod.splits
      dest: secure_read_weight src_read_weight)

text \<open>
  \<open>io.ReadAll\<close>: the buffer has room for at least one byte at each read; how much depends on
  what was read so far (\<open>bsz\<close>), because the slice grows as the run-time system decides.
  \<open>io.Copy\<close> into \<open>io.Discard\<close> is the same loop with another buffer.
\<close>

function read_all ::
  "'z lib_scheme \<Rightarrow> (nat \<Rightarrow> nat) \<Rightarrow> read_closer \<Rightarrow> bytes \<Rightarrow> (bytes \<times> error option) res" where
  "read_all L bsz rc acc =
     (case rc_read L (Suc (bsz (length acc))) rc of
        Ok (p, None, rc') \<Rightarrow> read_all L bsz rc' (acc @ p)
      | Ok (p, Some e, rc') \<Rightarrow> Ok (acc @ p, if e = EOF then None else Some e)
      | Fail e \<Rightarrow> Fail e
      | Panic m \<Rightarrow> Panic m)"
  by pat_completeness auto
termination
  by (relation "measure (\<lambda>(L, bsz, rc, acc). src_weight (rc_src rc))")
    (auto dest: rc_read_weight [rotated])

declare read_all.simps [simp del]

text \<open>A caller that drops the bytes read before an error.\<close>

definition io_ReadAll :: "'z lib_scheme \<Rightarrow> read_closer \<Rightarrow> bytes res" where
  "io_ReadAll L rc =
     rbind (read_all L (io_bufsz L) rc []) (\<lambda>(b, e). case e of None \<Rightarrow> Ok b | Some x \<Rightarrow> Fail x)"

section \<open>Invariant of a secure reader\<close>

text \<open>
  The reader has hashed exactly what it delivered, counts it, and the limited reader below it
  has given out no more than the read limit.
\<close>

definition sr_inv :: "secure_reader \<Rightarrow> bytes \<Rightarrow> bool" where
  "sr_inv r acc \<longleftrightarrow> sr_hashed r = acc \<and> sr_read_bytes r = int (length acc) \<and>
     (0 < rp_limit (sr_params r) \<longrightarrow> 0 \<le> lr_n (sr_lim r)) \<and>
     (rp_limit (sr_params r) \<le> 0 \<longrightarrow> acc = []) \<and>
     lr_n (sr_lim r) + int (length acc) = rp_limit (sr_params r)"

lemma src_read_length: "src_read k s = (p, e, s') \<Longrightarrow> length p \<le> k"
  by (cases "(k, s)" rule: src_read.cases) (auto split: if_splits)

lemma limited_read_n:
  assumes "limited_read k l = (p, e, l')"
  shows "lr_n l' = lr_n l - int (length p)" and "0 < lr_n l \<Longrightarrow> 0 \<le> lr_n l'"
    and "lr_n l \<le> 0 \<Longrightarrow> p = [] \<and> l' = l"
  using assms
  by (auto simp: limited_read_def Let_def split: if_splits prod.splits dest: src_read_length)

lemma secure_read_inv:
  assumes "secure_read L k r = Ok (p, e, r')" and "sr_inv r acc"
  shows "sr_inv r' (acc @ p)" and "sr_params r' = sr_params r"
proof -
  obtain q x l where l: "limited_read k (sr_lim r) = (q, x, l)" by (metis prod_cases3)
  have n: "lr_n l = lr_n (sr_lim r) - int (length q)"
    and pos: "0 < lr_n (sr_lim r) \<Longrightarrow> 0 \<le> lr_n l"
    and zero: "lr_n (sr_lim r) \<le> 0 \<Longrightarrow> q = [] \<and> l = sr_lim r"
    using limited_read_n [OF l] by auto
  have lim: "0 < rp_limit (sr_params r) \<Longrightarrow> 0 \<le> lr_n l"
    using assms(2) pos zero unfolding sr_inv_def by (metis linorder_not_le)
  have neg: "rp_limit (sr_params r) \<le> 0 \<Longrightarrow> q = []"
    using assms(2) zero unfolding sr_inv_def by auto
  have r': "p = q" "r' = (if 0 < length q
      then r\<lparr>sr_lim := l, sr_read_bytes := sr_read_bytes r + int (length q),
             sr_hashed := sr_hashed r @ q\<rparr>
      else r\<lparr>sr_lim := l\<rparr>)"
    using assms(1) by (auto simp: secure_read_def l Let_def rbind_iffs split: if_splits)
  then show "sr_params r' = sr_params r" by simp
  show "sr_inv r' (acc @ p)"
    using assms(2) r' n lim neg by (auto simp: sr_inv_def)
qed

lemma check_eof_EOF:
  "check_eof L r = Ok EOF \<Longrightarrow> dg_hash L (sr_hashed r) = rp_digest (sr_params r) \<and>
     (0 < rp_size (sr_params r) \<longrightarrow> sr_read_bytes r = rp_size (sr_params r)) \<and>
     (0 < rp_size (sr_params r) \<or> lr_n (sr_lim r) \<noteq> 0)"
  by (auto simp: check_eof_def Let_def isExpectedSize_def split: if_splits)

lemma secure_read_EOF:
  assumes "secure_read L k r = Ok (p, Some EOF, r')"
  shows "check_eof L r' = Ok EOF"
  using assms by (auto simp: secure_read_def Let_def rbind_iffs split: if_splits prod.splits)

lemma secure_read_not_Fail [simp]: "secure_read L k r \<noteq> Fail e"
  by (auto simp: secure_read_def check_eof_def Let_def rbind_iffs split: prod.splits)

text \<open>
  Whatever the source delivers and however it delivers it, bytes that \<open>ReadAll\<close> returns
  without an error hash to the expected digest, have the expected size when one is set, and
  are fewer than the read limit otherwise.
\<close>

lemma read_all_secure_sound:
  assumes "read_all L bsz rc acc = Ok (b, None)" and "rc = Secure r" and "sr_inv r acc"
  shows "dg_hash L b = rp_digest (sr_params r) \<and>
    (0 < rp_size (sr_params r) \<longrightarrow> int (length b) = rp_size (sr_params r)) \<and>
    (\<not> 0 < rp_size (sr_params r) \<longrightarrow> int (length b) \<noteq> rp_limit (sr_params r)) \<and>
    (0 < rp_limit (sr_params r) \<longrightarrow> int (length b) \<le> rp_limit (sr_params r))"
  using assms
proof (induction L bsz rc acc arbitrary: r rule: read_all.induct)
  case (1 L bsz rc acc)
  let ?k = "Suc (bsz (length acc))"
  from "1.prems"(1,2) obtain p e r' where rd: "secure_read L ?k r = Ok (p, e, r')"
    by (subst (asm) read_all.simps)
      (auto simp: rc_read_def rbind_iffs split: res.splits option.splits)
  note inv = secure_read_inv [OF rd "1.prems"(3)]
  have rc: "rc_read L ?k rc = Ok (p, e, Secure r')"
    using rd "1.prems"(2) by (simp add: rc_read_def)
  show ?case
  proof (cases e)
    case None
    with rc "1.prems"(1) have "read_all L bsz (Secure r') (acc @ p) = Ok (b, None)"
      by (subst (asm) read_all.simps) simp
    from "1.IH" [OF rc refl refl None this refl inv(1)] inv(2) show ?thesis by simp
  next
    case (Some x)
    with rc "1.prems"(1) have "x = EOF" and b: "b = acc @ p"
      by (subst (asm) read_all.simps, simp split: if_splits)+
    with rd Some have "check_eof L r' = Ok EOF" by (blast dest: secure_read_EOF)
    from check_eof_EOF [OF this] inv b show ?thesis by (auto simp: sr_inv_def)
  qed
qed

section \<open>What a source that does not fail yields\<close>

definition src_clean :: "src \<Rightarrow> bool" where
  "src_clean s \<longleftrightarrow> list_all (\<lambda>(b, e). e = None) s"

definition src_content :: "src \<Rightarrow> bytes" where
  "src_content s = concat (map fst s)"

text \<open>The specification: only the content matters, not how it is cut into reads.\<close>

definition secure_spec :: "'z lib_scheme \<Rightarrow> read_params \<Rightarrow> bytes \<Rightarrow> (bytes \<times> error option) res" where
  "secure_spec L p content =
     (let got = take (nat (rp_limit p)) content;
          n = int (length got);
          checked = Ok (got, if dg_hash L got = rp_digest p then None
                             else Some (ErrBlobDigestMismatch (rp_digest p) (dg_hash L got)))
      in if 0 < rp_size p then
           (if n < rp_size p then Ok (got, Some (ErrBlobSizeMismatch (rp_size p) n))
            else if rp_size p < n
            then Panic (''read more than expected bytes; expected: '' @ show_int (rp_size p) @
                   '', read: '' @ show_int n)
            else checked)
         else if n = rp_limit p then Ok (got, Some (ErrBlobSizeLimitExceed (rp_limit p)))
         else checked)"

text \<open>The state of the loop in terms of what is still to come.\<close>

definition secure_rest :: "'z lib_scheme \<Rightarrow> secure_reader \<Rightarrow> bytes \<Rightarrow> (bytes \<times> error option) res" where
  "secure_rest L r acc =
     secure_spec L (sr_params r) (acc @ take (nat (lr_n (sr_lim r))) (src_content (lr_src (sr_lim r))))"

lemma src_read_clean:
  assumes "src_read k s = (p, e, s')" and "src_clean s"
  shows "src_clean s'" and "src_content s = p @ src_content s'"
    and "e = (if s = [] then Some EOF else None)"
  using assms
  by (cases "(k, s)" rule: src_read.cases;
      force simp: src_clean_def src_content_def split: if_splits)+

lemma take_limit_spec:
  "acc @ take (nat m) c = take (nat (m + int (length acc))) (acc @ c)" if "0 \<le> m"
  using that by (simp add: nat_add_distrib)

lemma limited_read_clean:
  assumes "limited_read k l = (p, e, l')" and "src_clean (lr_src l)"
  shows "src_clean (lr_src l')"
    and "take (nat (lr_n l)) (src_content (lr_src l)) =
         p @ take (nat (lr_n l')) (src_content (lr_src l'))"
    and "e \<noteq> None \<Longrightarrow> e = Some EOF \<and> p = [] \<and> l' = l \<and> (lr_n l \<le> 0 \<or> lr_src l = [])"
proof -
  have "src_clean (lr_src l') \<and>
    take (nat (lr_n l)) (src_content (lr_src l)) =
      p @ take (nat (lr_n l')) (src_content (lr_src l')) \<and>
    (e \<noteq> None \<longrightarrow> e = Some EOF \<and> p = [] \<and> l' = l \<and> (lr_n l \<le> 0 \<or> lr_src l = []))"
  proof (cases "lr_n l \<le> 0")
    case True
    with assms show ?thesis by (auto simp: limited_read_def)
  next
    case False
    define k' where "k' = (if int k > lr_n l then nat (lr_n l) else k)"
    obtain s' where rd: "src_read k' (lr_src l) = (p, e, s')"
      and l': "l' = \<lparr>lr_src = s', lr_n = lr_n l - int (length p)\<rparr>"
      using assms(1) False by (auto simp: limited_read_def k'_def Let_def split: prod.splits)
    have le: "length p \<le> nat (lr_n l)"
      using src_read_length [OF rd] False by (simp add: k'_def split: if_splits)
    note cl = src_read_clean [OF rd assms(2)]
    have "nat (lr_n l - int (length p)) = nat (lr_n l) - length p" by simp
    with le cl(2) l' have "take (nat (lr_n l)) (src_content (lr_src l)) =
        p @ take (nat (lr_n l')) (src_content (lr_src l'))"
      by simp
    moreover have "e = Some EOF \<and> p = [] \<and> l' = l \<and> lr_src l = []" if "e \<noteq> None"
    proof -
      from that cl(3) have src: "lr_src l = []" and e: "e = Some EOF" by (auto split: if_splits)
      with rd have "p = []" "s' = []" by simp_all
      with l' src e show ?thesis by simp
    qed
    ultimately show ?thesis using cl(1) l' by auto
  qed
  then show "src_clean (lr_src l')"
    and "take (nat (lr_n l)) (src_content (lr_src l)) =
         p @ take (nat (lr_n l')) (src_content (lr_src l'))"
    and "e \<noteq> None \<Longrightarrow> e = Some EOF \<and> p = [] \<and> l' = l \<and> (lr_n l \<le> 0 \<or> lr_src l = [])"
    by blast+
qed

lemma check_eof_spec:
  assumes "sr_inv r acc" and "lr_n (sr_lim r) \<le> 0 \<or> lr_src (sr_lim r) = []"
  shows "secure_rest L r acc = rbind (check_eof L r) (\<lambda>e. Ok (acc, if e = EOF then None else Some e))"
proof -
  let ?p = "sr_params r"
  have rest: "acc @ take (nat (lr_n (sr_lim r))) (src_content (lr_src (sr_lim r))) = acc"
    using assms(2) by (auto simp: src_content_def)
  have n: "lr_n (sr_lim r) + int (length acc) = rp_limit ?p" "sr_hashed r = acc"
    "sr_read_bytes r = int (length acc)" "0 < rp_limit ?p \<longrightarrow> 0 \<le> lr_n (sr_lim r)"
    "rp_limit ?p \<le> 0 \<longrightarrow> acc = []"
    using assms(1) by (auto simp: sr_inv_def)
  have got: "take (nat (rp_limit ?p)) acc = acc"
    using n by (cases "0 < rp_limit ?p") auto
  have zero: "lr_n (sr_lim r) = 0 \<longleftrightarrow> int (length acc) = rp_limit ?p"
    using n(1) by linarith
  show ?thesis
    by (simp add: secure_rest_def secure_spec_def rest got zero check_eof_def isExpectedSize_def
        n(2,3) Let_def)
qed

lemma read_all_secure_rest:
  assumes "rc = Secure r" and "sr_inv r acc" and "src_clean (lr_src (sr_lim r))"
  shows "read_all L bsz rc acc = secure_rest L r acc"
  using assms
proof (induction L bsz rc acc arbitrary: r rule: read_all.induct)
  case (1 L bsz rc acc)
  let ?k = "Suc (bsz (length acc))"
  obtain p e l where l: "limited_read ?k (sr_lim r) = (p, e, l)" by (metis prod_cases3)
  note clean = limited_read_clean [OF l "1.prems"(3)]
  show ?case
  proof (cases e)
    case None
    obtain r' where rd: "secure_read L ?k r = Ok (p, None, r')" and lim: "sr_lim r' = l"
      using l None by (auto simp: secure_read_def)
    have rc: "rc_read L ?k rc = Ok (p, None, Secure r')"
      using rd "1.prems"(1) by (simp add: rc_read_def)
    note inv = secure_read_inv [OF rd "1.prems"(2)]
    have "read_all L bsz rc acc = read_all L bsz (Secure r') (acc @ p)"
      by (subst read_all.simps) (simp add: rc)
    also have "\<dots> = secure_rest L r' (acc @ p)"
      using "1.IH" [OF rc refl refl refl refl inv(1)] clean(1) lim by simp
    also have "\<dots> = secure_rest L r acc"
      using clean(2) lim inv(2) by (simp add: secure_rest_def)
    finally show ?thesis .
  next
    case (Some x)
    then have e: "e = Some EOF" "p = []" "l = sr_lim r"
      and z: "lr_n (sr_lim r) \<le> 0 \<or> lr_src (sr_lim r) = []"
      using clean(3) by auto
    have "secure_read L ?k r = rbind (check_eof L r) (\<lambda>e. Ok ([], Some e, r))"
      using l e by (simp add: secure_read_def)
    then have "read_all L bsz rc acc = rbind (check_eof L r) (\<lambda>e. Ok (acc, if e = EOF then None else Some e))"
      using "1.prems"(1) by (subst read_all.simps, cases "check_eof L r") (auto simp: rc_read_def)
    with check_eof_spec [OF "1.prems"(2) z, of L] show ?thesis by simp
  qed
qed

text \<open>Construction and loop together.\<close>

definition secure_read_all ::
  "'z lib_scheme \<Rightarrow> (nat \<Rightarrow> nat) \<Rightarrow> src \<Rightarrow> read_opt list \<Rightarrow> (bytes \<times> error option) res" where
  "secure_read_all L bsz s opts =
     rbind (NewSecureReadCloser s opts) (\<lambda>rc. read_all L bsz rc [])"

lemma NewSecureReadCloser_OkD:
  assumes "NewSecureReadCloser s opts = Ok rc"
  obtains r where "rc = Secure r" "effective_limit (GetSecureReadParams opts) = Ok (sr_params r)"
    "rp_limit (sr_params r) \<noteq> 0" "sr_inv r []" "lr_src (sr_lim r) = s"
proof -
  from assms obtain p where p: "effective_limit (GetSecureReadParams opts) = Ok p"
    "rp_limit p \<noteq> 0"
    and rc: "rc = Secure \<lparr>sr_params = p, sr_lim = \<lparr>lr_src = s, lr_n = rp_limit p\<rparr>,
                        sr_hashed = [], sr_read_bytes = 0\<rparr>"
    by (auto simp: NewSecureReadCloser_def rbind_iffs split: if_splits)
  show thesis by (rule that [OF rc]) (use p in \<open>auto simp: sr_inv_def\<close>)
qed

lemma effective_limit_params:
  assumes "effective_limit p = Ok q"
  shows "rp_digest q = rp_digest p" "rp_size q = rp_size p"
    "0 < rp_size p \<Longrightarrow> rp_size p \<le> rp_limit q"
    "0 < rp_limit p \<Longrightarrow> rp_limit q = rp_limit p"
  using assms by (auto simp: effective_limit_def split: if_splits)

lemma secure_read_all_sound:
  assumes "secure_read_all L bsz s opts = Ok (b, None)"
  shows "dg_hash L b = rp_digest (GetSecureReadParams opts) \<and>
    (0 < rp_size (GetSecureReadParams opts) \<longrightarrow>
       int (length b) = rp_size (GetSecureReadParams opts)) \<and>
    (0 < rp_limit (GetSecureReadParams opts) \<longrightarrow>
       int (length b) \<le> rp_limit (GetSecureReadParams opts))"
proof -
  from assms obtain rc where rc: "NewSecureReadCloser s opts = Ok rc"
    and all: "read_all L bsz rc [] = Ok (b, None)"
    by (auto simp: secure_read_all_def rbind_iffs)
  from NewSecureReadCloser_OkD [OF rc] obtain r where r: "rc = Secure r"
    "effective_limit (GetSecureReadParams opts) = Ok (sr_params r)" "sr_inv r []" by metis
  from read_all_secure_sound [OF all r(1,3)] effective_limit_params [OF r(2)]
  show ?thesis by auto
qed

lemma secure_read_all_spec:
  assumes "src_clean s"
  shows "secure_read_all L bsz s opts =
    rbind (effective_limit (GetSecureReadParams opts)) (\<lambda>p.
      if rp_limit p = 0
      then Fail (Err ''neither `SecureReadParams.ReadLimit` not `SecureReadParams.ExpectedSize` is set'')
      else secure_spec L p (src_content s))"
proof (cases "effective_limit (GetSecureReadParams opts)")
  case (Ok p)
  show ?thesis
  proof (cases "rp_limit p = 0")
    case True
    with Ok show ?thesis by (simp add: secure_read_all_def NewSecureReadCloser_def)
  next
    case False
    let ?r = "\<lparr>sr_params = p, sr_lim = \<lparr>lr_src = s, lr_n = rp_limit p\<rparr>,
       sr_hashed = [], sr_read_bytes = 0\<rparr>"
    have "read_all L bsz (Secure ?r) [] = secure_rest L ?r []"
      using assms by (intro read_all_secure_rest [OF refl]) (auto simp: sr_inv_def)
    with Ok False show ?thesis
      by (simp add: secure_read_all_def NewSecureReadCloser_def secure_rest_def secure_spec_def
          min_def)
  qed
qed (simp_all add: secure_read_all_def NewSecureReadCloser_def)

end
