(* ===== verification/Blob.thy ===== *)
theory Blob
  imports Reader
begin

text \<open>
  The blob vocabulary of \<open>pkg/compose/blob.go\<close>: blob states and types, the record of a blob,
  the context keys, and how an error of a read becomes a blob state.
\<close>

datatype blob_state =
    BlobStateUndefined
  | BlobOk
  | BlobFetching
  | BlobMissing
  | BlobSizeInvalid
  | BlobDigestInvalid

datatype blob_type =
    BlobTypeUnknown
  | BlobTypeAppManifest
  | BlobTypeAppBundle
  | BlobTypeAppIndex
  | BlobTypeAppLayersMeta
  | BlobTypeImageIndex
  | BlobTypeSkopeoImageIndex
  | BlobTypeImageManifest
  | BlobTypeImageConfig
  | BlobTypeImageLayer

record blob_info =
  bi_desc :: descriptor
  bi_state :: blob_state
  bi_type :: blob_type
  bi_store_size :: int
  bi_runtime_size :: int
  bi_bytes_fetched :: int

definition desc_HasRef :: "descriptor \<Rightarrow> bool" where
  "desc_HasRef d \<longleftrightarrow> d_urls d \<noteq> []"

definition desc_Ref :: "descriptor \<Rightarrow> string" where
  "desc_Ref d = (case d_urls d of [] \<Rightarrow> '''' | u # _ \<Rightarrow> u)"

definition BlobInfo_HasRef :: "blob_info \<Rightarrow> bool" where
  "BlobInfo_HasRef bi = desc_HasRef (bi_desc bi)"

definition BlobInfo_Ref :: "blob_info \<Rightarrow> string" where
  "BlobInfo_Ref bi = desc_Ref (bi_desc bi)"

fun blob_state_String :: "blob_state \<Rightarrow> string" where
  "blob_state_String BlobOk = ''OK''"
| "blob_state_String BlobFetching = ''fetching''"
| "blob_state_String BlobMissing = ''missing''"
| "blob_state_String BlobSizeInvalid = ''invalid size''"
| "blob_state_String BlobDigestInvalid = ''invalid hash''"
| "blob_state_String BlobStateUndefined = ''undefined''"

fun blob_type_str :: "blob_type \<Rightarrow> string" where
  "blob_type_str BlobTypeUnknown = ''unknown blob type''"
| "blob_type_str BlobTypeAppManifest = ''app manifest''"
| "blob_type_str BlobTypeAppBundle = ''app bundle''"
| "blob_type_str BlobTypeAppIndex = ''app index''"
| "blob_type_str BlobTypeAppLayersMeta = ''app meta''"
| "blob_type_str BlobTypeImageIndex = ''index''"
| "blob_type_str BlobTypeSkopeoImageIndex = ''skopeo index''"
| "blob_type_str BlobTypeImageManifest = ''manifest''"
| "blob_type_str BlobTypeImageConfig = ''config''"
| "blob_type_str BlobTypeImageLayer = ''layer''"

text \<open>
  The texts are searched for before the type of the error is looked at; the type switch sees
  the error itself, not what it wraps.
\<close>

definition ErrToBlobState :: "error option \<Rightarrow> blob_state" where
  "ErrToBlobState err =
     (case err of
        None \<Rightarrow> BlobOk
      | Some e \<Rightarrow>
          if sublist ''not found'' (err_msg e) \<or> errors_Is_NotExist e then BlobMissing
          else (case e of
                  ErrBlobSizeMismatch _ _ \<Rightarrow> BlobSizeInvalid
                | ErrBlobDigestMismatch _ _ \<Rightarrow> BlobDigestInvalid
                | _ \<Rightarrow> BlobStateUndefined))"

lemma ErrToBlobState_None [simp]: "ErrToBlobState None = BlobOk"
  by (simp add: ErrToBlobState_def)

lemma ErrToBlobState_Ok_iff [simp]: "ErrToBlobState e = BlobOk \<longleftrightarrow> e = None"
  by (auto simp: ErrToBlobState_def split: option.splits error.splits)

end
