(* ===== verification/Refs.thy ===== *)
theory Refs
  imports Blob
begin

text \<open>
  References to apps and images: \<open>AppRef\<close> of \<open>pkg/compose/app.go\<close>, \<open>ImageRef\<close> of
  \<open>pkg/compose/image.go\<close>, and the two values a context carries to a blob provider.  Parsing is
  containerd's \<open>reference.Parse\<close>, a parameter; what the repository does with its result,
  slices that can panic included, is modelled.
\<close>

record app_ref =
  ar_spec :: refspec
  ar_repo :: string
  ar_name :: string
  ar_tag :: string
  ar_digest :: digest

record ctx =
  cx_app :: "app_ref option"
  cx_blob :: "blob_type option"

definition ctx_background :: ctx where
  "ctx_background = \<lparr>cx_app = None, cx_blob = None\<rparr>"

definition WithAppRef :: "ctx \<Rightarrow> app_ref \<Rightarrow> ctx" where
  "WithAppRef c r = c\<lparr>cx_app := Some r\<rparr>"

definition WithBlobType :: "ctx \<Rightarrow> blob_type \<Rightarrow> ctx" where
  "WithBlobType c t = c\<lparr>cx_blob := Some t\<rparr>"

text \<open>The slice \<open>s[n:]\<close>, which panics when \<open>n\<close> exceeds the length.\<close>

definition slice_from :: "nat \<Rightarrow> string \<Rightarrow> string res" where
  "slice_from n s =
     (if n \<le> length s then Ok (drop n s) else Panic ''slice bounds out of range'')"

definition ParseAppRef :: "'z lib_scheme \<Rightarrow> string \<Rightarrow> app_ref res" where
  "ParseAppRef L ref =
     rbind (ref_parse L ref) (\<lambda>s.
       let hostNameLen = length (ref_hostname L s) in
       if hostNameLen = length ref
       then Fail (Err ''invalid app reference: digest must be specified (host/repo/name@sha256:<hash>)'')
       else rbind (slice_from (hostNameLen + 1) (rs_locator s)) (\<lambda>appName.
         let i = str_index (CHR ''/'') appName;
             repo = (if i > 0 then take (nat i) appName else '''');
             name = (if i > 0 then drop (nat i + 1) appName else appName);
             (t, d) = ref_split_object L (rs_object s)
         in Ok \<lparr>ar_spec = s, ar_repo = repo, ar_name = name, ar_tag = t, ar_digest = d\<rparr>))"

definition AppRef_String :: "'z lib_scheme \<Rightarrow> app_ref \<Rightarrow> string" where
  "AppRef_String L r = ref_string L (ar_spec r)"

definition AppRef_GetBlobRef :: "app_ref \<Rightarrow> digest \<Rightarrow> string" where
  "AppRef_GetBlobRef r d = rs_locator (ar_spec r) @ ''@'' @ d"

record image_ref =
  ig_spec :: refspec
  ig_digest :: digest

definition ParseImageRef :: "'z lib_scheme \<Rightarrow> string \<Rightarrow> image_ref res" where
  "ParseImageRef L ref =
     rbind (ref_parse L ref) (\<lambda>s. Ok \<lparr>ig_spec = s, ig_digest = ref_digest L s\<rparr>)"

definition GetTagRef :: "'z lib_scheme \<Rightarrow> image_ref \<Rightarrow> string res" where
  "GetTagRef L r =
     rbind (dg_encoded L (ig_digest r)) (\<lambda>e.
       rbind (slice_to 7 e) (\<lambda>t. Ok (rs_locator (ig_spec r) @ '':'' @ t)))"

definition ImageRef_GetBlobRef :: "image_ref \<Rightarrow> digest \<Rightarrow> string" where
  "ImageRef_GetBlobRef r d = rs_locator (ig_spec r) @ ''@'' @ d"

definition parseAndCheckAppRef :: "'z lib_scheme \<Rightarrow> string \<Rightarrow> app_ref res" where
  "parseAndCheckAppRef L ref =
     rbind (ParseAppRef L ref) (\<lambda>r.
       if ar_digest r = ''''
       then Fail (Err ''unsupported app reference format; digest is required'')
       else Ok r)"

lemma ParseAppRef_spec:
  "ParseAppRef L ref = Ok r \<Longrightarrow> ref_parse L ref = Ok (ar_spec r)"
  by (auto simp: ParseAppRef_def rbind_iffs Let_def split: if_splits prod.splits)

text \<open>Repository and name are the locator after the host, cut at its first slash.\<close>

lemma str_index_split:
  assumes "0 < str_index c s"
  shows "s = take (nat (str_index c s)) s @ c # drop (nat (str_index c s) + 1) s"
    and "take (nat (str_index c s)) s \<noteq> []"
proof -
  from assms have "c \<in> set s" by (auto simp: str_index_def split: if_splits)
  then obtain u v where s: "s = u @ c # v" and u: "c \<notin> set u" by (metis split_list_first)
  from u have tw: "takeWhile (\<lambda>x. x \<noteq> c) s = u"
    unfolding s by (subst takeWhile_append2) auto
  then have i: "str_index c s = int (length u)" by (simp add: str_index_def s)
  show "s = take (nat (str_index c s)) s @ c # drop (nat (str_index c s) + 1) s"
    unfolding i by (simp add: s)
  show "take (nat (str_index c s)) s \<noteq> []"
    using assms unfolding i by (simp add: s)
qed

lemma ParseAppRef_locator:
  assumes "ParseAppRef L ref = Ok r"
  shows "drop (length (ref_hostname L (ar_spec r)) + 1) (rs_locator (ar_spec r)) =
    (if ar_repo r = '''' then ar_name r else ar_repo r @ ''/'' @ ar_name r)"
proof -
  define a where "a = drop (length (ref_hostname L (ar_spec r)) + 1) (rs_locator (ar_spec r))"
  from assms have parts:
    "ar_repo r = (if 0 < str_index (CHR ''/'') a then take (nat (str_index (CHR ''/'') a)) a else '''')"
    "ar_name r = (if 0 < str_index (CHR ''/'') a then drop (nat (str_index (CHR ''/'') a) + 1) a else a)"
    by (auto simp: a_def ParseAppRef_def rbind_iffs Let_def slice_from_def split: if_splits prod.splits)
  have "a = (if ar_repo r = '''' then ar_name r else ar_repo r @ ''/'' @ ar_name r)"
  proof (cases "0 < str_index (CHR ''/'') a")
    case True
    with str_index_split [OF True] parts show ?thesis by simp
  next
    case False
    with parts show ?thesis by simp
  qed
  then show ?thesis unfolding a_def .
qed

end
