(* ===== verification/Provider.thy ===== *)
theory Provider
  imports Refs
begin

text \<open>
  Blob providers (\<open>pkg/compose/provider.go\<close>, and the provider side of the app store of
  \<open>pkg/compose/v1/app_store.go\<close>).  A value of the Go interface \<open>BlobProvider\<close> is a record of
  its methods; there is one constructor per implementation.  The locale \<open>blob_provider\<close> is the
  contract the readers of blobs rely on; it is interpreted on every implementation.
\<close>

datatype provider_type =
    BlobProviderTypeRemote
  | BlobProviderTypeLocal
  | BlobProviderTypeStore
  | BlobProviderTypeMemory
  | BlobProviderTypeAppStore

record provider =
  pv_type :: provider_type
  pv_info :: "digest \<Rightarrow> int res"
  pv_get :: "ctx \<Rightarrow> read_opt list \<Rightarrow> read_closer res"

section \<open>Implementations\<close>

definition missing_params_error :: error where
  "missing_params_error = Err ''missing parameters: either `SecureReadOpts.Ref` or `SecureReadOpts.ExpectedDigest` should be specified''"

text \<open>
  The opening lines of the store, local and memory providers: the digest of the reference
  stands in for a missing expected digest, and is then also passed on as an option.
\<close>

definition with_ref_digest ::
  "'z lib_scheme \<Rightarrow> read_opt list \<Rightarrow> (read_params \<times> read_opt list) res" where
  "with_ref_digest L opts =
     (let p = GetSecureReadParams opts in
      if rp_digest p = '''' then
        (if rp_ref p \<noteq> ''''
         then rbind (ref_parse L (rp_ref p)) (\<lambda>s.
                Ok (p\<lparr>rp_digest := ref_digest L s\<rparr>, opts @ [WithExpectedDigest (ref_digest L s)]))
         else Fail missing_params_error)
      else Ok (p, opts))"

definition storeBlobProvider_GetReadCloser ::
  "'z lib_scheme \<Rightarrow> fs \<Rightarrow> path \<Rightarrow> read_opt list \<Rightarrow> read_closer res" where
  "storeBlobProvider_GetReadCloser L fs root opts =
     rbind (with_ref_digest L opts) (\<lambda>(p, newOpts).
       rbind (dg_encoded L (rp_digest p)) (\<lambda>enc.
         rbind (os_open L fs (path_join root [enc])) (\<lambda>f.
           if rp_insecure p then Ok (Plain f) else NewSecureReadCloser f newOpts)))"

definition localBlobProvider_GetReadCloser ::
  "('x, 'z) sys_scheme \<Rightarrow> 'x world \<Rightarrow> read_opt list \<Rightarrow> read_closer res" where
  "localBlobProvider_GetReadCloser X w opts =
     rbind (with_ref_digest X opts) (\<lambda>(p, newOpts).
       rbind (ls_reader_at X w (rp_digest p)) (\<lambda>ra. NewSecureReadCloser ra newOpts))"

definition getSecureReadCloser ::
  "('x, 'z) sys_scheme \<Rightarrow> 'x world \<Rightarrow> read_params \<Rightarrow> read_opt list \<Rightarrow> read_closer res" where
  "getSecureReadCloser X w p opts =
     rbind (if rp_digest p \<noteq> '''' \<and> rp_size p \<noteq> 0
            then Ok (zero_desc\<lparr>d_digest := rp_digest p, d_size := rp_size p\<rparr>)
            else rm_resolve X w (rp_ref p)) (\<lambda>desc.
       (case rm_fetcher X w (rp_ref p) of
          Some e \<Rightarrow> Fail e
        | None \<Rightarrow>
            rbind (rm_fetch X w (rp_ref p) desc) (\<lambda>sr.
              NewSecureReadCloser sr
                ([WithExpectedDigest (d_digest desc), WithExpectedSize (d_size desc)] @ opts))))"

definition getReadCloser ::
  "('x, 'z) sys_scheme \<Rightarrow> 'x world \<Rightarrow> read_params \<Rightarrow> read_closer res" where
  "getReadCloser X w p =
     (if d_size (rp_desc p) = 0 \<or> d_digest (rp_desc p) = ''''
      then Fail (Err (''mandatory parameter `Descriptor` is not set or incomplete:'' @
             '' `Size` and `Digest` fields must be set''))
      else (case rm_fetcher X w (rp_ref p) of
              Some e \<Rightarrow> Fail e
            | None \<Rightarrow> rbind (rm_fetch X w (rp_ref p) (rp_desc p)) (\<lambda>s. Ok (Plain s))))"

definition remoteBlobProvider_GetReadCloser ::
  "('x, 'z) sys_scheme \<Rightarrow> 'x world \<Rightarrow> read_opt list \<Rightarrow> read_closer res" where
  "remoteBlobProvider_GetReadCloser X w opts =
     (let p = GetSecureReadParams opts in
      if rp_ref p = '''' then Fail (Err ''missing mandatory parameter `SecureReadParams.Ref`'')
      else if rp_insecure p then getReadCloser X w p
      else getSecureReadCloser X w p opts)"

definition memoryBlobProvider_GetReadCloser ::
  "'z lib_scheme \<Rightarrow> (digest, bytes) gomap \<Rightarrow> read_opt list \<Rightarrow> read_closer res" where
  "memoryBlobProvider_GetReadCloser L blobs opts =
     (let params = GetSecureReadParams opts in
      rbind (if rp_digest params = '''' then
               (if rp_ref params \<noteq> ''''
                then rbind (ref_parse L (rp_ref params)) (\<lambda>s.
                       Ok (params\<lparr>rp_digest := ref_digest L s\<rparr>))
                else Fail missing_params_error)
             else Ok params) (\<lambda>params.
        (case map_of blobs (rp_digest params) of
           Some b \<Rightarrow> NewSecureReadCloser [(b, None)] (opts @ [WithExpectedDigest (rp_digest params)])
         | None \<Rightarrow> Fail (Err (''blob '' @ rp_digest params @ '' not found'')))))"

definition NewStoreBlobProvider :: "'z lib_scheme \<Rightarrow> fs \<Rightarrow> path \<Rightarrow> provider" where
  "NewStoreBlobProvider L fs root =
     \<lparr>pv_type = BlobProviderTypeStore, pv_info = (\<lambda>_. Fail (Err ''not implemented'')),
      pv_get = (\<lambda>_. storeBlobProvider_GetReadCloser L fs root)\<rparr>"

definition NewLocalBlobProvider :: "('x, 'z) sys_scheme \<Rightarrow> 'x world \<Rightarrow> provider" where
  "NewLocalBlobProvider X w =
     \<lparr>pv_type = BlobProviderTypeLocal, pv_info = ls_info X w,
      pv_get = (\<lambda>_. localBlobProvider_GetReadCloser X w)\<rparr>"

definition newRemoteBlobProvider :: "('x, 'z) sys_scheme \<Rightarrow> 'x world \<Rightarrow> provider" where
  "newRemoteBlobProvider X w =
     \<lparr>pv_type = BlobProviderTypeRemote, pv_info = (\<lambda>_. Fail (Err ''not implemented'')),
      pv_get = (\<lambda>_. remoteBlobProvider_GetReadCloser X w)\<rparr>"

definition NewMemoryBlobProvider :: "'z lib_scheme \<Rightarrow> (digest, bytes) gomap \<Rightarrow> provider" where
  "NewMemoryBlobProvider L blobs =
     \<lparr>pv_type = BlobProviderTypeMemory, pv_info = (\<lambda>_. Fail (Err ''not implemented'')),
      pv_get = (\<lambda>_. memoryBlobProvider_GetReadCloser L blobs)\<rparr>"

section \<open>The app store as a provider\<close>

record app_store =
  as_root :: path
  as_apps_root :: path
  as_blobs_root :: path
  as_platform :: platform
  as_skopeo :: bool

definition GetBlobsRootFor :: "path \<Rightarrow> path" where
  "GetBlobsRootFor storeRoot = path_join storeRoot [''blobs'', ''sha256'']"

text \<open>\<open>skopeoStoreAware\<close> is an optional argument that defaults to true.\<close>

definition NewAppStore ::
  "('x, 'z) sys_scheme \<Rightarrow> path \<Rightarrow> platform \<Rightarrow> bool list \<Rightarrow> app_store res" where
  "NewAppStore X root pf skopeoStoreAware =
     (case ls_new X root of
        Some e \<Rightarrow> Fail e
      | None \<Rightarrow>
          Ok \<lparr>as_root = root, as_apps_root = path_join root [''apps''],
              as_blobs_root = GetBlobsRootFor root, as_platform = pf,
              as_skopeo = (case skopeoStoreAware of [] \<Rightarrow> True | b # _ \<Rightarrow> b)\<rparr>)"

text \<open>The file of an image index below the \<open>apps\<close> directory.\<close>

definition skopeo_index_path ::
  "'z lib_scheme \<Rightarrow> app_store \<Rightarrow> app_ref \<Rightarrow> string \<Rightarrow> app_ref \<Rightarrow> path res" where
  "skopeo_index_path L s appRef enc imageRef =
     rbind (dg_encoded L (ar_digest imageRef)) (\<lambda>ienc.
       Ok (path_join (as_apps_root s)
         [ar_name appRef, enc, ''images'', ref_hostname L (ar_spec imageRef), ar_repo imageRef,
          ar_name imageRef, ienc, ''index.json'']))"

text \<open>
  Which file of the \<open>apps\<close> directory stands for a blob that is not in the blob directory, and
  whether its hash is checked; \<open>None\<close> is the default branch of the switch.
\<close>

definition skopeo_blob_path ::
  "'z lib_scheme \<Rightarrow> app_store \<Rightarrow> app_ref \<Rightarrow> blob_type \<Rightarrow> read_params \<Rightarrow> (path \<times> bool) option res" where
  "skopeo_blob_path L s appRef ty p =
     (case ty of
        BlobTypeAppManifest \<Rightarrow>
          rbind (dg_encoded L (ar_digest appRef)) (\<lambda>enc.
            Ok (Some (path_join (as_apps_root s) [ar_name appRef, enc, ''manifest.json''], True)))
      | BlobTypeAppBundle \<Rightarrow>
          rbind (dg_encoded L (ar_digest appRef)) (\<lambda>enc.
            rbind (dg_encoded L (rp_digest p)) (\<lambda>benc.
              Ok (Some (path_join (as_apps_root s) [ar_name appRef, enc, benc @ ''.tgz''], True))))
      | BlobTypeImageIndex \<Rightarrow>
          rbind (ParseAppRef L (rp_ref p)) (\<lambda>imageRef.
            rbind (dg_encoded L (ar_digest appRef)) (\<lambda>enc.
              rbind (skopeo_index_path L s appRef enc imageRef) (\<lambda>q. Ok (Some (q, False)))))
      | BlobTypeSkopeoImageIndex \<Rightarrow>
          rbind (ParseAppRef L (rp_ref p)) (\<lambda>imageRef.
            rbind (dg_encoded L (ar_digest appRef)) (\<lambda>enc.
              rbind (skopeo_index_path L s appRef enc imageRef) (\<lambda>q. Ok (Some (q, False)))))
      | _ \<Rightarrow> Ok None)"

definition appStore_GetReadCloser ::
  "('x, 'z) sys_scheme \<Rightarrow> 'x world \<Rightarrow> app_store \<Rightarrow> ctx \<Rightarrow> read_opt list \<Rightarrow> read_closer res" where
  "appStore_GetReadCloser X w s c opts =
     (let rc = localBlobProvider_GetReadCloser X w opts in
      if \<not> as_skopeo s then rc
      else (case rc of
        Fail err \<Rightarrow>
          (if \<not> errors_Is_NotFound err then rc
           else (case cx_app c of
             None \<Rightarrow> rc
           | Some appRef \<Rightarrow>
               (case cx_blob c of
                  None \<Rightarrow> rc
                | Some ty \<Rightarrow>
                    (let p = GetSecureReadParams opts in
                     rbind (skopeo_blob_path X s appRef ty p) (\<lambda>bp.
                       (case bp of
                          None \<Rightarrow> Fail err
                        | Some (blobPath, checkHash) \<Rightarrow>
                            rbind (os_open X (w_fs w) blobPath) (\<lambda>f.
                              if checkHash
                              then rbind (with_ref_digest X opts) (\<lambda>(_, newOpts).
                                     NewSecureReadCloser f newOpts)
                              else Ok (Plain f))))))))
      | _ \<Rightarrow> rc))"

definition appStore_provider :: "('x, 'z) sys_scheme \<Rightarrow> 'x world \<Rightarrow> app_store \<Rightarrow> provider" where
  "appStore_provider X w s =
     \<lparr>pv_type = BlobProviderTypeAppStore, pv_info = ls_info X w,
      pv_get = appStore_GetReadCloser X w s\<rparr>"

section \<open>The contract of a provider\<close>

text \<open>
  \<open>secure_get\<close>: a reader that a provider hands out, unless it was asked not to check, is a fresh
  secure reader; an expected digest, and an expected size with it, are the ones it checks.
\<close>

definition guards :: "read_closer \<Rightarrow> read_params \<Rightarrow> bool" where
  "guards rc p \<longleftrightarrow>
     (\<exists>r. rc = Secure r \<and> sr_inv r [] \<and>
        (rp_digest p \<noteq> '''' \<longrightarrow> rp_digest (sr_params r) = rp_digest p) \<and>
        (rp_digest p \<noteq> '''' \<longrightarrow> 0 < rp_size p \<longrightarrow> rp_size (sr_params r) = rp_size p) \<and>
        (0 < rp_limit p \<longrightarrow> rp_limit (sr_params r) = rp_limit p))"

lemma guards_read_to_end:
  assumes "guards rc p" and "read_all L bsz rc [] = Ok (b, None)" and "rp_digest p \<noteq> ''''"
  shows "dg_hash L b = rp_digest p \<and> (0 < rp_size p \<longrightarrow> int (length b) = rp_size p)"
proof -
  from assms(1,3) obtain r where r: "rc = Secure r" "sr_inv r []" "rp_digest (sr_params r) = rp_digest p"
    "0 < rp_size p \<longrightarrow> rp_size (sr_params r) = rp_size p"
    by (auto simp: guards_def)
  from read_all_secure_sound [OF assms(2) r(1,2)] r(3,4) show ?thesis by auto
qed

locale blob_provider =
  fixes get :: "read_opt list \<Rightarrow> read_closer res"
  assumes secure_get:
    "get opts = Ok rc \<Longrightarrow> \<not> rp_insecure (GetSecureReadParams opts) \<Longrightarrow>
       guards rc (GetSecureReadParams opts)"
begin

text \<open>What a client may conclude: bytes read to the end hash to the expected digest.\<close>

lemma read_to_end:
  assumes "get opts = Ok rc" and "\<not> rp_insecure (GetSecureReadParams opts)"
    and "read_all L bsz rc [] = Ok (b, None)" and "rp_digest (GetSecureReadParams opts) \<noteq> ''''"
  shows "dg_hash L b = rp_digest (GetSecureReadParams opts) \<and>
    (0 < rp_size (GetSecureReadParams opts) \<longrightarrow>
       int (length b) = rp_size (GetSecureReadParams opts))"
  by (rule guards_read_to_end [OF secure_get [OF assms(1,2)] assms(3,4)])

lemma read_within_limit:
  assumes "get opts = Ok rc" and "\<not> rp_insecure (GetSecureReadParams opts)"
    and "read_all L bsz rc [] = Ok (b, None)" and "0 < rp_limit (GetSecureReadParams opts)"
  shows "int (length b) \<le> rp_limit (GetSecureReadParams opts)"
proof -
  from secure_get [OF assms(1,2)] obtain r where r: "rc = Secure r" "sr_inv r []"
    "rp_limit (sr_params r) = rp_limit (GetSecureReadParams opts)"
    using assms(4) by (auto simp: guards_def)
  from read_all_secure_sound [OF assms(3) r(1,2)] r(3) assms(4) show ?thesis by auto
qed

end

text \<open>
  A strict provider checks what it delivers also when the caller asks not to: the local and the memory
  provider do not look at \<open>DisableSecureRead\<close>.
\<close>

locale strict_provider =
  fixes get :: "read_opt list \<Rightarrow> read_closer res"
  assumes always_secure: "get opts = Ok rc \<Longrightarrow> guards rc (GetSecureReadParams opts)"
begin

lemma read_to_end_always:
  assumes "get opts = Ok rc" and "read_all L bsz rc [] = Ok (b, None)"
    and "rp_digest (GetSecureReadParams opts) \<noteq> ''''"
  shows "dg_hash L b = rp_digest (GetSecureReadParams opts)"
  using guards_read_to_end [OF always_secure [OF assms(1)] assms(2,3)] by simp

end

sublocale strict_provider \<subseteq> blob_provider
  by unfold_locales (rule always_secure)

section \<open>The implementations keep the contract\<close>

lemma NewSecureReadCloser_guards:
  assumes "NewSecureReadCloser s opts' = Ok rc"
    and "rp_digest (GetSecureReadParams opts) \<noteq> '''' \<Longrightarrow>
         rp_digest (GetSecureReadParams opts') = rp_digest (GetSecureReadParams opts)"
    and "rp_digest (GetSecureReadParams opts) \<noteq> '''' \<Longrightarrow> 0 < rp_size (GetSecureReadParams opts) \<Longrightarrow>
         rp_size (GetSecureReadParams opts') = rp_size (GetSecureReadParams opts)"
    and "rp_limit (GetSecureReadParams opts') = rp_limit (GetSecureReadParams opts)"
  shows "guards rc (GetSecureReadParams opts)"
proof -
  from NewSecureReadCloser_OkD [OF assms(1)] obtain r where r: "rc = Secure r" "sr_inv r []"
    "effective_limit (GetSecureReadParams opts') = Ok (sr_params r)" by metis
  note e = effective_limit_params [OF r(3)]
  show ?thesis unfolding guards_def
    using r(1,2) e assms(2-4) by (intro exI [of _ r]) auto
qed

lemma with_ref_digest_params:
  assumes "with_ref_digest L opts = Ok (p, newOpts)"
  shows "rp_digest p = rp_digest (GetSecureReadParams newOpts)"
    and "rp_digest (GetSecureReadParams opts) \<noteq> '''' \<Longrightarrow> newOpts = opts"
    and "rp_size (GetSecureReadParams newOpts) = rp_size (GetSecureReadParams opts)"
    and "rp_limit (GetSecureReadParams newOpts) = rp_limit (GetSecureReadParams opts)"
    and "rp_insecure p = rp_insecure (GetSecureReadParams opts)"
  using assms
  by (auto simp: with_ref_digest_def Let_def rbind_iffs GetSecureReadParams_snoc split: if_splits)

text \<open>
  Options given later win: a digest or a size set by \<open>opts\<close> does not depend on what the
  options before them set.
\<close>

lemma fold_read_opt_indep:
  "rp_digest (fold apply_read_opt opts p) = rp_digest (fold apply_read_opt opts q) \<or>
     (rp_digest (fold apply_read_opt opts p) = rp_digest p \<and>
      rp_digest (fold apply_read_opt opts q) = rp_digest q)"
  "rp_size (fold apply_read_opt opts p) = rp_size (fold apply_read_opt opts q) \<or>
     (rp_size (fold apply_read_opt opts p) = rp_size p \<and>
      rp_size (fold apply_read_opt opts q) = rp_size q)"
  "rp_limit p = rp_limit q \<Longrightarrow>
     rp_limit (fold apply_read_opt opts p) = rp_limit (fold apply_read_opt opts q)"
proof (induction opts arbitrary: p q)
  case (Cons opt opts)
  {
    case 1
    show ?case by (cases opt)
      (use Cons(1) [of "apply_read_opt opt p" "apply_read_opt opt q"] in auto)
  next
    case 2
    show ?case by (cases opt)
      (use Cons(2) [of "apply_read_opt opt p" "apply_read_opt opt q"] in auto)
  next
    case 3
    then show ?case by (cases opt) (auto intro!: Cons(3))
  }
qed simp_all

lemma prepend_params:
  fixes d n opts
  defines "q \<equiv> GetSecureReadParams ([WithExpectedDigest d, WithExpectedSize n] @ opts)"
    and "p \<equiv> GetSecureReadParams opts"
  shows "rp_digest p \<noteq> '''' \<Longrightarrow> rp_digest q = rp_digest p"
    and "rp_size p \<noteq> 0 \<Longrightarrow> rp_size q = rp_size p"
    and "rp_limit q = rp_limit p"
proof -
  let ?z = "zero_params\<lparr>rp_digest := d, rp_size := n\<rparr>"
  have q: "q = fold apply_read_opt opts ?z"
    by (simp add: q_def GetSecureReadParams_def)
  have p: "p = fold apply_read_opt opts zero_params"
    by (simp add: p_def GetSecureReadParams_def)
  show "rp_digest p \<noteq> '''' \<Longrightarrow> rp_digest q = rp_digest p"
    using fold_read_opt_indep(1) [of opts ?z zero_params] by (auto simp: q p zero_params_def)
  show "rp_size p \<noteq> 0 \<Longrightarrow> rp_size q = rp_size p"
    using fold_read_opt_indep(2) [of opts ?z zero_params] by (auto simp: q p zero_params_def)
  show "rp_limit q = rp_limit p"
    using fold_read_opt_indep(3) [of ?z zero_params opts] by (auto simp: q p zero_params_def)
qed

interpretation store_provider: blob_provider "storeBlobProvider_GetReadCloser L fs root"
  for L :: "'z lib_scheme" and fs root
proof unfold_locales
  fix opts rc
  assume "storeBlobProvider_GetReadCloser L fs root opts = Ok rc"
    and "\<not> rp_insecure (GetSecureReadParams opts)"
  then obtain p newOpts f where w: "with_ref_digest L opts = Ok (p, newOpts)"
    and n: "NewSecureReadCloser f newOpts = Ok rc"
    by (auto simp: storeBlobProvider_GetReadCloser_def rbind_iffs dest: with_ref_digest_params(5)
        split: if_splits)
  show "guards rc (GetSecureReadParams opts)"
    by (rule NewSecureReadCloser_guards [OF n]) (simp_all add: with_ref_digest_params [OF w])
qed

interpretation local_provider: strict_provider "localBlobProvider_GetReadCloser X w"
  for X :: "('x, 'z) sys_scheme" and w
proof unfold_locales
  fix opts rc
  assume "localBlobProvider_GetReadCloser X w opts = Ok rc"
  then obtain p newOpts f where w: "with_ref_digest X opts = Ok (p, newOpts)"
    and n: "NewSecureReadCloser f newOpts = Ok rc"
    by (auto simp: localBlobProvider_GetReadCloser_def rbind_iffs)
  show "guards rc (GetSecureReadParams opts)"
    by (rule NewSecureReadCloser_guards [OF n]) (simp_all add: with_ref_digest_params [OF w])
qed

interpretation memory_provider: strict_provider "memoryBlobProvider_GetReadCloser L blobs"
  for L :: "'z lib_scheme" and blobs
proof unfold_locales
  fix opts rc
  assume "memoryBlobProvider_GetReadCloser L blobs opts = Ok rc"
  then obtain d b where n: "NewSecureReadCloser [(b, None)] (opts @ [WithExpectedDigest d]) = Ok rc"
    and d: "rp_digest (GetSecureReadParams opts) \<noteq> '''' \<Longrightarrow> d = rp_digest (GetSecureReadParams opts)"
    by (auto simp: memoryBlobProvider_GetReadCloser_def Let_def rbind_iffs
        split: if_splits option.splits)
  show "guards rc (GetSecureReadParams opts)"
    by (rule NewSecureReadCloser_guards [OF n]) (simp_all add: GetSecureReadParams_snoc d)
qed

interpretation remote_provider: blob_provider "remoteBlobProvider_GetReadCloser X w"
  for X :: "('x, 'z) sys_scheme" and w
proof unfold_locales
  fix opts rc
  assume "remoteBlobProvider_GetReadCloser X w opts = Ok rc"
    and "\<not> rp_insecure (GetSecureReadParams opts)"
  then have "getSecureReadCloser X w (GetSecureReadParams opts) opts = Ok rc"
    by (auto simp: remoteBlobProvider_GetReadCloser_def Let_def split: if_splits)
  then obtain d :: descriptor and sr where n: "NewSecureReadCloser sr
      ([WithExpectedDigest (d_digest d), WithExpectedSize (d_size d)] @ opts) = Ok rc"
    by (auto simp: getSecureReadCloser_def rbind_iffs split: option.splits)
  show "guards rc (GetSecureReadParams opts)"
    by (rule NewSecureReadCloser_guards [OF n]) (use prepend_params in auto)
qed

text \<open>
  The app store keeps it for every kind of blob but the image indexes that skopeo stores
  below the \<open>apps\<close> directory, whose hash is not checked.
\<close>

lemma appStore_GetReadCloser_cases:
  assumes "appStore_GetReadCloser X w s c opts = Ok rc"
  shows "localBlobProvider_GetReadCloser X w opts = Ok rc \<or>
    (\<exists>f p newOpts. with_ref_digest X opts = Ok (p, newOpts) \<and> NewSecureReadCloser f newOpts = Ok rc) \<or>
    (as_skopeo s \<and> cx_app c \<noteq> None \<and> (cx_blob c = Some BlobTypeImageIndex \<or> cx_blob c = Some BlobTypeSkopeoImageIndex))"
  using assms
  by (auto simp: appStore_GetReadCloser_def skopeo_blob_path_def Let_def rbind_iffs
      split: if_splits res.splits option.splits blob_type.splits)

lemma appStore_guards:
  assumes "appStore_GetReadCloser X w s c opts = Ok rc"
    and "cx_blob c \<notin> {Some BlobTypeImageIndex, Some BlobTypeSkopeoImageIndex}"
    and "\<not> rp_insecure (GetSecureReadParams opts)"
  shows "guards rc (GetSecureReadParams opts)"
  using appStore_GetReadCloser_cases [OF assms(1)] assms(2)
proof (elim disjE)
  assume "localBlobProvider_GetReadCloser X w opts = Ok rc"
  from local_provider.secure_get [OF this assms(3)] show ?thesis .
next
  assume "\<exists>f p newOpts. with_ref_digest X opts = Ok (p, newOpts) \<and> NewSecureReadCloser f newOpts = Ok rc"
  then obtain f p newOpts where w: "with_ref_digest X opts = Ok (p, newOpts)"
    and n: "NewSecureReadCloser f newOpts = Ok rc" by blast
  show ?thesis
    by (rule NewSecureReadCloser_guards [OF n]) (simp_all add: with_ref_digest_params [OF w])
qed auto

end
