(* ===== verification/BlobOps.thy ===== *)
theory BlobOps
  imports Provider
begin

text \<open>
  Reading, checking and copying blobs: \<open>ReadBlob\<close>, \<open>ReadBlobWithResolving\<close> and
  \<open>ReadBlobWithReadLimit\<close> of \<open>pkg/compose/reader.go\<close>, \<open>CheckBlob\<close> and \<open>CopyBlob\<close> of
  \<open>pkg/compose/blob.go\<close>.  The readers are clients of the provider contract; \<open>CopyBlob\<close> has a
  loop whose end depends on the content store, so it is a partial function whose value
  \<open>None\<close> stands for not returning.
\<close>

section \<open>Reading a whole blob\<close>

definition ReadBlob ::
  "'z lib_scheme \<Rightarrow> provider \<Rightarrow> ctx \<Rightarrow> string \<Rightarrow> digest \<Rightarrow> int \<Rightarrow> bytes res" where
  "ReadBlob L pv c ref dgst sz =
     (if sz \<le> 0 then Fail (Err (''invalid blob size specified: '' @ show_int sz))
      else rbind (pv_get pv c [WithRef ref, WithExpectedDigest dgst, WithExpectedSize sz])
             (io_ReadAll L))"

definition ReadBlobWithResolving ::
  "'z lib_scheme \<Rightarrow> provider \<Rightarrow> ctx \<Rightarrow> string \<Rightarrow> int \<Rightarrow> bytes res" where
  "ReadBlobWithResolving L pv c ref sz =
     (if sz \<le> 0 then Fail (Err (''invalid blob size specified: '' @ show_int sz))
      else rbind (pv_get pv c [WithRef ref, WithExpectedSize sz]) (io_ReadAll L))"

definition ReadBlobWithReadLimit ::
  "'z lib_scheme \<Rightarrow> provider \<Rightarrow> ctx \<Rightarrow> string \<Rightarrow> int \<Rightarrow> bytes res" where
  "ReadBlobWithReadLimit L pv c ref limit =
     (if limit \<le> 0 then Fail (Err (''invalid read limit is specified: '' @ show_int limit))
      else rbind (pv_get pv c [WithRef ref, WithReadLimit limit]) (io_ReadAll L))"

section \<open>Checking a blob\<close>

text \<open>
  \<open>io.Copy\<close> into \<open>io.Discard\<close> reads through a buffer of 8192 bytes.  The second component is the
  error that \<open>CheckBlob\<close> returns beside the state.
\<close>

definition discard_all :: "'z lib_scheme \<Rightarrow> read_closer \<Rightarrow> error option res" where
  "discard_all L r = rbind (read_all L (\<lambda>_. 8191) r []) (\<lambda>(_, e). Ok e)"

definition CheckBlob ::
  "'z lib_scheme \<Rightarrow> provider \<Rightarrow> ctx \<Rightarrow> digest \<Rightarrow> read_opt list \<Rightarrow> (blob_state \<times> error option) res" where
  "CheckBlob L pv c dgst opts =
     (let params = GetSecureReadParams opts in
      rbind (if rp_digest params = ''''
             then rcatch (pv_info pv dgst)
                    (\<lambda>n. Ok (if n \<noteq> rp_size params
                             then Some (ErrBlobSizeMismatch (rp_size params) n) else None))
                    (\<lambda>e. Ok (Some e))
             else rcatch (pv_get pv c opts) (discard_all L) (\<lambda>e. Ok (Some e)))
        (\<lambda>checkErr.
           let state = ErrToBlobState checkErr in
           Ok (state, if state \<noteq> BlobStateUndefined then None else checkErr)))"

section \<open>Copying a blob into the store\<close>

text \<open>
  The loop that opens a writer.  With \<open>force\<close>, a blob that the store has already is deleted and
  the writer is opened again; when the deletion fails the error of the opening is returned.
\<close>

partial_function (option) CopyBlob_open ::
  "('x, 'z) sys_scheme \<Rightarrow> 'x world \<Rightarrow> string \<Rightarrow> descriptor \<Rightarrow> bool \<Rightarrow> ('x world \<times> error option) option"
where
  "CopyBlob_open X w ref desc force =
     (case ls_open_writer X w ref desc of
        (w1, None) \<Rightarrow> Some (w1, None)
      | (w1, Some e) \<Rightarrow>
          if force \<and> errors_Is_AlreadyExists e
          then (case ls_delete X w1 (d_digest desc) of
                  (w2, None) \<Rightarrow> CopyBlob_open X w2 ref desc force
                | (w2, Some _) \<Rightarrow> Some (w2, Some e))
          else Some (w1, Some (Wrap ''failed to open writer'' e)))"

definition CopyBlob ::
  "('x, 'z) sys_scheme \<Rightarrow> 'x world \<Rightarrow> read_closer \<Rightarrow> string \<Rightarrow> descriptor \<Rightarrow> bool \<Rightarrow>
   ('x world \<times> error option) option" where
  "CopyBlob X w r ref desc force =
     (case CopyBlob_open X w ref desc force of
        None \<Rightarrow> None
      | Some (w1, Some e) \<Rightarrow> Some (w1, Some e)
      | Some (w1, None) \<Rightarrow> Some (ls_copy X w1 ref desc r))"

declare CopyBlob_open.simps [code, simp del]

section \<open>What is read is a prefix of the source\<close>

lemma src_read_content: "src_read k s = (p, e, s') \<Longrightarrow> src_content s = p @ src_content s'"
  by (cases "(k, s)" rule: src_read.cases) (auto simp: src_content_def split: if_splits)

lemma limited_read_content:
  "limited_read k l = (p, e, l') \<Longrightarrow> src_content (lr_src l) = p @ src_content (lr_src l')"
  by (auto simp: limited_read_def Let_def split: if_splits prod.splits dest: src_read_content)

lemma rc_read_content:
  assumes "rc_read L k rc = Ok (p, e, rc')"
  shows "src_content (rc_src rc) = p @ src_content (rc_src rc')"
  using assms
  by (cases rc) (auto simp: rc_read_def rbind_iffs secure_read_def Let_def
      split: prod.splits if_splits dest: src_read_content limited_read_content)

lemma read_all_content:
  "read_all L bsz rc acc = Ok (b, e) \<Longrightarrow> prefix b (acc @ src_content (rc_src rc))"
proof (induction L bsz rc acc rule: read_all.induct)
  case (1 L bsz rc acc)
  let ?k = "Suc (bsz (length acc))"
  from "1.prems" obtain p x rc' where rd: "rc_read L ?k rc = Ok (p, x, rc')"
    by (subst (asm) read_all.simps) (auto split: res.splits)
  note cont = rc_read_content [OF rd]
  show ?case
  proof (cases x)
    case None
    with rd "1.prems" have "read_all L bsz rc' (acc @ p) = Ok (b, e)"
      by (subst (asm) read_all.simps) simp
    from "1.IH" [OF rd refl refl None this] cont show ?thesis by simp
  next
    case (Some y)
    with rd "1.prems" have "b = acc @ p"
      by (subst (asm) read_all.simps) (simp split: if_splits)
    with cont show ?thesis by simp
  qed
qed

lemma io_ReadAll_E:
  assumes "rbind r (io_ReadAll L) = Ok b"
  obtains rc where "r = Ok rc" "read_all L (io_bufsz L) rc [] = Ok (b, None)"
  using assms by (auto simp: rbind_iffs io_ReadAll_def split: option.splits)

section \<open>Clients of the provider contract\<close>

context blob_provider
begin

lemma io_ReadAll_to_end:
  assumes "rbind (get opts) (io_ReadAll L) = Ok b"
    and "\<not> rp_insecure (GetSecureReadParams opts)" and "rp_digest (GetSecureReadParams opts) \<noteq> ''''"
  shows "dg_hash L b = rp_digest (GetSecureReadParams opts) \<and>
    (0 < rp_size (GetSecureReadParams opts) \<longrightarrow>
       int (length b) = rp_size (GetSecureReadParams opts))"
  using io_ReadAll_E [OF assms(1)] read_to_end assms(2,3) by metis

lemma io_ReadAll_within_limit:
  assumes "rbind (get opts) (io_ReadAll L) = Ok b"
    and "\<not> rp_insecure (GetSecureReadParams opts)" and "0 < rp_limit (GetSecureReadParams opts)"
  shows "int (length b) \<le> rp_limit (GetSecureReadParams opts)"
  using io_ReadAll_E [OF assms(1)] read_within_limit assms(2,3) by metis

lemma discard_all_sound:
  assumes "get opts = Ok rc" and "discard_all L rc = Ok None"
    and "\<not> rp_insecure (GetSecureReadParams opts)" and "rp_digest (GetSecureReadParams opts) \<noteq> ''''"
  shows "\<exists>b. prefix b (src_content (rc_src rc)) \<and> dg_hash L b = rp_digest (GetSecureReadParams opts) \<and>
    (0 < rp_size (GetSecureReadParams opts) \<longrightarrow> int (length b) = rp_size (GetSecureReadParams opts))"
proof -
  from assms(2) obtain b where b: "read_all L (\<lambda>_. 8191) rc [] = Ok (b, None)"
    by (auto simp: discard_all_def rbind_iffs)
  with read_to_end [OF assms(1,3) b assms(4)] read_all_content [OF b] show ?thesis by auto
qed

end

text \<open>The parameters of the three readers.\<close>

lemma reader_params [simp]:
  "GetSecureReadParams [WithRef r, WithExpectedDigest d, WithExpectedSize n] =
     zero_params\<lparr>rp_ref := r, rp_digest := d, rp_size := n\<rparr>"
  "GetSecureReadParams [WithRef r, WithExpectedSize n] = zero_params\<lparr>rp_ref := r, rp_size := n\<rparr>"
  "GetSecureReadParams [WithRef r, WithReadLimit l] = zero_params\<lparr>rp_ref := r, rp_limit := l\<rparr>"
  "GetSecureReadParams [WithExpectedDigest d, WithExpectedSize n] =
     zero_params\<lparr>rp_digest := d, rp_size := n\<rparr>"
  "GetSecureReadParams [WithExpectedDigest d, WithReadLimit l] =
     zero_params\<lparr>rp_digest := d, rp_limit := l\<rparr>"
  by (simp_all add: GetSecureReadParams_def)

lemma zero_params_simps [simp]:
  "rp_ref zero_params = ''''" "rp_digest zero_params = ''''" "rp_size zero_params = 0"
  "rp_limit zero_params = 0" "rp_insecure zero_params = False" "rp_desc zero_params = zero_desc"
  by (simp_all add: zero_params_def)

section \<open>CopyBlob\<close>

text \<open>
  What containerd documents of its store, as far as the loop relies on it: a blob that was just
  deleted is no reason to refuse a writer.
\<close>

definition delete_clears :: "('x, 'z) sys_scheme \<Rightarrow> descriptor \<Rightarrow> bool" where
  "delete_clears X desc \<longleftrightarrow>
     (\<forall>w ref w1 w2 e. ls_delete X w (d_digest desc) = (w1, None) \<longrightarrow>
        ls_open_writer X w1 ref desc = (w2, Some e) \<longrightarrow> \<not> errors_Is_AlreadyExists e)"

lemma CopyBlob_open_once:
  assumes "\<And>w1 e. ls_open_writer X w ref desc = (w1, Some e) \<Longrightarrow> \<not> errors_Is_AlreadyExists e"
  shows "CopyBlob_open X w ref desc force \<noteq> None"
  using assms
  by (subst CopyBlob_open.simps) (auto split: prod.splits option.splits)

lemma CopyBlob_open_returns:
  assumes "delete_clears X desc"
  shows "CopyBlob_open X w ref desc force \<noteq> None"
proof -
  have "CopyBlob_open X w2 ref desc force \<noteq> None"
    if "ls_delete X w1 (d_digest desc) = (w2, None)" for w1 w2
    using assms that by (intro CopyBlob_open_once) (auto simp: delete_clears_def)
  then show ?thesis
    by (subst CopyBlob_open.simps) (auto split: prod.splits option.splits)
qed

lemma CopyBlob_returns_helper:
  assumes "delete_clears X desc"
  shows "CopyBlob X w r ref desc force \<noteq> None"
  using CopyBlob_open_returns [OF assms, of w ref force]
  by (auto simp: CopyBlob_def split: option.splits prod.splits)

text \<open>A writer that could not be opened leaves the content untouched: no copy is made.\<close>

lemma CopyBlob_not_forced:
  assumes "ls_open_writer X w ref desc = (w1, Some e)"
  shows "CopyBlob X w r ref desc False = Some (w1, Some (Wrap ''failed to open writer'' e))"
  using assms by (simp add: CopyBlob_def CopyBlob_open.simps)

end
