(* ===== verification/StatFS.thy ===== *)
theory StatFS
  imports Prelude
begin

text \<open>
  Sizes on disk, \<open>pkg/compose/statfs.go\<close>: rounding to the block size on \<open>int64\<close>, and the usage
  of a file system on \<open>uint64\<close>, whose floating point steps are a parameter.
\<close>

definition AlignToBlockSize :: "int \<Rightarrow> int \<Rightarrow> int res" where
  "AlignToBlockSize value blockSize =
     rbind (go_mod value blockSize) (\<lambda>r.
       Ok (if 0 < r then i64 (value + i64 (blockSize - r)) else value))"

text \<open>Truncating remainder by a positive block size, for either sign of the value.\<close>

lemma smod_pos:
  assumes "0 < b"
  shows "0 \<le> (v::int) \<Longrightarrow> v smod b = v mod b" and "v \<le> 0 \<Longrightarrow> v smod b \<le> 0"
proof -
  show "0 \<le> v \<Longrightarrow> v smod b = v mod b"
    using assms by (cases "v = 0") (simp_all add: signed_modulo_int_def sgn_if)
  show "v \<le> 0 \<Longrightarrow> v smod b \<le> 0"
    using assms by (cases "v = 0") (simp_all add: signed_modulo_int_def sgn_if mult_le_0_iff)
qed

lemma next_multiple:
  assumes "0 < (b::int)" and "v mod b \<noteq> 0"
  shows "b dvd v + (b - v mod b)" and "\<And>m. b dvd m \<Longrightarrow> v \<le> m \<Longrightarrow> v + (b - v mod b) \<le> m"
proof -
  have q: "v + (b - v mod b) = b * (v div b + 1)"
    by (simp add: algebra_simps minus_mod_eq_mult_div [symmetric])
  then show "b dvd v + (b - v mod b)" by simp
  fix m assume "b dvd m" "v \<le> m"
  then obtain k where m: "m = b * k" by (elim dvdE)
  have "v div b < k"
  proof (rule ccontr)
    assume "\<not> v div b < k"
    then have "b * k \<le> b * (v div b)" using assms(1) by simp
    also have "\<dots> = v - v mod b" by (simp add: minus_mod_eq_mult_div)
    also have "\<dots> < v" using assms by (simp add: order_less_le)
    finally show False using \<open>v \<le> m\<close> m by simp
  qed
  then have "b * (v div b + 1) \<le> b * k" using assms(1) by simp
  then show "v + (b - v mod b) \<le> m" using q m by simp
qed

lemma AlignToBlockSize_pos:
  assumes "0 < b" and "0 \<le> v" and "v + b \<le> 2 ^ 63 - 1"
  shows "AlignToBlockSize v b = Ok (if v mod b = 0 then v else v + (b - v mod b))"
proof -
  have m: "0 \<le> v mod b" "v mod b < b" using assms(1) by simp_all
  have "v mod b \<le> v" using assms(1,2) by (intro zmod_le_nonneg_dividend)
  with m assms have "in_i64 (b - v mod b)" "in_i64 (v + (b - v mod b))"
    by (simp_all add: in_i64_def, linarith+)
  moreover have "0 < v mod b \<longleftrightarrow> v mod b \<noteq> 0" using m(1) by linarith
  ultimately show ?thesis
    using assms by (simp add: AlignToBlockSize_def go_mod_def smod_pos i64_id)
qed

lemma AlignToBlockSize_nonpos:
  "0 < b \<Longrightarrow> v \<le> 0 \<Longrightarrow> AlignToBlockSize v b = Ok v"
  using smod_pos(2) [of b v] by (auto simp: AlignToBlockSize_def go_mod_def)

section \<open>The usage of a file system\<close>

text \<open>
  \<open>GetUsageInfo\<close> on \<open>uint64\<close>: \<open>stat\<close> is \<open>syscall.Statfs\<close>, \<open>reserve\<close> the floating point product of a
  percentage and a size; the fields that are percentages, which are only printed, are left out.
\<close>

record statfs =
  sfs_block :: int
  sfs_blocks :: int
  sfs_bfree :: int

record usage_info =
  ui_size :: int
  ui_free :: int
  ui_reserved :: int
  ui_available :: int
  ui_required :: int

definition u64 :: "int \<Rightarrow> int" where
  "u64 x = x mod 2 ^ 64"

definition GetUsageInfo :: "statfs res \<Rightarrow> (int \<Rightarrow> int \<Rightarrow> int) \<Rightarrow> int \<Rightarrow> int \<Rightarrow> usage_info res" where
  "GetUsageInfo stat reserve required watermark =
     rbind stat (\<lambda>st.
       let size = u64 (u64 (sfs_block st) * sfs_blocks st);
           free = u64 (sfs_bfree st * u64 (sfs_block st));
           reserved = reserve (u64 (100 - watermark)) size
       in Ok \<lparr>ui_size = size, ui_free = free, ui_reserved = reserved,
              ui_available = (if reserved < free then free - reserved else 0),
              ui_required = u64 required\<rparr>)"

lemma u64_nonneg: "0 \<le> u64 x"
  by (simp add: u64_def)

text \<open>What is available is never more than what is free, and leaves what is reserved.\<close>

lemma GetUsageInfo_available:
  assumes "GetUsageInfo stat reserve required watermark = Ok ui" and "0 \<le> ui_reserved ui"
  shows "0 \<le> ui_available ui \<and> ui_available ui \<le> ui_free ui \<and>
    (0 < ui_available ui \<longrightarrow> ui_available ui + ui_reserved ui = ui_free ui)"
proof -
  from assms(1) obtain free reserved where "ui_free ui = u64 free" "ui_reserved ui = reserved"
    "ui_available ui = (if reserved < u64 free then u64 free - reserved else 0)"
    by (auto simp: GetUsageInfo_def rbind_Ok_iff Let_def)
  with assms(2) u64_nonneg [of free] show ?thesis by auto
qed

end
