(* ===== verification/Config.thy ===== *)
theory Config
  imports BlobOps StatFS
begin

text \<open>
  The configuration (\<open>pkg/compose/config.go\<close>) and its defaults (\<open>pkg/compose/v1/config.go\<close>).
  The environment of the process is a record of what the source asks it for.
\<close>

record proxy_config =
  px_scheme :: string
  px_host :: string
  px_certs :: "bytes option"

record config =
  cf_store_root :: path
  cf_compose_root :: path
  cf_docker_host :: string
  cf_platform :: platform
  cf_connect_timeout :: int
  cf_read_timeout :: int
  cf_skopeo :: bool
  cf_block_size :: int
  cf_db_file :: path
  cf_proxy :: "proxy_config option"

definition GetAppComposeDir :: "config \<Rightarrow> string \<Rightarrow> path" where
  "GetAppComposeDir c appName = path_join (cf_compose_root c) [appName]"

definition GetBlobsRoot :: "config \<Rightarrow> path" where
  "GetBlobsRoot c = GetBlobsRootFor (cf_store_root c)"

text \<open>The factory that \<open>NewDefaultConfig\<close> installs.\<close>

definition AppStoreFactory :: "('x, 'z) sys_scheme \<Rightarrow> config \<Rightarrow> app_store res" where
  "AppStoreFactory X c = NewAppStore X (cf_store_root c) (cf_platform c) [cf_skopeo c]"

section \<open>Defaults\<close>

record config_opts =
  co_store_root :: path
  co_compose_root :: path
  co_connect_timeout :: int
  co_read_timeout :: int
  co_skopeo :: bool
  co_db_path :: path
  co_proxy :: "proxy_config option"

datatype config_opt =
    WithUpdateDB path
  | WithSkopeoSupport bool
  | WithStoreRoot path
  | WithComposeRoot path
  | WithConnectTimeout int
  | WithProxy "proxy_config option"

fun apply_config_opt :: "config_opt \<Rightarrow> config_opts \<Rightarrow> config_opts" where
  "apply_config_opt (WithUpdateDB p) o' = o'\<lparr>co_db_path := p\<rparr>"
| "apply_config_opt (WithSkopeoSupport b) o' = o'\<lparr>co_skopeo := b\<rparr>"
| "apply_config_opt (WithStoreRoot p) o' = o'\<lparr>co_store_root := p\<rparr>"
| "apply_config_opt (WithComposeRoot p) o' = o'\<lparr>co_compose_root := p\<rparr>"
| "apply_config_opt (WithConnectTimeout t) o' = o'\<lparr>co_connect_timeout := t\<rparr>"
| "apply_config_opt (WithProxy p) o' = o'\<lparr>co_proxy := p\<rparr>"

text \<open>
  What the process environment answers; \<open>parse_uri\<close> is \<open>url.ParseRequestURI\<close> (scheme and host),
  \<open>pem_ok\<close> whether a file holds certificates, \<open>load_docker_cfg\<close> the error of reading the Docker
  configuration.
\<close>

record proc_env =
  en_home :: "path res"
  en_cwd :: "path res"
  en_getenv :: "string \<Rightarrow> string"
  en_path :: "string \<Rightarrow> path"
  en_statfs_bsize :: "path \<Rightarrow> int res"
  en_platform :: platform
  parse_uri :: "string \<Rightarrow> (string \<times> string) res"
  pem_ok :: "bytes \<Rightarrow> bool"
  load_docker_cfg :: "error option"

definition getProxyProviderFromEnvIfSet ::
  "'z lib_scheme \<Rightarrow> 'e proc_env_scheme \<Rightarrow> fs \<Rightarrow> proxy_config option res" where
  "getProxyProviderFromEnvIfSet L E fs =
     (let proxyEnv = en_getenv E ''COMPOSE_APPS_PROXY'' in
      if proxyEnv = '''' then Ok None
      else rcatch (parse_uri E proxyEnv)
        (\<lambda>(scheme, host).
          if scheme \<noteq> ''http'' \<and> scheme \<noteq> ''https''
          then Fail (Err (''unsupported COMPOSE_APPS_PROXY URL scheme: '' @ proxyEnv))
          else if host = '''' then Fail (Err (''missing host in COMPOSE_APPS_PROXY URL: '' @ proxyEnv))
          else
            (let proxyCa = en_getenv E ''COMPOSE_APPS_PROXY_CA'' in
             if proxyCa \<noteq> '''' then
               rcatch (os_read_file L fs (en_path E proxyCa))
                 (\<lambda>b. if \<not> pem_ok E b
                      then Fail (Err (''failed to parse COMPOSE_APPS_PROXY_CA: '' @ proxyCa))
                      else Ok (Some \<lparr>px_scheme = scheme, px_host = host, px_certs = Some b\<rparr>))
                 (\<lambda>e. Fail (Wrap ''unable to read COMPOSE_APPS_PROXY_CA'' e))
             else Ok (Some \<lparr>px_scheme = scheme, px_host = host, px_certs = None\<rparr>)))
        (\<lambda>e. Fail (Wrap (''invalid COMPOSE_APPS_PROXY URL: '' @ proxyEnv) e)))"

text \<open>The two directories are created when they are missing.\<close>

definition ensure_dir :: "'z lib_scheme \<Rightarrow> string \<Rightarrow> path \<Rightarrow> fs \<Rightarrow> fs \<times> error option" where
  "ensure_dir L what p fs =
     (case os_stat L fs p of
        Fail e \<Rightarrow>
          (if os_IsNotExist e
           then (case os_mkdir_all L fs p of
                   (fs', None) \<Rightarrow> (fs', None)
                 | (fs', Some e') \<Rightarrow>
                     (fs', Some (Err (''failed to create '' @ what @ '' root directory: '' @ err_msg e'))))
           else (fs, None))
      | _ \<Rightarrow> (fs, None))"

definition default_opts :: config_opts where
  "default_opts = \<lparr>co_store_root = [], co_compose_root = [], co_connect_timeout = 120 * 10 ^ 9,
     co_read_timeout = 900 * 10 ^ 9, co_skopeo = False, co_db_path = [], co_proxy = None\<rparr>"

definition NewDefaultConfig ::
  "'z lib_scheme \<Rightarrow> 'e proc_env_scheme \<Rightarrow> fs \<Rightarrow> config_opt list \<Rightarrow> fs \<times> config res" where
  "NewDefaultConfig L E fs options =
     (let opts = fold apply_config_opt options default_opts in
      case (if co_store_root opts = [] \<or> co_compose_root opts = []
            then rcatch (en_home E) Ok (\<lambda>_.
                   rcatch (en_cwd E) Ok (\<lambda>e.
                     Fail (Err (''failed to get the user's home and current working directory: '' @ err_msg e))))
            else Ok []) of
        Fail e \<Rightarrow> (fs, Fail e)
      | Panic m \<Rightarrow> (fs, Panic m)
      | Ok homeDir \<Rightarrow>
          (let store = (if co_store_root opts = [] then path_join homeDir [''.composeapps'', ''store'']
                        else co_store_root opts);
               projects = (if co_compose_root opts = [] then path_join homeDir [''.composeapps'', ''projects'']
                           else co_compose_root opts);
               db = (if co_db_path opts = [] then path_join store [''updates.db''] else co_db_path opts)
           in case ensure_dir L ''app store'' store fs of
                (fs1, Some e) \<Rightarrow> (fs1, Fail e)
              | (fs1, None) \<Rightarrow>
                  (case ensure_dir L ''app compose'' projects fs1 of
                     (fs2, Some e) \<Rightarrow> (fs2, Fail e)
                   | (fs2, None) \<Rightarrow>
                       (fs2,
                        rcatch (en_statfs_bsize E (butlast store))
                          (\<lambda>bs.
                            rbind (getProxyProviderFromEnvIfSet L E fs2) (\<lambda>proxyFromEnv.
                              (case load_docker_cfg E of
                                 Some e \<Rightarrow> Fail (Err (''failed to load docker configuration: '' @ err_msg e))
                               | None \<Rightarrow>
                                   Ok \<lparr>cf_store_root = store, cf_compose_root = projects,
                                       cf_docker_host = '''', cf_platform = en_platform E,
                                       cf_connect_timeout = co_connect_timeout opts,
                                       cf_read_timeout = co_read_timeout opts,
                                       cf_skopeo = co_skopeo opts, cf_block_size = bs, cf_db_file = db,
                                       cf_proxy = (case proxyFromEnv of
                                                     Some p \<Rightarrow> Some p
                                                   | None \<Rightarrow> co_proxy opts)\<rparr>)))
                          (\<lambda>e. Fail (Err (''failed to get file system stat; path: '' @ path_str store @
                                 '', err: '' @ err_msg e)))))))"

section \<open>What a configuration that was built guarantees\<close>

lemma proxy_from_env_set:
  assumes "getProxyProviderFromEnvIfSet L E fs = Ok p"
  shows "(p = None \<longleftrightarrow> en_getenv E ''COMPOSE_APPS_PROXY'' = '''') \<and>
    (\<forall>q. p = Some q \<longrightarrow> px_scheme q \<in> {''http'', ''https''} \<and> px_host q \<noteq> '''')"
  using assms
  by (auto simp: getProxyProviderFromEnvIfSet_def Let_def rcatch_iffs split: if_splits prod.splits)

lemma ensure_dir_exists:
  assumes "ensure_dir L what p fs = (fs', None)" and "io_fault L ''stat'' p = None" and "p \<noteq> []"
  shows "gm_has fs' p"
  using assms
  by (auto simp: ensure_dir_def os_stat_def os_mkdir_all_def map_of_mkdirs gm_has_def
      no_such_file_def os_IsNotExist_def
      split: option.splits if_splits prod.splits)

end
