(* ===== verification/Fetch.thy ===== *)
theory Fetch
  imports Config
begin

text \<open>
  Fetching blobs, \<open>pkg/compose/fetch.go\<close>: the progress record with its accounting, the order
  in which blobs are fetched, the loop that fetches them, the polling of the store that runs
  beside it, and the monitor of the read speed.

  The polling goroutine only reads the store and writes the progress record; the loop writes
  the store and never reads the record (the order is computed before it starts).  So the two
  are modelled apart: \<open>FetchBlobs\<close> is the loop, and \<open>checkAndUpdateBlobStatus\<close> takes, for each blob,
  the worlds in which the store is asked, which covers every interleaving with the loop.
\<close>

section \<open>Progress records\<close>

record blob_fetch =
  bf_info :: blob_info
  bf_fetched :: int
  bf_start :: int
  bf_read :: int
  bf_read_time :: int
  bf_avg :: int
  bf_cur :: int

record fetch_progress =
  fp_blobs :: "(digest, blob_fetch) gomap"
  fp_count :: int
  fp_current :: int
  fp_total :: int

definition bf_Ref :: "blob_fetch \<Rightarrow> string" where
  "bf_Ref b = BlobInfo_Ref (bf_info b)"

definition bf_state :: "blob_fetch \<Rightarrow> blob_state" where
  "bf_state b = bi_state (bf_info b)"

definition bf_set_state :: "blob_state \<Rightarrow> blob_fetch \<Rightarrow> blob_fetch" where
  "bf_set_state s b = b\<lparr>bf_info := (bf_info b)\<lparr>bi_state := s\<rparr>\<rparr>"

definition new_blob_fetch :: "blob_info \<Rightarrow> blob_fetch" where
  "new_blob_fetch bi = \<lparr>bf_info = bi, bf_fetched = bi_bytes_fetched bi, bf_start = 0, bf_read = 0,
     bf_read_time = 0, bf_avg = 0, bf_cur = 0\<rparr>"

text \<open>The loop of \<open>FetchBlobs\<close> that fills the record.\<close>

definition start_progress_step :: "digest \<times> blob_info \<Rightarrow> fetch_progress \<Rightarrow> fetch_progress" where
  "start_progress_step e fp =
     (case e of (d, blob) \<Rightarrow>
        let left = i64 (d_size (bi_desc blob) - bi_bytes_fetched blob);
            fp1 = fp\<lparr>fp_total := i64 (fp_total fp + left),
                     fp_blobs := gm_put d (new_blob_fetch blob) (fp_blobs fp)\<rparr>
        in if bi_state blob = BlobOk
           then fp1\<lparr>fp_count := i64 (fp_count fp1 + 1),
                    fp_current := i64 (fp_current fp1 + left),
                    fp_blobs := gm_put d ((new_blob_fetch blob)\<lparr>bf_fetched := d_size (bi_desc blob)\<rparr>)
                                  (fp_blobs fp1)\<rparr>
           else fp1)"

definition start_progress :: "(digest, blob_info) gomap \<Rightarrow> fetch_progress" where
  "start_progress blobs =
     fold start_progress_step blobs \<lparr>fp_blobs = [], fp_count = 0, fp_current = 0, fp_total = 0\<rparr>"

section \<open>Polling the store\<close>

text \<open>
  One blob of one poll: \<open>ws\<close> is the world when the status of its ingestion is asked, \<open>wi\<close> the
  (later) world when the store is asked for the blob itself.
\<close>

definition update_blob_status ::
  "('x, 'z) sys_scheme \<Rightarrow> 'x world \<times> 'x world \<Rightarrow> digest \<Rightarrow> fetch_progress \<Rightarrow> fetch_progress" where
  "update_blob_status X obs d fp =
     (case map_of (fp_blobs fp) d of
        None \<Rightarrow> fp
      | Some b \<Rightarrow>
          if bf_state b = BlobOk then fp
          else (case ls_status X (fst obs) (bf_Ref b) of
                  Ok off \<Rightarrow>
                    fp\<lparr>fp_current := i64 (fp_current fp + i64 (off - bf_fetched b)),
                       fp_blobs := gm_put d (bf_set_state BlobFetching (b\<lparr>bf_fetched := off\<rparr>)) (fp_blobs fp)\<rparr>
                | Fail err \<Rightarrow>
                    (if errors_Is_NotFound err
                     then (case ls_info X (snd obs) (d_digest (bi_desc (bf_info b))) of
                             Ok n \<Rightarrow>
                               fp\<lparr>fp_current := i64 (fp_current fp + i64 (n - bf_fetched b)),
                                  fp_blobs := gm_put d (bf_set_state BlobOk (b\<lparr>bf_fetched := n\<rparr>)) (fp_blobs fp),
                                  fp_count := i64 (fp_count fp + 1)\<rparr>
                           | _ \<Rightarrow> fp)
                     else fp)
                | Panic m \<Rightarrow> fp))"

definition checkAndUpdateBlobStatus ::
  "('x, 'z) sys_scheme \<Rightarrow> (digest \<Rightarrow> 'x world \<times> 'x world) \<Rightarrow> fetch_progress \<Rightarrow> fetch_progress" where
  "checkAndUpdateBlobStatus X obs fp =
     fold (\<lambda>d. update_blob_status X (obs d) d) (map fst (fp_blobs fp)) fp"

section \<open>The order of fetching\<close>

definition isData :: "blob_fetch \<Rightarrow> bool" where
  "isData b \<longleftrightarrow> bi_type (bf_info b) = BlobTypeImageLayer"

definition getOrderedBlobsToFetch :: "(digest, blob_fetch) gomap \<Rightarrow> blob_fetch list" where
  "getOrderedBlobsToFetch blobs =
     (let bs = map snd blobs;
          resumeMeta = filter (\<lambda>b. bf_state b = BlobFetching \<and> \<not> isData b) bs;
          resumeData = filter (\<lambda>b. bf_state b = BlobFetching \<and> isData b) bs;
          startMeta = filter (\<lambda>b. bf_state b \<noteq> BlobOk \<and> bf_state b \<noteq> BlobFetching \<and> \<not> isData b) bs;
          startData = filter (\<lambda>b. bf_state b \<noteq> BlobOk \<and> bf_state b \<noteq> BlobFetching \<and> isData b) bs
      in resumeMeta @ startMeta @ resumeData @ startData)"

definition fetch_rank :: "blob_fetch \<Rightarrow> nat" where
  "fetch_rank b = (if isData b then 2 else 0) + (if bf_state b = BlobFetching then 0 else 1)"

section \<open>The loop\<close>

definition err_res :: "error option \<Rightarrow> unit res" where
  "err_res e = (case e of None \<Rightarrow> Ok () | Some x \<Rightarrow> Fail x)"

text \<open>The body of the loop; \<open>get\<close> is the blob provider, which may look at the world.\<close>

definition fetch_one ::
  "('x, 'z) sys_scheme \<Rightarrow> ('x world \<Rightarrow> provider) \<Rightarrow> blob_fetch \<Rightarrow> 'x world \<Rightarrow> ('x world \<times> unit res) option"
where
  "fetch_one X pv bi w =
     (let desc = bi_desc (bf_info bi) in
      case pv_get (pv w) ctx_background [WithRef (bf_Ref bi), WithDescriptor desc, WithSecureReadOff] of
        Fail e \<Rightarrow>
          Some (w, Fail (Wrap (''failed to initiate request to fetch blob '' @ d_digest desc) e))
      | Panic m \<Rightarrow> Some (w, Panic m)
      | Ok r \<Rightarrow>
          (if \<not> rc_seekable X r
           then Some (w, Fail (Err (''blob fetch reader for '' @ bf_Ref bi @
                  '' does not implement io.ReadSeekCloser'')))
           else (case CopyBlob X w r (bf_Ref bi) desc True of
                   None \<Rightarrow> None
                 | Some (w', None) \<Rightarrow> Some (w', Ok ())
                 | Some (w', Some e) \<Rightarrow>
                     Some (w', Fail (Wrap (''failed to fetch blob '' @ d_digest desc) e)))))"

fun fetch_loop ::
  "('x, 'z) sys_scheme \<Rightarrow> ('x world \<Rightarrow> provider) \<Rightarrow> blob_fetch list \<Rightarrow> 'x world \<Rightarrow> ('x world \<times> unit res) option"
where
  "fetch_loop X pv [] w = Some (w, Ok ())"
| "fetch_loop X pv (b # bs) w =
     (case fetch_one X pv b w of
        Some (w', Ok _) \<Rightarrow> fetch_loop X pv bs w'
      | r \<Rightarrow> r)"

text \<open>
  The option \<open>SourcePath\<close>, when set, replaces the registry by a directory of blobs.  An error of
  the context takes precedence over the error of the loop.
\<close>

definition FetchBlobs ::
  "('x, 'z) sys_scheme \<Rightarrow> config \<Rightarrow> (digest, blob_info) gomap \<Rightarrow> path option \<Rightarrow> 'x world \<Rightarrow>
   ('x world \<times> unit res) option" where
  "FetchBlobs X cfg blobs sourcePath w =
     (let blobsToFetch = fp_blobs (start_progress blobs);
          blobProvider = (case sourcePath of
             None \<Rightarrow> newRemoteBlobProvider X
           | Some p \<Rightarrow> (\<lambda>w. NewStoreBlobProvider X (w_fs w) (GetBlobsRootFor p)))
      in case ls_new X (cf_store_root cfg) of
           Some e \<Rightarrow> Some (w, Fail e)
         | None \<Rightarrow>
             (case fetch_loop X blobProvider (getOrderedBlobsToFetch blobsToFetch) w of
                None \<Rightarrow> None
              | Some (w', Panic m) \<Rightarrow> Some (w', Panic m)
              | Some (w', Fail err) \<Rightarrow>
                  Some (w', case ctx_err X w' of None \<Rightarrow> Fail err | Some ce \<Rightarrow> Fail ce)
              | Some (w', Ok _) \<Rightarrow> Some (w', err_res (ctx_err X w'))))"

section \<open>The read monitor\<close>

record read_stat =
  rs_bytes :: int
  rs_start :: int
  rs_end :: int

record read_monitor =
  rm_b :: blob_fetch
  rm_window :: "read_stat list"
  rm_new :: bool

definition windowSize :: int where
  "windowSize = 5 * 10 ^ 9"

definition maxSamples :: nat where
  "maxSamples = 200"

text \<open>
  \<open>calcReadStat\<close>: the window loses its leading samples that ended before the cutoff, then all but
  the last \<open>maxSamples\<close>.  \<open>rate n t\<close> stands for \<open>int64(float64(n) / t.Seconds())\<close>.
\<close>

definition trim_window :: "int \<Rightarrow> read_stat list \<Rightarrow> read_stat list" where
  "trim_window now win =
     (let win1 = dropWhile (\<lambda>s. \<not> rs_end s > now - windowSize) win
      in if length win1 > maxSamples then drop (length win1 - maxSamples) win1 else win1)"

definition calcReadStat :: "(int \<Rightarrow> int \<Rightarrow> int) \<Rightarrow> int \<Rightarrow> read_monitor \<Rightarrow> read_monitor" where
  "calcReadStat rate now r =
     (let win = trim_window now (rm_window r);
          bytesInWindow = fold (\<lambda>s n. i64 (n + rs_bytes s)) win 0;
          timeInWindow = fold (\<lambda>s t. i64 (t + i64 (rs_end s - rs_start s))) win 0;
          b1 = (rm_b r)\<lparr>bf_cur := (if 0 < timeInWindow then rate bytesInWindow timeInWindow else 0)\<rparr>;
          b2 = (if 0 < bf_read_time b1 \<and> 0 < bf_read b1
                then b1\<lparr>bf_avg := rate (bf_read b1) (bf_read_time b1)\<rparr> else b1)
      in r\<lparr>rm_b := b2, rm_window := win\<rparr>)"

datatype monitor_event = MStat read_stat | MTick int

definition monitor_step :: "(int \<Rightarrow> int \<Rightarrow> int) \<Rightarrow> monitor_event \<Rightarrow> read_monitor \<Rightarrow> read_monitor" where
  "monitor_step rate ev r =
     (case ev of
        MStat s \<Rightarrow>
          r\<lparr>rm_b := (rm_b r)\<lparr>bf_read := i64 (bf_read (rm_b r) + rs_bytes s),
               bf_read_time := i64 (bf_read_time (rm_b r) + i64 (rs_end s - rs_start s))\<rparr>,
            rm_window := rm_window r @ [s], rm_new := True\<rparr>
      | MTick now \<Rightarrow> (calcReadStat rate now r)\<lparr>rm_new := False\<rparr>)"

text \<open>The goroutine of \<open>Start\<close>: events until the stop, then a last calculation for new data.\<close>

definition run_monitor ::
  "(int \<Rightarrow> int \<Rightarrow> int) \<Rightarrow> monitor_event list \<Rightarrow> int \<Rightarrow> bool \<Rightarrow> blob_fetch \<Rightarrow> read_monitor" where
  "run_monitor rate evs now canceled b =
     (let r = fold (monitor_step rate) evs \<lparr>rm_b = b, rm_window = [], rm_new = False\<rparr>
      in if rm_new r \<and> \<not> canceled then calcReadStat rate now r else r)"

section \<open>The accounting\<close>

text \<open>
  What the three counters say of the blobs: bytes fetched since the start, blobs that are
  complete, bytes that were missing at the start (all modulo the width of the counters).
\<close>

definition fp_inv :: "fetch_progress \<Rightarrow> bool" where
  "fp_inv fp \<longleftrightarrow> distinct (map fst (fp_blobs fp)) \<and>
     fp_current fp = i64 (\<Sum>(d, b)\<leftarrow>fp_blobs fp. bf_fetched b - bi_bytes_fetched (bf_info b)) \<and>
     fp_count fp = i64 (\<Sum>(d, b)\<leftarrow>fp_blobs fp. if bf_state b = BlobOk then 1 else 0) \<and>
     fp_total fp =
       i64 (\<Sum>(d, b)\<leftarrow>fp_blobs fp. d_size (bi_desc (bf_info b)) - bi_bytes_fetched (bf_info b))"

definition init_fetch :: "blob_info \<Rightarrow> blob_fetch" where
  "init_fetch bi =
     (if bi_state bi = BlobOk then (new_blob_fetch bi)\<lparr>bf_fetched := d_size (bi_desc bi)\<rparr>
      else new_blob_fetch bi)"

lemma init_fetch_simps [simp]:
  "bf_info (init_fetch bi) = bi" "bf_state (init_fetch bi) = bi_state bi"
  by (simp_all add: init_fetch_def new_blob_fetch_def bf_state_def)

lemma init_fetch_ok: "bi_state bi = BlobOk \<Longrightarrow> bf_fetched (init_fetch bi) = d_size (bi_desc bi)"
  by (simp add: init_fetch_def)

lemma gm_put_new: "\<not> gm_has m k \<Longrightarrow> gm_put k v m = m @ [(k, v)]"
  by (induction m) (auto simp: gm_has_def split: if_splits)

lemma gm_put_put_new: "\<not> gm_has m k \<Longrightarrow> gm_put k v' (m @ [(k, v)]) = m @ [(k, v')]"
  by (induction m) (auto simp: gm_has_def split: if_splits)

lemma start_progress_step_new:
  assumes "\<not> gm_has (fp_blobs fp) d"
  shows "start_progress_step (d, bi) fp =
    fp\<lparr>fp_blobs := fp_blobs fp @ [(d, init_fetch bi)],
       fp_total := i64 (fp_total fp + (d_size (bi_desc bi) - bi_bytes_fetched bi)),
       fp_count := (if bi_state bi = BlobOk then i64 (fp_count fp + 1) else fp_count fp),
       fp_current := (if bi_state bi = BlobOk
                      then i64 (fp_current fp + (d_size (bi_desc bi) - bi_bytes_fetched bi))
                      else fp_current fp)\<rparr>"
  using assms
  by (simp add: start_progress_step_def Let_def init_fetch_def gm_put_new gm_put_put_new)

lemma start_progress_step_inv:
  assumes "fp_inv fp" and "\<not> gm_has (fp_blobs fp) d"
  shows "fp_inv (start_progress_step (d, bi) fp)"
  using assms
  by (auto simp: fp_inv_def start_progress_step_new gm_has_iff init_fetch_def new_blob_fetch_def
      bf_state_def algebra_simps i64_norm)

lemma fold_start_progress:
  assumes "fp_inv fp" and "distinct (map fst (fp_blobs fp) @ map fst blobs)"
  shows "fp_inv (fold start_progress_step blobs fp) \<and>
    fp_blobs (fold start_progress_step blobs fp) =
      fp_blobs fp @ map (\<lambda>(d, bi). (d, init_fetch bi)) blobs"
  using assms
proof (induction blobs arbitrary: fp)
  case Nil
  then show ?case by simp
next
  case (Cons e blobs)
  obtain d bi where e: "e = (d, bi)" by force
  with Cons.prems have new: "\<not> gm_has (fp_blobs fp) d" by (auto simp: gm_has_iff)
  let ?fp = "start_progress_step (d, bi) fp"
  have b: "fp_blobs ?fp = fp_blobs fp @ [(d, init_fetch bi)]"
    by (simp add: start_progress_step_new [OF new])
  with Cons.prems e have "distinct (map fst (fp_blobs ?fp) @ map fst blobs)" by simp
  from Cons.IH [OF start_progress_step_inv [OF Cons.prems(1) new] this] b e show ?case by simp
qed

lemma start_progress_inv:
  assumes "distinct (map fst blobs)"
  shows "fp_inv (start_progress blobs)"
    and "fp_blobs (start_progress blobs) = map (\<lambda>(d, bi). (d, init_fetch bi)) blobs"
proof -
  have "i64 0 = 0" by (simp add: i64_id in_i64_def)
  then have "fp_inv \<lparr>fp_blobs = [], fp_count = 0, fp_current = 0, fp_total = 0\<rparr>"
    by (simp add: fp_inv_def)
  from fold_start_progress [OF this, of blobs] assms
  show "fp_inv (start_progress blobs)"
    and "fp_blobs (start_progress blobs) = map (\<lambda>(d, bi). (d, init_fetch bi)) blobs"
    by (simp_all add: start_progress_def)
qed

text \<open>Replacing one blob that keeps what it was at the start.\<close>

lemma fp_inv_put:
  assumes "fp_inv fp" and "map_of (fp_blobs fp) d = Some b" and "bf_state b \<noteq> BlobOk"
    and "bi_bytes_fetched (bf_info b') = bi_bytes_fetched (bf_info b)"
    and "bi_desc (bf_info b') = bi_desc (bf_info b)"
  shows "fp_inv (fp\<lparr>fp_current := i64 (fp_current fp + i64 (bf_fetched b' - bf_fetched b)),
      fp_blobs := gm_put d b' (fp_blobs fp),
      fp_count := (if bf_state b' = BlobOk then i64 (fp_count fp + 1) else fp_count fp)\<rparr>)"
proof -
  have d: "distinct (map fst (fp_blobs fp))" using assms(1) by (simp add: fp_inv_def)
  note sums = map_of_split_sum [OF d assms(2), of _ b']
  show ?thesis
    using assms by (auto simp: fp_inv_def sums distinct_update algebra_simps i64_norm)
qed

lemma bf_set_state_simps [simp]:
  "bf_state (bf_set_state s b) = s" "bf_fetched (bf_set_state s b) = bf_fetched b"
  "bi_bytes_fetched (bf_info (bf_set_state s b)) = bi_bytes_fetched (bf_info b)"
  "bi_desc (bf_info (bf_set_state s b)) = bi_desc (bf_info b)"
  "bi_type (bf_info (bf_set_state s b)) = bi_type (bf_info b)"
  by (simp_all add: bf_set_state_def bf_state_def)

lemma update_blob_status_inv:
  assumes "fp_inv fp"
  shows "fp_inv (update_blob_status X obs d fp)"
proof (cases "map_of (fp_blobs fp) d")
  case None
  then show ?thesis using assms by (simp add: update_blob_status_def)
next
  case (Some b)
  show ?thesis
    using assms Some
      fp_inv_put [OF assms Some, of "bf_set_state BlobFetching (b\<lparr>bf_fetched := n\<rparr>)" for n]
      fp_inv_put [OF assms Some, of "bf_set_state BlobOk (b\<lparr>bf_fetched := n\<rparr>)" for n]
    by (auto simp: update_blob_status_def split: res.splits)
qed

lemma poll_inv: "fp_inv fp \<Longrightarrow> fp_inv (checkAndUpdateBlobStatus X obs fp)"
  by (auto simp: checkAndUpdateBlobStatus_def intro: fold_invariant update_blob_status_inv)

text \<open>
  A run of the polling goroutine: any number of polls, each looking at the store when it may.
\<close>

inductive fetch_reach ::
  "('x, 'z) sys_scheme \<Rightarrow> (digest, blob_info) gomap \<Rightarrow> fetch_progress \<Rightarrow> bool"
  for X :: "('x, 'z) sys_scheme" and blobs where
  start: "fetch_reach X blobs (start_progress blobs)"
| poll: "fetch_reach X blobs fp \<Longrightarrow> fetch_reach X blobs (checkAndUpdateBlobStatus X obs fp)"

lemma fetch_reach_inv: "fetch_reach X blobs fp \<Longrightarrow> distinct (map fst blobs) \<Longrightarrow> fp_inv fp"
  by (induction rule: fetch_reach.induct) (auto intro: start_progress_inv poll_inv)

text \<open>What a poll leaves alone.\<close>

definition fp_static :: "fetch_progress \<Rightarrow> (digest \<times> descriptor \<times> int) list" where
  "fp_static fp =
     map (\<lambda>(d, b). (d, bi_desc (bf_info b), bi_bytes_fetched (bf_info b))) (fp_blobs fp)"

lemma map_gm_put_same:
  "map_of m k = Some v \<Longrightarrow> f k v' = f k v \<Longrightarrow>
     map (\<lambda>(k, v). f k v) (gm_put k v' m) = map (\<lambda>(k, v). f k v) m"
  by (induction m) (auto split: if_splits)

lemma update_blob_status_static [simp]:
  "fp_static (update_blob_status X obs d fp) = fp_static fp \<and>
   fp_total (update_blob_status X obs d fp) = fp_total fp"
  by (auto simp: update_blob_status_def fp_static_def split: option.splits res.splits
      intro!: map_gm_put_same)

lemma poll_static [simp]:
  "fp_static (checkAndUpdateBlobStatus X obs fp) = fp_static fp"
  "fp_total (checkAndUpdateBlobStatus X obs fp) = fp_total fp"
proof -
  have "fp_static (fold (\<lambda>d. update_blob_status X (obs d) d) ds fp) = fp_static fp \<and>
    fp_total (fold (\<lambda>d. update_blob_status X (obs d) d) ds fp) = fp_total fp" for ds
    by (rule fold_invariant) auto
  then show "fp_static (checkAndUpdateBlobStatus X obs fp) = fp_static fp"
    "fp_total (checkAndUpdateBlobStatus X obs fp) = fp_total fp"
    by (simp_all add: checkAndUpdateBlobStatus_def)
qed

section \<open>When everything is fetched\<close>

text \<open>A store that reports a blob reports the size its descriptor says.\<close>

definition info_sizes :: "('x, 'z) sys_scheme \<Rightarrow> (digest, blob_info) gomap \<Rightarrow> bool" where
  "info_sizes X blobs \<longleftrightarrow>
     (\<forall>(d, bi)\<in>set blobs. \<forall>w n. ls_info X w (d_digest (bi_desc bi)) = Ok n \<longrightarrow> n = d_size (bi_desc bi))"

definition ok_complete :: "fetch_progress \<Rightarrow> bool" where
  "ok_complete fp \<longleftrightarrow>
     (\<forall>(d, b)\<in>set (fp_blobs fp). bf_state b = BlobOk \<longrightarrow> bf_fetched b = d_size (bi_desc (bf_info b)))"

lemma update_ok_complete:
  assumes "ok_complete fp" and "info_sizes X blobs"
    and "fp_static fp = map (\<lambda>(d, bi). (d, bi_desc bi, bi_bytes_fetched bi)) blobs"
  shows "ok_complete (update_blob_status X obs d fp)"
proof -
  have sz: "n = d_size (bi_desc (bf_info b))"
    if "map_of (fp_blobs fp) d = Some b" "ls_info X w (d_digest (bi_desc (bf_info b))) = Ok n" for b w n
  proof -
    from that(1) have "(d, b) \<in> set (fp_blobs fp)" by (rule map_of_SomeD)
    then have "(d, bi_desc (bf_info b), bi_bytes_fetched (bf_info b)) \<in> set (fp_static fp)"
      by (force simp: fp_static_def)
    then obtain bi where "(d, bi) \<in> set blobs" "bi_desc bi = bi_desc (bf_info b)"
      by (auto simp: assms(3))
    with assms(2) that(2) show ?thesis unfolding info_sizes_def by fastforce
  qed
  show ?thesis
    using assms(1)
    by (auto simp: ok_complete_def update_blob_status_def sz split: option.splits res.splits
        dest!: gm_put_memD)
qed

lemma fetch_reach_static:
  "fetch_reach X blobs fp \<Longrightarrow> distinct (map fst blobs) \<Longrightarrow>
     fp_static fp = map (\<lambda>(d, bi). (d, bi_desc bi, bi_bytes_fetched bi)) blobs"
  by (induction rule: fetch_reach.induct)
    (auto simp: start_progress_inv fp_static_def[of "start_progress blobs"])

lemma fetch_reach_ok_complete:
  assumes "fetch_reach X blobs fp" and "distinct (map fst blobs)" and "info_sizes X blobs"
  shows "ok_complete fp"
  using assms(1)
proof (induction rule: fetch_reach.induct)
  case start
  show ?case using start_progress_inv(2) [OF assms(2)]
    by (auto simp: ok_complete_def init_fetch_ok)
next
  case (poll fp obs)
  have "ok_complete g \<and> fp_static g = fp_static fp"
    if "g = fold (\<lambda>d. update_blob_status X (obs d) d) ds fp" for ds g
    unfolding that
    by (rule fold_invariant)
      (use poll fetch_reach_static [OF poll(1) assms(2)] assms(3) in \<open>auto intro: update_ok_complete\<close>)
  then show ?case by (simp add: checkAndUpdateBlobStatus_def)
qed

lemma fetch_complete_helper:
  assumes "fetch_reach X blobs fp" and "distinct (map fst blobs)" and "info_sizes X blobs"
    and "\<forall>(d, b)\<in>set (fp_blobs fp). bf_state b = BlobOk"
  shows "fp_current fp = fp_total fp \<and> fp_count fp = i64 (int (length blobs))"
proof -
  note inv = fetch_reach_inv [OF assms(1,2)] and oc = fetch_reach_ok_complete [OF assms(1-3)]
  have "length (fp_static fp) = length blobs"
    using fetch_reach_static [OF assms(1,2)] by simp
  then have len: "length (fp_blobs fp) = length blobs" by (simp add: fp_static_def)
  have "(\<Sum>(d, b)\<leftarrow>fp_blobs fp. bf_fetched b - bi_bytes_fetched (bf_info b)) =
      (\<Sum>(d, b)\<leftarrow>fp_blobs fp. d_size (bi_desc (bf_info b)) - bi_bytes_fetched (bf_info b))"
    using oc assms(4) by (intro arg_cong [where f = sum_list] map_cong) (auto simp: ok_complete_def)
  moreover have "(\<Sum>(d, b)\<leftarrow>fp_blobs fp. if bf_state b = BlobOk then 1 else 0) =
      (\<Sum>_\<leftarrow>fp_blobs fp. 1::int)"
    using assms(4) by (intro arg_cong [where f = sum_list] map_cong) auto
  ultimately show ?thesis
    using inv len by (simp add: fp_inv_def sum_list_triv)
qed

section \<open>The order\<close>

lemma ordered_mset:
  "mset (getOrderedBlobsToFetch blobs) = filter_mset (\<lambda>b. bf_state b \<noteq> BlobOk) (mset (map snd blobs))"
proof -
  have "mset (filter (\<lambda>b. bf_state b = BlobFetching \<and> \<not> isData b) bs) +
      mset (filter (\<lambda>b. bf_state b \<noteq> BlobOk \<and> bf_state b \<noteq> BlobFetching \<and> \<not> isData b) bs) +
      mset (filter (\<lambda>b. bf_state b = BlobFetching \<and> isData b) bs) +
      mset (filter (\<lambda>b. bf_state b \<noteq> BlobOk \<and> bf_state b \<noteq> BlobFetching \<and> isData b) bs) =
      filter_mset (\<lambda>b. bf_state b \<noteq> BlobOk) (mset bs)" for bs
    by (induction bs) auto
  from this [of "map snd blobs"] show ?thesis
    by (simp add: getOrderedBlobsToFetch_def Let_def add.assoc)
qed

lemma sorted_map_const: "(\<And>x. x \<in> set xs \<Longrightarrow> f x = (c::nat)) \<Longrightarrow> sorted (map f xs)"
  by (induction xs) auto

lemma ordered_sorted: "sorted (map fetch_rank (getOrderedBlobsToFetch blobs))"
proof -
  define bs where "bs = map snd blobs"
  have "sorted (map fetch_rank (filter (\<lambda>b. bf_state b = BlobFetching \<and> \<not> isData b) bs))"
    by (rule sorted_map_const [where c = 0]) (simp add: fetch_rank_def)
  moreover have "sorted (map fetch_rank (filter (\<lambda>b. bf_state b \<noteq> BlobOk \<and> bf_state b \<noteq> BlobFetching \<and> \<not> isData b) bs))"
    by (rule sorted_map_const [where c = 1]) (simp add: fetch_rank_def)
  moreover have "sorted (map fetch_rank (filter (\<lambda>b. bf_state b = BlobFetching \<and> isData b) bs))"
    by (rule sorted_map_const [where c = 2]) (simp add: fetch_rank_def)
  moreover have "sorted (map fetch_rank (filter (\<lambda>b. bf_state b \<noteq> BlobOk \<and> bf_state b \<noteq> BlobFetching \<and> isData b) bs))"
    by (rule sorted_map_const [where c = 3]) (simp add: fetch_rank_def)
  ultimately show ?thesis
    unfolding getOrderedBlobsToFetch_def Let_def bs_def [symmetric] map_append sorted_append
    by (auto simp: fetch_rank_def)
qed

section \<open>The loop returns, and what the store has then\<close>

lemma fetch_one_returns:
  "delete_clears X (bi_desc (bf_info b)) \<Longrightarrow> fetch_one X pv b w \<noteq> None"
  by (auto simp: fetch_one_def Let_def CopyBlob_returns_helper
      split: res.splits option.splits prod.splits)

lemma fetch_loop_returns:
  "(\<And>b. b \<in> set bs \<Longrightarrow> delete_clears X (bi_desc (bf_info b))) \<Longrightarrow> fetch_loop X pv bs w \<noteq> None"
proof (induction bs arbitrary: w)
  case (Cons b bs)
  have "fetch_one X pv b w \<noteq> None" by (rule fetch_one_returns) (simp add: Cons.prems)
  with Cons show ?case by (auto split: option.splits res.splits prod.splits)
qed simp

text \<open>
  What containerd documents of its store: a copy that succeeds commits the blob with the size of
  its descriptor, and the three operations touch no other blob.
\<close>

definition store_laws :: "('x, 'z) sys_scheme \<Rightarrow> bool" where
  "store_laws X \<longleftrightarrow>
     (\<forall>w ref desc r w'. ls_copy X w ref desc r = (w', None) \<longrightarrow>
        ls_info X w' (d_digest desc) = Ok (d_size desc)) \<and>
     (\<forall>w ref desc r d. d \<noteq> d_digest desc \<longrightarrow>
        ls_info X (fst (ls_copy X w ref desc r)) d = ls_info X w d \<and>
        ls_info X (fst (ls_open_writer X w ref desc)) d = ls_info X w d \<and>
        ls_info X (fst (ls_delete X w (d_digest desc))) d = ls_info X w d)"

lemma store_laws_keep:
  assumes "store_laws X" and "d \<noteq> d_digest desc"
  shows "ls_copy X w ref desc r = (w1, e) \<Longrightarrow> ls_info X w1 d = ls_info X w d"
    and "ls_open_writer X w ref desc = (w1, e) \<Longrightarrow> ls_info X w1 d = ls_info X w d"
    and "ls_delete X w (d_digest desc) = (w1, e) \<Longrightarrow> ls_info X w1 d = ls_info X w d"
  using assms unfolding store_laws_def by (metis fst_conv)+

text \<open>What the three operations keep of the world, copying a blob keeps.\<close>

definition store_keeps :: "('x, 'z) sys_scheme \<Rightarrow> descriptor \<Rightarrow> ('x world \<Rightarrow> bool) \<Rightarrow> bool" where
  "store_keeps X desc P \<longleftrightarrow>
     (\<forall>w ref. P w \<longrightarrow> P (fst (ls_open_writer X w ref desc))) \<and>
     (\<forall>w. P w \<longrightarrow> P (fst (ls_delete X w (d_digest desc)))) \<and>
     (\<forall>w ref r. P w \<longrightarrow> P (fst (ls_copy X w ref desc r)))"

lemma CopyBlob_open_invariant:
  fixes X :: "('x, 'z) sys_scheme" and P :: "'x world \<Rightarrow> bool"
  assumes "CopyBlob_open X w ref desc force = Some y" and "store_keeps X desc P" and "P w"
  shows "P (fst y)"
proof -
  have "store_keeps X desc P \<longrightarrow> P w \<longrightarrow> P (fst y)"
  proof (rule CopyBlob_open.raw_induct [where P = "\<lambda>X w ref desc force y. store_keeps X desc P \<longrightarrow>
      P w \<longrightarrow> P (fst y)", OF _ assms(1)], intro impI)
    fix f and X :: "('x, 'z) sys_scheme" and w ref desc force y
    assume IH: "\<And>X w ref desc force y. f X w ref desc force = Some y \<Longrightarrow> store_keeps X desc P \<longrightarrow>
        P w \<longrightarrow> P (fst y)"
      and eq: "(case ls_open_writer X w ref desc of
        (w1, None) \<Rightarrow> Some (w1, None)
      | (w1, Some e) \<Rightarrow>
          if force \<and> errors_Is_AlreadyExists e
          then (case ls_delete X w1 (d_digest desc) of
                  (w2, None) \<Rightarrow> f X w2 ref desc force
                | (w2, Some _) \<Rightarrow> Some (w2, Some e))
          else Some (w1, Some (Wrap ''failed to open writer'' e))) = Some y"
      and sk: "store_keeps X desc P" and p: "P w"
    obtain w1 e1 where o: "ls_open_writer X w ref desc = (w1, e1)" by force
    obtain w2 e2 where del: "ls_delete X w1 (d_digest desc) = (w2, e2)" by force
    have k: "P w1" "P w2"
      using sk p o del unfolding store_keeps_def by (metis fst_conv)+
    show "P (fst y)"
      using eq [unfolded o] del k IH [of X w2 ref desc force y] sk
      by (cases e1; cases e2) (auto split: if_splits)
  qed
  with assms(2,3) show ?thesis by blast
qed

lemma CopyBlob_invariant:
  assumes "CopyBlob X w r ref desc force = Some (w', e)" and "store_keeps X desc P" and "P w"
  shows "P w'"
proof -
  from assms(1) obtain w1 e1 where o: "CopyBlob_open X w ref desc force = Some (w1, e1)"
    by (auto simp: CopyBlob_def split: option.splits)
  from CopyBlob_open_invariant [OF o assms(2,3)] have "P w1" by simp
  then have "P (fst (ls_copy X w1 ref desc r))" using assms(2) by (simp add: store_keeps_def)
  with \<open>P w1\<close> assms(1) o show ?thesis
    by (auto simp: CopyBlob_def split: option.splits)
qed

lemma fetch_loop_invariant:
  assumes "fetch_loop X pv bs w = Some (w', r)" and "P w"
    and "\<And>b. b \<in> set bs \<Longrightarrow> store_keeps X (bi_desc (bf_info b)) P"
  shows "P w'"
  using assms
proof (induction bs arbitrary: w)
  case (Cons b bs)
  have one: "P w1" if "fetch_one X pv b w = Some (w1, r1)" for w1 r1
    using that Cons.prems(2) CopyBlob_invariant [of X w _ _ _ _ w1 _ P] Cons.prems(3) [of b]
    by (auto simp: fetch_one_def Let_def split: res.splits if_splits option.splits prod.splits)
  obtain w1 r1 where f: "fetch_one X pv b w = Some (w1, r1)"
    using Cons.prems(1) by (auto split: option.splits)
  show ?case
  proof (cases r1)
    case (Ok u)
    with f Cons.prems(1) have "fetch_loop X pv bs w1 = Some (w', r)" by simp
    from Cons.IH [OF this one [OF f]] Cons.prems(3) show ?thesis by simp
  qed (use f Cons.prems(1) one in auto)
qed simp

lemma CopyBlob_keeps:
  assumes "CopyBlob X w r ref desc force = Some (w', e)" and "store_laws X" and "d \<noteq> d_digest desc"
  shows "ls_info X w' d = ls_info X w d"
  by (rule CopyBlob_invariant [OF assms(1), where P = "\<lambda>w1. ls_info X w1 d = ls_info X w d"])
     (use assms(2,3) in \<open>simp_all add: store_keeps_def store_laws_def\<close>)

lemma CopyBlob_stores:
  assumes "CopyBlob X w r ref desc force = Some (w', None)" and "store_laws X"
  shows "ls_info X w' (d_digest desc) = Ok (d_size desc)"
  using assms by (auto simp: CopyBlob_def store_laws_def split: option.splits prod.splits)

definition has_blob :: "('x, 'z) sys_scheme \<Rightarrow> 'x world \<Rightarrow> descriptor \<Rightarrow> bool" where
  "has_blob X w desc \<longleftrightarrow> ls_info X w (d_digest desc) = Ok (d_size desc)"

lemma fetch_one_stores:
  assumes "fetch_one X pv b w = Some (w', Ok ())" and "store_laws X"
  shows "has_blob X w' (bi_desc (bf_info b))"
    and "d \<noteq> d_digest (bi_desc (bf_info b)) \<Longrightarrow> ls_info X w' d = ls_info X w d"
  using assms by (auto simp: fetch_one_def has_blob_def Let_def
      split: res.splits if_splits option.splits prod.splits dest: CopyBlob_stores CopyBlob_keeps)

lemma fetch_loop_stores:
  assumes "fetch_loop X pv bs w = Some (w', Ok ())" and "store_laws X"
    and "distinct (map (\<lambda>b. d_digest (bi_desc (bf_info b))) bs)"
  shows "(\<forall>b\<in>set bs. has_blob X w' (bi_desc (bf_info b))) \<and>
    (\<forall>d. d \<notin> (\<lambda>b. d_digest (bi_desc (bf_info b))) ` set bs \<longrightarrow> ls_info X w' d = ls_info X w d)"
  using assms(1,3)
proof (induction bs arbitrary: w)
  case (Cons b bs)
  from Cons.prems(1) obtain w1 where one: "fetch_one X pv b w = Some (w1, Ok ())"
    and rest: "fetch_loop X pv bs w1 = Some (w', Ok ())"
    by (auto split: option.splits res.splits prod.splits)
  from Cons.IH [OF rest] Cons.prems(2) fetch_one_stores [OF one assms(2)]
  show ?case by (auto simp: has_blob_def)
qed simp

section \<open>The window of the monitor\<close>

lemma trim_window_suffix: "suffix (trim_window now win) win"
  by (auto simp: trim_window_def Let_def suffix_dropWhile
      intro: suffix_order.trans [OF suffix_drop suffix_dropWhile])

lemma trim_window_length: "length (trim_window now win) \<le> maxSamples"
  by (auto simp: trim_window_def Let_def)

lemma sorted_dropWhile_all:
  "sorted (map f xs) \<Longrightarrow> x \<in> set (dropWhile (\<lambda>s. \<not> f s > (c::int)) xs) \<Longrightarrow> f x > c"
  by (induction xs) (auto split: if_splits)

lemma trim_window_recent:
  assumes "sorted (map rs_end win)" and "s \<in> set (trim_window now win)"
  shows "rs_end s > now - windowSize"
proof -
  from assms(2) have "s \<in> set (dropWhile (\<lambda>s. \<not> rs_end s > now - windowSize) win)"
    by (auto simp: trim_window_def Let_def split: if_splits dest: in_set_dropD)
  with assms(1) show ?thesis by (rule sorted_dropWhile_all)
qed

definition stats :: "monitor_event list \<Rightarrow> read_stat list" where
  "stats evs = concat (map (\<lambda>ev. case ev of MStat s \<Rightarrow> [s] | MTick _ \<Rightarrow> []) evs)"

text \<open>Totals count every sample once, the window is the tail of the samples.\<close>

lemma calcReadStat_totals [simp]:
  "bf_read (rm_b (calcReadStat rate now r)) = bf_read (rm_b r)"
  "bf_read_time (rm_b (calcReadStat rate now r)) = bf_read_time (rm_b r)"
  "bf_info (rm_b (calcReadStat rate now r)) = bf_info (rm_b r)"
  "bf_fetched (rm_b (calcReadStat rate now r)) = bf_fetched (rm_b r)"
  "rm_window (calcReadStat rate now r) = trim_window now (rm_window r)"
  by (simp_all add: calcReadStat_def Let_def)

lemma monitor_fold:
  "bf_read (rm_b (fold (monitor_step rate) evs r)) =
     fold (\<lambda>s n. i64 (n + rs_bytes s)) (stats evs) (bf_read (rm_b r)) \<and>
   suffix (rm_window (fold (monitor_step rate) evs r)) (rm_window r @ stats evs)"
proof (induction evs arbitrary: r)
  case (Cons ev evs)
  show ?case
  proof (cases ev)
    case (MStat s)
    with Cons [of "monitor_step rate ev r"] show ?thesis
      by (simp add: monitor_step_def stats_def)
  next
    case (MTick now)
    have "suffix (trim_window now (rm_window r) @ stats evs) (rm_window r @ stats evs)"
      using trim_window_suffix by (auto simp: suffix_def)
    with Cons [of "monitor_step rate ev r"] MTick show ?thesis
      by (auto simp: monitor_step_def stats_def intro: suffix_order.trans)
  qed
qed (simp add: stats_def)

lemma fold_i64_sum: "fold (\<lambda>s n. i64 (n + f s)) xs (i64 m) = i64 (m + (\<Sum>s\<leftarrow>xs. f s))"
  by (induction xs arbitrary: m) (simp_all add: add.assoc)


section \<open>The blobs of a fetch\<close>

definition pending :: "(digest, blob_info) gomap \<Rightarrow> blob_fetch list" where
  "pending blobs = filter (\<lambda>b. bf_state b \<noteq> BlobOk) (map (\<lambda>e. init_fetch (snd e)) blobs)"

lemma ordered_pending:
  assumes "distinct (map fst blobs)"
  shows "mset (getOrderedBlobsToFetch (fp_blobs (start_progress blobs))) = mset (pending blobs)"
    and "set (getOrderedBlobsToFetch (fp_blobs (start_progress blobs))) = set (pending blobs)"
proof -
  have "map snd (fp_blobs (start_progress blobs)) = map (\<lambda>e. init_fetch (snd e)) blobs"
    by (simp add: start_progress_inv(2) [OF assms] case_prod_beta)
  then show m: "mset (getOrderedBlobsToFetch (fp_blobs (start_progress blobs))) = mset (pending blobs)"
    by (simp add: ordered_mset pending_def mset_filter del: mset_map)
  then show "set (getOrderedBlobsToFetch (fp_blobs (start_progress blobs))) = set (pending blobs)"
    by (rule mset_eq_setD)
qed

lemma set_pending: "b \<in> set (pending blobs) \<longleftrightarrow>
    (\<exists>d bi. (d, bi) \<in> set blobs \<and> bi_state bi \<noteq> BlobOk \<and> b = init_fetch bi)"
  by (force simp: pending_def)

end
