(* ===== verification/UpdateStore.thy ===== *)
theory UpdateStore
  imports Fetch
begin

text \<open>
  The record of an update and its database, \<open>pkg/update/store.go\<close>.  The database is one bbolt
  bucket of the file that the configuration names: a map from keys to bytes whose cursor visits the keys in byte order.  The encoding of
  a record as JSON and the failures of bbolt are parameters; opening, creating the bucket,
  finding the last key, walking back and writing are modelled.
\<close>

section \<open>Updates\<close>

datatype ustate =
    StateCreated | StateInitializing | StateInitialized | StateFetching | StateFetched
  | StateInstalling | StateInstalled | StateStarting | StateStarted | StateCompleting
  | StateCompleted | StateFailed | StateCancelling | StateCanceled

fun State_String :: "ustate \<Rightarrow> string" where
  "State_String StateCreated = ''created''"
| "State_String StateInitializing = ''initializing''"
| "State_String StateInitialized = ''initialized''"
| "State_String StateFetching = ''fetching''"
| "State_String StateFetched = ''fetched''"
| "State_String StateInstalling = ''installing''"
| "State_String StateInstalled = ''installed''"
| "State_String StateStarting = ''starting''"
| "State_String StateStarted = ''started''"
| "State_String StateCompleting = ''completing''"
| "State_String StateCompleted = ''completed''"
| "State_String StateFailed = ''failed''"
| "State_String StateCancelling = ''cancelling''"
| "State_String StateCanceled = ''canceled''"

definition IsOneOf :: "ustate \<Rightarrow> ustate list \<Rightarrow> bool" where
  "IsOneOf s states = list_ex (\<lambda>st. s = st) states"

lemma IsOneOf_iff [simp]: "IsOneOf s states \<longleftrightarrow> s \<in> set states"
  by (auto simp: IsOneOf_def list_ex_iff)

text \<open>A nil map of loaded images is \<open>None\<close>.\<close>

record update =
  u_ID :: string
  u_ClientRef :: string
  u_State :: ustate
  u_Progress :: int
  u_CreationTime :: int
  u_InitTime :: int
  u_FetchTime :: int
  u_UpdateTime :: int
  u_URIs :: "string list"
  u_Blobs :: "(digest, blob_fetch) gomap"
  u_TotalBlobsBytes :: int
  u_LoadedImages :: "string list option"
  u_FetchedBytes :: int
  u_FetchedBlobs :: int

text \<open>
  \<open>db_open_err\<close>: opening a database file (read-only or not); \<open>db_commit_err\<close>: storing a value
  and committing it; \<open>ulid_new\<close>: a new identifier.
\<close>

record 'x usys = "'x sys" +
  db_open_err :: "'x world \<Rightarrow> path \<Rightarrow> bool \<Rightarrow> error option"
  db_commit_err :: "'x world \<Rightarrow> path \<Rightarrow> error option"
  json_update :: "update \<Rightarrow> bytes res"
  json_to_update :: "bytes \<Rightarrow> update res"
  ulid_new :: "'x world \<Rightarrow> string res"

section \<open>The store\<close>

text \<open>The entries in the order in which a cursor visits them from the last one back.\<close>

definition cursor_back :: "(bytes, bytes) gomap \<Rightarrow> (bytes \<times> bytes) list" where
  "cursor_back b = rev (sort_key fst b)"

definition db_put ::
  "('x, 'z) usys_scheme \<Rightarrow> path \<Rightarrow> bytes \<Rightarrow> bytes \<Rightarrow> (bytes, bytes) gomap \<Rightarrow> 'x world \<Rightarrow> 'x world \<times> unit res" where
  "db_put X p key v b w =
     (case db_commit_err X w p of
        Some e \<Rightarrow> (w, Fail e)
      | None \<Rightarrow> (w\<lparr>w_db := (w_db w)(p := Some (gm_put key v b))\<rparr>, Ok ()))"

definition newStore :: "('x, 'z) usys_scheme \<Rightarrow> path \<Rightarrow> 'x world \<Rightarrow> 'x world \<times> unit res" where
  "newStore X p w =
     (case db_open_err X w p False of
        Some e \<Rightarrow> (w, Fail e)
      | None \<Rightarrow>
          (case w_db w p of
             Some _ \<Rightarrow> (w, Ok ())
           | None \<Rightarrow>
               (case db_commit_err X w p of
                  Some e \<Rightarrow> (w, Fail e)
                | None \<Rightarrow> (w\<lparr>w_db := (w_db w)(p := Some [])\<rparr>, Ok ()))))"

definition saveUpdate ::
  "('x, 'z) usys_scheme \<Rightarrow> path \<Rightarrow> bytes \<Rightarrow> update \<Rightarrow> 'x world \<Rightarrow> 'x world \<times> unit res" where
  "saveUpdate X p key u w =
     (case db_open_err X w p False of
        Some e \<Rightarrow> (w, Fail e)
      | None \<Rightarrow>
          sbind (slift (json_update X u) w) (\<lambda>data w.
            (case w_db w p of
               None \<Rightarrow> (w, Panic ''nil pointer dereference'')
             | Some b \<Rightarrow> db_put X p key data b w)))"

text \<open>\<open>lock\<close> holds the database open for writing while the function runs.\<close>

definition lock ::
  "('x, 'z) usys_scheme \<Rightarrow> path \<Rightarrow> (update \<times> 'x world \<Rightarrow> (update \<times> 'x world) \<times> unit res) \<Rightarrow>
   update \<times> 'x world \<Rightarrow> (update \<times> 'x world) \<times> unit res" where
  "lock X p fn s =
     (case db_open_err X (snd s) p False of
        Some e \<Rightarrow> (s, Fail e)
      | None \<Rightarrow> fn s)"

text \<open>
  Writing the update of a session: the value goes to the last key of the bucket.  The time of
  the update is set before anything can fail.
\<close>

definition session_write ::
  "('x, 'z) usys_scheme \<Rightarrow> path \<Rightarrow> update \<times> 'x world \<Rightarrow> (update \<times> 'x world) \<times> unit res" where
  "session_write X p s =
     (let u = (fst s)\<lparr>u_UpdateTime := w_clock (snd s)\<rparr>;
          w = snd s
      in case w_db w p of
           None \<Rightarrow> ((u, w), Panic ''nil pointer dereference'')
         | Some b \<Rightarrow>
             (case json_update X u of
                Fail e \<Rightarrow> ((u, w), Fail e)
              | Panic m \<Rightarrow> ((u, w), Panic m)
              | Ok data \<Rightarrow>
                  (case cursor_back b of
                     [] \<Rightarrow> ((u, w), Panic ''no key found in bucket, this should not happen'')
                   | (key, _) # _ \<Rightarrow>
                       (let (w', r) = db_put X p key data b w in ((u, w'), r)))))"

fun count_failed ::
  "('x, 'z) usys_scheme \<Rightarrow> string \<Rightarrow> (bytes \<times> bytes) list \<Rightarrow> int \<Rightarrow> int res"
where
  "count_failed X keySuffix [] n = Ok n"
| "count_failed X keySuffix ((k, v) # es) n =
     (if \<not> suffix keySuffix k then count_failed X keySuffix es n
      else rbind (json_to_update X v) (\<lambda>u.
        if u_State u = StateFailed then count_failed X keySuffix es (n + 1)
        else if u_State u = StateCompleted then Ok n
        else count_failed X keySuffix es n))"

definition countFailedUpdates ::
  "('x, 'z) usys_scheme \<Rightarrow> path \<Rightarrow> string \<Rightarrow> 'x world \<Rightarrow> int res" where
  "countFailedUpdates X p keySuffix w =
     (case db_open_err X w p True of
        Some e \<Rightarrow> Fail e
      | None \<Rightarrow>
          (case w_db w p of
             None \<Rightarrow> Panic ''nil pointer dereference''
           | Some b \<Rightarrow> count_failed X keySuffix (cursor_back b) 0))"

fun find_update ::
  "('x, 'z) usys_scheme \<Rightarrow> ustate list \<Rightarrow> (bytes \<times> bytes) list \<Rightarrow> update res"
where
  "find_update X states [] = Fail ErrUpdateNotFound"
| "find_update X states ((k, v) # es) =
     rbind (json_to_update X v) (\<lambda>u.
       if states = [] then Ok u
       else if IsOneOf (u_State u) states then Ok u
       else find_update X states es)"

definition getLastUpdateWithAnyOfStates ::
  "('x, 'z) usys_scheme \<Rightarrow> path \<Rightarrow> ustate list \<Rightarrow> 'x world \<Rightarrow> update res" where
  "getLastUpdateWithAnyOfStates X p states w =
     (case db_open_err X w p True of
        Some e \<Rightarrow> Fail e
      | None \<Rightarrow>
          (case w_db w p of
             None \<Rightarrow> Panic ''nil pointer dereference''
           | Some b \<Rightarrow> find_update X states (cursor_back b)))"

section \<open>Creating and finding updates\<close>

definition final_states :: "ustate list" where
  "final_states = [StateCompleted, StateFailed, StateCanceled]"

definition current_states :: "ustate list" where
  "current_states = [StateCreated, StateInitializing, StateInitialized, StateFetching, StateFetched,
     StateInstalling, StateInstalled, StateStarting, StateStarted, StateCompleting, StateCancelling]"

definition CountFailedUpdates ::
  "('x, 'z) usys_scheme \<Rightarrow> config \<Rightarrow> string \<Rightarrow> 'x world \<Rightarrow> 'x world \<times> int res" where
  "CountFailedUpdates X cfg clientRef w =
     sbind (newStore X (cf_db_file cfg) w) (\<lambda>_ w. slift (countFailedUpdates X (cf_db_file cfg) (''cref:'' @ clientRef) w) w)"

definition last_update ::
  "('x, 'z) usys_scheme \<Rightarrow> path \<Rightarrow> ustate list \<Rightarrow> 'x world \<Rightarrow> 'x world \<times> update res" where
  "last_update X p states w =
     sbind (newStore X p w) (\<lambda>_ w. slift (getLastUpdateWithAnyOfStates X p states w) w)"

definition GetLastUpdate :: "('x, 'z) usys_scheme \<Rightarrow> config \<Rightarrow> 'x world \<Rightarrow> 'x world \<times> update res" where
  "GetLastUpdate X cfg = last_update X (cf_db_file cfg) []"

definition GetFinalizedUpdate :: "('x, 'z) usys_scheme \<Rightarrow> config \<Rightarrow> 'x world \<Rightarrow> 'x world \<times> update res" where
  "GetFinalizedUpdate X cfg = last_update X (cf_db_file cfg) final_states"

definition GetLastSuccessfulUpdate :: "('x, 'z) usys_scheme \<Rightarrow> config \<Rightarrow> 'x world \<Rightarrow> 'x world \<times> update res" where
  "GetLastSuccessfulUpdate X cfg = last_update X (cf_db_file cfg) [StateCompleted]"

definition GetCurrentUpdate :: "('x, 'z) usys_scheme \<Rightarrow> config \<Rightarrow> 'x world \<Rightarrow> 'x world \<times> update res" where
  "GetCurrentUpdate X cfg = last_update X (cf_db_file cfg) current_states"

definition new_update :: "string \<Rightarrow> string \<Rightarrow> int \<Rightarrow> update" where
  "new_update i ref now =
     \<lparr>u_ID = i, u_ClientRef = ref, u_State = StateCreated, u_Progress = 0, u_CreationTime = now,
      u_InitTime = 0, u_FetchTime = 0, u_UpdateTime = 0, u_URIs = [], u_Blobs = [],
      u_TotalBlobsBytes = 0, u_LoadedImages = None, u_FetchedBytes = 0, u_FetchedBlobs = 0\<rparr>"

definition update_key :: "update \<Rightarrow> bytes" where
  "update_key u = u_ID u @ '':cref:'' @ u_ClientRef u"

definition NewUpdate ::
  "('x, 'z) usys_scheme \<Rightarrow> config \<Rightarrow> string \<Rightarrow> 'x world \<Rightarrow> 'x world \<times> update res" where
  "NewUpdate X cfg ref w =
     (case GetCurrentUpdate X cfg w of
        (w1, Ok _) \<Rightarrow> (w1, Fail (Err ''update already in progress''))
      | (w1, Panic m) \<Rightarrow> (w1, Panic m)
      | (w1, Fail err) \<Rightarrow>
          (if \<not> errors_Is err ErrUpdateNotFound then (w1, Fail err)
           else sbind (slift (ulid_new X w1) w1) (\<lambda>i w.
             sbind (newStore X (cf_db_file cfg) w) (\<lambda>_ w.
               let u = new_update i ref (w_clock w)
               in sbind (saveUpdate X (cf_db_file cfg) (update_key u) u w) (\<lambda>_ w. (w, Ok u))))))"

section \<open>The cursor\<close>

lemma set_cursor_back [simp]: "set (cursor_back b) = set b"
  by (simp add: cursor_back_def)

lemma cursor_back_Nil_iff [simp]: "cursor_back b = [] \<longleftrightarrow> b = []"
  by (metis set_cursor_back set_empty)

lemma cursor_back_empty [simp]: "cursor_back [] = []"
  by simp

lemma cursor_back_descending: "sorted (rev (map fst (cursor_back b)))"
  by (simp add: cursor_back_def rev_map)

lemma cursor_back_distinct:
  assumes "distinct (map fst b)"
  shows "distinct (map fst (cursor_back b))"
proof -
  have "mset (map fst (cursor_back b)) = mset (map fst b)"
    by (simp add: cursor_back_def)
  with assms show ?thesis by (metis mset_eq_imp_distinct_iff)
qed

lemma cursor_back_unique:
  assumes "distinct (map fst b)" and "distinct (map fst ys)" and "set ys = set b"
    and "sorted (rev (map fst ys))"
  shows "cursor_back b = ys"
proof -
  from assms(1-3) have "mset b = mset (rev ys)"
    by (metis distinct_map mset_rev set_eq_iff_mset_eq_distinct)
  moreover have "inj_on fst (set b)" using assms(1) by (simp add: distinct_map)
  moreover have "sorted (map fst (rev ys))" using assms(4) by (simp add: rev_map)
  ultimately have "sort_key fst b = rev ys" by (rule sort_key_inj_key_eq)
  then show ?thesis by (simp add: cursor_back_def)
qed

lemma set_gm_put:
  "distinct (map fst b) \<Longrightarrow> set (gm_put k v b) = insert (k, v) {e \<in> set b. fst e \<noteq> k}"
  by (induction b) (force split: if_splits)+

lemma distinct_gm_put: "distinct (map fst b) \<Longrightarrow> distinct (map fst (gm_put k v b))"
  by (simp add: distinct_update)

text \<open>Writing at the last key replaces the newest entry; a key above all others becomes the newest.\<close>

lemma cursor_back_put_last:
  assumes "distinct (map fst b)" and "cursor_back b = (k, v) # es"
  shows "cursor_back (gm_put k d b) = (k, d) # es"
proof (rule cursor_back_unique)
  note dist = cursor_back_distinct [OF assms(1), unfolded assms(2)]
  show "distinct (map fst (gm_put k d b))" by (rule distinct_gm_put [OF assms(1)])
  show "distinct (map fst ((k, d) # es))" using dist by simp
  have "set b = insert (k, v) (set es)" using assms(2) by (metis list.simps(15) set_cursor_back)
  moreover have "fst e \<noteq> k" if "e \<in> set es" for e using dist that by auto
  ultimately show "set ((k, d) # es) = set (gm_put k d b)"
    by (auto simp: set_gm_put [OF assms(1)])
  show "sorted (rev (map fst ((k, d) # es)))"
    using cursor_back_descending [of b] by (simp add: assms(2))
qed

lemma cursor_back_put_new:
  assumes "distinct (map fst b)" and "\<forall>k'\<in>fst ` set b. k' < k"
  shows "cursor_back (gm_put k d b) = (k, d) # cursor_back b"
proof (rule cursor_back_unique)
  show "distinct (map fst (gm_put k d b))" by (rule distinct_gm_put [OF assms(1)])
  show "distinct (map fst ((k, d) # cursor_back b))"
    using cursor_back_distinct [OF assms(1)] assms(2) by auto
  show "set ((k, d) # cursor_back b) = set (gm_put k d b)"
    using assms(2) by (auto simp: set_gm_put [OF assms(1)])
  show "sorted (rev (map fst ((k, d) # cursor_back b)))"
    using cursor_back_descending [of b] assms(2) by (auto simp: sorted_append intro: less_imp_le)
qed

section \<open>Searches as list functions\<close>

text \<open>The updates of the bucket, newest first.\<close>

definition bucket_updates :: "('x, 'z) usys_scheme \<Rightarrow> (bytes, bytes) gomap \<Rightarrow> update list res" where
  "bucket_updates X b = map_res (\<lambda>e. json_to_update X (snd e)) (cursor_back b)"

lemma find_update_eq:
  "map_res (\<lambda>e. json_to_update X (snd e)) es = Ok us \<Longrightarrow>
   find_update X states es =
     (case find (\<lambda>u. states = [] \<or> u_State u \<in> set states) us of
        None \<Rightarrow> Fail ErrUpdateNotFound | Some u \<Rightarrow> Ok u)"
  by (induction es arbitrary: us) (auto simp: rbind_Ok_iff)

lemma count_failed_eq:
  "map_res (\<lambda>e. json_to_update X (snd e)) es = Ok us \<Longrightarrow>
   count_failed X sfx es n = Ok (n + int (length
     (filter (\<lambda>u. u_State u = StateFailed)
       (takeWhile (\<lambda>u. u_State u \<noteq> StateCompleted)
         (map snd (filter (\<lambda>(k, u). suffix sfx k) (zip (map fst es) us)))))))"
  by (induction es arbitrary: us n) (auto simp: rbind_Ok_iff)

text \<open>Every state is either current or final.\<close>

lemma states_split: "s \<in> set current_states \<longleftrightarrow> s \<notin> set final_states"
  by (cases s) (simp_all add: current_states_def final_states_def)

section \<open>At most one update is in progress\<close>

text \<open>The JSON encoding of a record is read back as that record.\<close>

definition json_ok :: "('x, 'z) usys_scheme \<Rightarrow> bool" where
  "json_ok X \<longleftrightarrow> (\<forall>u d. json_update X u = Ok d \<longrightarrow> json_to_update X d = Ok u)"

definition db_wf :: "('x, 'z) usys_scheme \<Rightarrow> path \<Rightarrow> 'x world \<Rightarrow> bool" where
  "db_wf X p w \<longleftrightarrow>
     (case w_db w p of
        None \<Rightarrow> True
      | Some b \<Rightarrow>
          distinct (map fst b) \<and>
          (\<exists>us. bucket_updates X b = Ok us \<and> (\<forall>u\<in>set (tl us). u_State u \<in> set final_states)))"

text \<open>A new identifier is above every key of the bucket (identifiers are sortable by time).\<close>

definition fresh_id :: "('x, 'z) usys_scheme \<Rightarrow> path \<Rightarrow> 'x world \<Rightarrow> bool" where
  "fresh_id X p w \<longleftrightarrow>
     (\<forall>i ref b k. ulid_new X w = Ok i \<and> w_db w p = Some b \<and> k \<in> fst ` set b \<longrightarrow> k < i @ '':cref:'' @ ref)"

lemma newStore_result:
  assumes "newStore X p w = (w', r)"
  shows "w' = w \<or> w_db w p = None \<and> w' = w\<lparr>w_db := (w_db w)(p := Some [])\<rparr>"
    and "r = Ok () \<Longrightarrow> w_db w' p \<noteq> None"
  using assms by (auto simp: newStore_def split: option.splits)

lemma newStore_again: "newStore X p w = (w', Ok ()) \<Longrightarrow> db_open_err X w' p False = None \<Longrightarrow> newStore X p w' = (w', Ok ())"
  using newStore_result(2) [of X p w w' "Ok ()"] by (auto simp: newStore_def split: option.splits)

lemma newStore_keeps_wf: "db_wf X p w \<Longrightarrow> db_wf X p (fst (newStore X p w))"
  by (auto simp: newStore_def db_wf_def bucket_updates_def split: option.splits)

lemma last_update_result:
  assumes "last_update X p states w = (w', r)"
  shows "w' = fst (newStore X p w)"
    and "snd (newStore X p w) = Ok () \<Longrightarrow> r = getLastUpdateWithAnyOfStates X p states w'"
  using assms by (auto simp: last_update_def slift_def sbind_Ok_iff elim!: sbind.elims)

lemma session_write_db:
  assumes "session_write X p (u, w) = ((u', w'), r)"
  shows "u' = u\<lparr>u_UpdateTime := w_clock w\<rparr>"
    and "w' = w\<lparr>w_db := w_db w'\<rparr>"
    and "w_db w' p = w_db w p \<or>
      (\<exists>b k v es d. w_db w p = Some b \<and> cursor_back b = (k, v) # es \<and> json_update X u' = Ok d \<and>
         w_db w' p = Some (gm_put k d b) \<and> r = Ok ())"
    and "r = Ok () \<Longrightarrow> (\<exists>b k v es d. w_db w p = Some b \<and> cursor_back b = (k, v) # es \<and>
      json_update X u' = Ok d \<and> w_db w' p = Some (gm_put k d b))"
    and "q \<noteq> p \<Longrightarrow> w_db w' q = w_db w q"
    and "w_db w' p = w_db w p \<Longrightarrow> w' = w"
proof -
  let ?u = "u\<lparr>u_UpdateTime := w_clock w\<rparr>"
  have "u' = ?u \<and> (w' = w \<and> r \<noteq> Ok () \<or>
      (\<exists>b k v es d. w_db w p = Some b \<and> cursor_back b = (k, v) # es \<and> json_update X ?u = Ok d \<and>
         w' = w\<lparr>w_db := (w_db w)(p := Some (gm_put k d b))\<rparr> \<and> r = Ok ()))"
    using assms
    by (auto simp: session_write_def Let_def db_put_def split: option.splits res.splits list.splits)
  then consider (failed) "u' = ?u" "w' = w" "r \<noteq> Ok ()"
    | (put) b k v es d where "u' = ?u" "w_db w p = Some b" "cursor_back b = (k, v) # es" "json_update X ?u = Ok d"
        "w' = w\<lparr>w_db := (w_db w)(p := Some (gm_put k d b))\<rparr>" "r = Ok ()" by blast
  then have all: "u' = ?u \<and> w' = w\<lparr>w_db := w_db w'\<rparr> \<and> (w_db w' p = w_db w p \<or>
      (\<exists>b k v es d. w_db w p = Some b \<and> cursor_back b = (k, v) # es \<and> json_update X u' = Ok d \<and>
         w_db w' p = Some (gm_put k d b) \<and> r = Ok ())) \<and>
      (r = Ok () \<longrightarrow> (\<exists>b k v es d. w_db w p = Some b \<and> cursor_back b = (k, v) # es \<and>
         json_update X u' = Ok d \<and> w_db w' p = Some (gm_put k d b))) \<and>
      (\<forall>q. q \<noteq> p \<longrightarrow> w_db w' q = w_db w q)"
    by cases (simp, fastforce)
  then show "u' = ?u" "w' = w\<lparr>w_db := w_db w'\<rparr>"
    "w_db w' p = w_db w p \<or>
      (\<exists>b k v es d. w_db w p = Some b \<and> cursor_back b = (k, v) # es \<and> json_update X u' = Ok d \<and>
         w_db w' p = Some (gm_put k d b) \<and> r = Ok ())"
    "r = Ok () \<Longrightarrow> (\<exists>b k v es d. w_db w p = Some b \<and> cursor_back b = (k, v) # es \<and>
      json_update X u' = Ok d \<and> w_db w' p = Some (gm_put k d b))"
    "q \<noteq> p \<Longrightarrow> w_db w' q = w_db w q" by (elim conjE; blast)+
  show "w' = w" if eq: "w_db w' p = w_db w p"
  proof -
    have "w_db w' = w_db w" by (rule ext) (use all eq in metis)
    with all have "w' = w\<lparr>w_db := w_db w\<rparr>" by metis
    then show ?thesis by simp
  qed
qed

lemma session_write_keeps_wf:
  assumes "json_ok X" and "db_wf X p w" and "session_write X p (u, w) = ((u', w'), r)"
  shows "db_wf X p w'"
  using session_write_db(3) [OF assms(3)]
proof (elim disjE exE conjE)
  assume "w_db w' p = w_db w p"
  with assms(2) show ?thesis by (simp add: db_wf_def)
next
  fix b k v es d
  assume *: "w_db w p = Some b" "cursor_back b = (k, v) # es" "json_update X u' = Ok d"
    "w_db w' p = Some (gm_put k d b)"
  with assms(2) have dist: "distinct (map fst b)" by (simp add: db_wf_def)
  from assms(2) * obtain us where us: "map_res (\<lambda>e. json_to_update X (snd e)) ((k, v) # es) = Ok us"
    and final: "\<forall>u\<in>set (tl us). u_State u \<in> set final_states"
    by (auto simp: db_wf_def bucket_updates_def)
  from us obtain u0 us' where "map_res (\<lambda>e. json_to_update X (snd e)) es = Ok us'" "us = u0 # us'"
    by (auto simp: rbind_Ok_iff)
  moreover have "json_to_update X d = Ok u'" using assms(1) *(3) by (simp add: json_ok_def)
  ultimately show ?thesis
    using * dist final
    by (simp add: db_wf_def bucket_updates_def cursor_back_put_last [OF dist *(2)] distinct_gm_put)
qed

section \<open>A new update\<close>

lemma saveUpdate_Ok:
  assumes "saveUpdate X p key u w = (w', Ok ())"
  shows "\<exists>b d. w_db w p = Some b \<and> json_update X u = Ok d \<and> w' = w\<lparr>w_db := (w_db w)(p := Some (gm_put key d b))\<rparr>"
  using assms
  by (auto simp: saveUpdate_def stmt_iffs db_put_def split: option.splits)

lemma NewUpdate_OkE:
  assumes "NewUpdate X cfg ref w = (w', Ok u)"
  obtains w1 err i w2 b d where "GetCurrentUpdate X cfg w = (w1, Fail err)"
    and "errors_Is err ErrUpdateNotFound" and "ulid_new X w1 = Ok i" and "newStore X (cf_db_file cfg) w1 = (w2, Ok ())"
    and "u = new_update i ref (w_clock w2)" and "w_db w2 (cf_db_file cfg) = Some b" and "json_update X u = Ok d"
    and "w' = w2\<lparr>w_db := (w_db w2)(cf_db_file cfg := Some (gm_put (update_key u) d b))\<rparr>"
proof -
  obtain w1 r where cur: "GetCurrentUpdate X cfg w = (w1, r)" by force
  with assms obtain err where r: "r = Fail err" "errors_Is err ErrUpdateNotFound"
    by (auto simp: NewUpdate_def split: res.splits if_splits)
  from cur r assms obtain i where i: "ulid_new X w1 = Ok i"
    and rest: "sbind (newStore X (cf_db_file cfg) w1) (\<lambda>_ w. let u = new_update i ref (w_clock w)
      in sbind (saveUpdate X (cf_db_file cfg) (update_key u) u w) (\<lambda>_ w. (w, Ok u))) = (w', Ok u)"
    by (auto simp: NewUpdate_def stmt_iffs)
  from rest obtain w2 where w2: "newStore X (cf_db_file cfg) w1 = (w2, Ok ())" "u = new_update i ref (w_clock w2)"
    "saveUpdate X (cf_db_file cfg) (update_key u) u w2 = (w', Ok ())"
    by (auto simp: sbind_Ok_iff Let_def)
  from saveUpdate_Ok [OF w2(3)] obtain b d where "w_db w2 (cf_db_file cfg) = Some b" "json_update X u = Ok d"
    "w' = w2\<lparr>w_db := (w_db w2)(cf_db_file cfg := Some (gm_put (update_key u) d b))\<rparr>" by blast
  then show ?thesis using that cur r i w2 by blast
qed

text \<open>The errors of the database library are not the sentinel of this package.\<close>

definition db_errors_ok :: "('x, 'z) usys_scheme \<Rightarrow> bool" where
  "db_errors_ok X \<longleftrightarrow>
     (\<forall>w p ro e. db_open_err X w p ro = Some e \<longrightarrow> \<not> errors_Is e ErrUpdateNotFound) \<and>
     (\<forall>w p e. db_commit_err X w p = Some e \<longrightarrow> \<not> errors_Is e ErrUpdateNotFound)"

lemma errors_Is_refl [simp]: "errors_Is ErrUpdateNotFound ErrUpdateNotFound"
  by (simp add: errors_Is_def)

lemma newStore_not_missing:
  "db_errors_ok X \<Longrightarrow> newStore X p w = (w', Fail e) \<Longrightarrow> \<not> errors_Is e ErrUpdateNotFound"
  by (auto simp: newStore_def db_errors_ok_def split: option.splits)

lemma newStore_no_panic: "newStore X p w \<noteq> (w', Panic m)"
  by (auto simp: newStore_def split: option.splits)

text \<open>No update in progress means that every update of the bucket is final.\<close>

lemma none_current:
  assumes "db_wf X (cf_db_file cfg) w" and "db_errors_ok X"
    and "GetCurrentUpdate X cfg w = (w1, Fail err)" and "errors_Is err ErrUpdateNotFound"
  shows "w1 = fst (newStore X (cf_db_file cfg) w)"
    and "\<exists>b us. w_db w1 (cf_db_file cfg) = Some b \<and> bucket_updates X b = Ok us \<and> (\<forall>u\<in>set us. u_State u \<in> set final_states)"
proof -
  show w1: "w1 = fst (newStore X (cf_db_file cfg) w)"
    using last_update_result(1) assms(3) unfolding GetCurrentUpdate_def by blast
  obtain r where ns: "newStore X (cf_db_file cfg) w = (w1, r)" using w1 by (cases "newStore X (cf_db_file cfg) w") simp
  have r: "r = Ok ()"
  proof (cases r)
    case (Fail e)
    with ns assms(3) have "err = e" by (simp add: GetCurrentUpdate_def last_update_def)
    with newStore_not_missing [OF assms(2)] ns Fail assms(4) show ?thesis by blast
  qed (use ns newStore_no_panic [of X "cf_db_file cfg" w w1] in auto)
  with ns newStore_result(2) obtain b where b: "w_db w1 (cf_db_file cfg) = Some b" by blast
  from newStore_keeps_wf [OF assms(1)] ns have "db_wf X (cf_db_file cfg) w1" by simp
  with b obtain us where us: "bucket_updates X b = Ok us" by (auto simp: db_wf_def)
  have "getLastUpdateWithAnyOfStates X (cf_db_file cfg) current_states w1 = Fail err"
    using last_update_result(2) [OF assms(3) [unfolded GetCurrentUpdate_def]] ns r by simp
  then have "db_open_err X w1 (cf_db_file cfg) True = Some err \<or> find_update X current_states (cursor_back b) = Fail err"
    using b by (auto simp: getLastUpdateWithAnyOfStates_def split: option.splits)
  with assms(2,4) have "find_update X current_states (cursor_back b) = Fail err"
    by (auto simp: db_errors_ok_def)
  with find_update_eq [OF us [unfolded bucket_updates_def], of current_states]
  have "find (\<lambda>u. current_states = [] \<or> u_State u \<in> set current_states) us = None"
    by (auto split: option.splits)
  then have "\<forall>u\<in>set us. u_State u \<notin> set current_states"
    by (auto simp: find_None_iff)
  with b us states_split show "\<exists>b us. w_db w1 (cf_db_file cfg) = Some b \<and> bucket_updates X b = Ok us \<and>
      (\<forall>u\<in>set us. u_State u \<in> set final_states)" by blast
qed

lemma NewUpdate_bucket:
  assumes "NewUpdate X cfg ref w = (w', Ok u)" and "db_wf X (cf_db_file cfg) w" and "db_errors_ok X" and "json_ok X"
    and "fresh_id X (cf_db_file cfg) (fst (newStore X (cf_db_file cfg) w))"
  shows "u_State u = StateCreated \<and> (\<exists>b b' us. w_db w' (cf_db_file cfg) = Some b' \<and> w_db (fst (newStore X (cf_db_file cfg) w)) (cf_db_file cfg) = Some b \<and>
    bucket_updates X b = Ok us \<and> (\<forall>v\<in>set us. u_State v \<in> set final_states) \<and>
    distinct (map fst b') \<and> bucket_updates X b' = Ok (u # us))"
proof -
  from NewUpdate_OkE [OF assms(1)] obtain w1 err i w2 b d
    where cur: "GetCurrentUpdate X cfg w = (w1, Fail err)" "errors_Is err ErrUpdateNotFound"
      and i: "ulid_new X w1 = Ok i" and ns: "newStore X (cf_db_file cfg) w1 = (w2, Ok ())"
      and u: "u = new_update i ref (w_clock w2)" and b: "w_db w2 (cf_db_file cfg) = Some b"
      and d: "json_update X u = Ok d" and w': "w' = w2\<lparr>w_db := (w_db w2)(cf_db_file cfg := Some (gm_put (update_key u) d b))\<rparr>"
    by blast
  from none_current [OF assms(2,3) cur] obtain b0 us where w1: "w1 = fst (newStore X (cf_db_file cfg) w)"
    and b0: "w_db w1 (cf_db_file cfg) = Some b0" "bucket_updates X b0 = Ok us" "\<forall>v\<in>set us. u_State v \<in> set final_states"
    by blast
  from newStore_result(1) [OF ns] b0 have w2: "w2 = w1" by auto
  with b b0 have [simp]: "b0 = b" by simp
  from newStore_keeps_wf [OF assms(2)] w1 b0 have dist: "distinct (map fst b)"
    by (auto simp: db_wf_def)
  have "\<forall>k\<in>fst ` set b. k < update_key u"
    using assms(5) i b0 w1 by (auto simp: fresh_id_def update_key_def u new_update_def)
  then have "cursor_back (gm_put (update_key u) d b) = (update_key u, d) # cursor_back b"
    by (rule cursor_back_put_new [OF dist])
  moreover have "json_to_update X d = Ok u" using assms(4) d by (simp add: json_ok_def)
  ultimately have "bucket_updates X (gm_put (update_key u) d b) = Ok (u # us)"
    using b0 by (simp add: bucket_updates_def)
  moreover have "u_State u = StateCreated" by (simp add: u new_update_def)
  ultimately show ?thesis
    using b0 w1 w' distinct_gm_put [OF dist] by auto
qed

lemma NewUpdate_keeps_wf:
  assumes "NewUpdate X cfg ref w = (w', Ok u)" and "db_wf X (cf_db_file cfg) w" and "db_errors_ok X" and "json_ok X"
    and "fresh_id X (cf_db_file cfg) (fst (newStore X (cf_db_file cfg) w))"
  shows "db_wf X (cf_db_file cfg) w'"
  using NewUpdate_bucket [OF assms] by (auto simp: db_wf_def)

lemma NewUpdate_then_current:
  assumes "NewUpdate X cfg ref w = (w', Ok u)" and "db_wf X (cf_db_file cfg) w" and "db_errors_ok X" and "json_ok X"
    and "fresh_id X (cf_db_file cfg) (fst (newStore X (cf_db_file cfg) w))"
    and "db_open_err X w' (cf_db_file cfg) False = None" and "db_open_err X w' (cf_db_file cfg) True = None"
  shows "GetCurrentUpdate X cfg w' = (w', Ok u)"
    and "NewUpdate X cfg ref' w' = (w', Fail (Err ''update already in progress''))"
proof -
  from NewUpdate_bucket [OF assms(1-5)] obtain b' us where b': "w_db w' (cf_db_file cfg) = Some b'"
    "bucket_updates X b' = Ok (u # us)" "u_State u = StateCreated" by blast
  have "newStore X (cf_db_file cfg) w' = (w', Ok ())" using b' assms(6) by (simp add: newStore_def)
  then show cur: "GetCurrentUpdate X cfg w' = (w', Ok u)"
    using b' find_update_eq [OF b'(2) [unfolded bucket_updates_def], of current_states] assms(7)
    by (simp add: GetCurrentUpdate_def last_update_def getLastUpdateWithAnyOfStates_def slift_def
        current_states_def)
  then show "NewUpdate X cfg ref' w' = (w', Fail (Err ''update already in progress''))"
    by (simp add: NewUpdate_def)
qed

end
