(* ===== verification/Tree.thy ===== *)
theory Tree
  imports Refs
begin

text \<open>
  The Merkle tree of an app, \<open>pkg/compose/tree.go\<close>: nodes, the depth-limited walk with a
  callback, and the node count.  The lemmas relate the recursive walk to one pass over the
  list of nodes in visit order.
\<close>

datatype tree = Node (t_desc: descriptor) (t_type: blob_type) (t_children: "tree list")

definition MaxMerkleTreeDepth :: nat where
  "MaxMerkleTreeDepth = 10"

definition max_depth_error :: error where
  "max_depth_error = Err (''the maximum tree depth is reached; max depth: '' @ show_nat MaxMerkleTreeDepth)"

text \<open>
  The callback works on a state; it can fail, or panic.  \<open>walk_children\<close> is the loop over the
  children, which returns at the first error.
\<close>

type_synonym 's processor = "tree \<Rightarrow> nat \<Rightarrow> 's \<Rightarrow> unit res \<times> 's"

fun walk :: "'s processor \<Rightarrow> nat \<Rightarrow> tree \<Rightarrow> 's \<Rightarrow> unit res \<times> 's"
  and walk_children :: "'s processor \<Rightarrow> nat \<Rightarrow> tree list \<Rightarrow> 's \<Rightarrow> unit res \<times> 's"
where
  "walk fn depth (Node d ty cs) s =
     (if MaxMerkleTreeDepth < depth then (Fail max_depth_error, s)
      else (case fn (Node d ty cs) depth s of
              (Ok _, s') \<Rightarrow> walk_children fn (depth + 1) cs s'
            | (r, s') \<Rightarrow> (r, s')))"
| "walk_children fn depth [] s = (Ok (), s)"
| "walk_children fn depth (c # cs) s =
     (case walk fn depth c s of
        (Ok _, s') \<Rightarrow> walk_children fn depth cs s'
      | (r, s') \<Rightarrow> (r, s'))"

definition Walk :: "tree \<Rightarrow> 's processor \<Rightarrow> 's \<Rightarrow> unit res \<times> 's" where
  "Walk t fn s = walk fn 0 t s"

definition NodeCount :: "tree \<Rightarrow> int res" where
  "NodeCount t =
     (case Walk t (\<lambda>node depth n. (Ok (), n + 1)) (0::int) of
        (Ok _, n) \<Rightarrow> Ok n
      | (Fail e, _) \<Rightarrow> Panic (err_msg e)
      | (Panic m, _) \<Rightarrow> Panic m)"

definition t_HasRef :: "tree \<Rightarrow> bool" where
  "t_HasRef t = desc_HasRef (t_desc t)"

definition t_Ref :: "tree \<Rightarrow> string" where
  "t_Ref t = desc_Ref (t_desc t)"

definition AppServiceHashLabelKey :: string where
  "AppServiceHashLabelKey = ''io.compose-spec.config-hash''"

text \<open>Reading a nil map or a missing key yields the empty string.\<close>

definition annot_get :: "(string, string) gomap option \<Rightarrow> string \<Rightarrow> string" where
  "annot_get m k =
     (case m of None \<Rightarrow> '''' | Some a \<Rightarrow> (case map_of a k of None \<Rightarrow> '''' | Some v \<Rightarrow> v))"

definition GetServiceHash :: "tree \<Rightarrow> string" where
  "GetServiceHash t =
     (if t_type t \<in> {BlobTypeImageIndex, BlobTypeSkopeoImageIndex, BlobTypeImageManifest}
      then annot_get (d_annot (t_desc t)) AppServiceHashLabelKey
      else '''')"

section \<open>The walk as one pass over the visited nodes\<close>

text \<open>
  Pre-order, nodes with their depth; a subtree that starts below the maximum depth is the
  single entry \<open>None\<close>, where the walk reports the depth error.
\<close>

fun visits :: "nat \<Rightarrow> tree \<Rightarrow> (tree \<times> nat) option list"
  and visits_list :: "nat \<Rightarrow> tree list \<Rightarrow> (tree \<times> nat) option list"
where
  "visits depth (Node d ty cs) =
     (if MaxMerkleTreeDepth < depth then [None]
      else Some (Node d ty cs, depth) # visits_list (depth + 1) cs)"
| "visits_list depth [] = []"
| "visits_list depth (c # cs) = visits depth c @ visits_list depth cs"

fun run_visits :: "'s processor \<Rightarrow> (tree \<times> nat) option list \<Rightarrow> 's \<Rightarrow> unit res \<times> 's" where
  "run_visits fn [] s = (Ok (), s)"
| "run_visits fn (None # vs) s = (Fail max_depth_error, s)"
| "run_visits fn (Some (t, d) # vs) s =
     (case fn t d s of (Ok _, s') \<Rightarrow> run_visits fn vs s' | (r, s') \<Rightarrow> (r, s'))"

lemma run_visits_append:
  "run_visits fn (us @ vs) s =
     (case run_visits fn us s of (Ok _, s') \<Rightarrow> run_visits fn vs s' | (r, s') \<Rightarrow> (r, s'))"
  by (induction fn us s rule: run_visits.induct) (auto split: prod.splits res.splits)

lemma walk_run_visits:
  "walk fn depth t s = run_visits fn (visits depth t) s"
  "walk_children fn depth cs s = run_visits fn (visits_list depth cs) s"
  by (induction fn depth t s and fn depth cs s rule: walk_walk_children.induct)
    (auto simp: run_visits_append split: prod.splits res.splits)

text \<open>All nodes of a tree with their depths, and the height.\<close>

fun nodes :: "nat \<Rightarrow> tree \<Rightarrow> (tree \<times> nat) list" where
  "nodes depth (Node d ty cs) = (Node d ty cs, depth) # concat (map (nodes (depth + 1)) cs)"

fun height :: "tree \<Rightarrow> nat" where
  "height (Node d ty cs) = (if cs = [] then 0 else Suc (Max (set (map height cs))))"

definition tree_size :: "tree \<Rightarrow> nat" where
  "tree_size t = length (nodes 0 t)"

lemma height_child: "c \<in> set cs \<Longrightarrow> height c < height (Node d ty cs)"
proof -
  assume "c \<in> set cs"
  then have "height c \<le> Max (height ` set cs)" by (intro Max_ge) auto
  then have "height c < Suc (Max (height ` set cs))" by (rule le_imp_less_Suc)
  with \<open>c \<in> set cs\<close> show ?thesis by auto
qed

lemma visits_list_concat: "visits_list depth cs = concat (map (visits depth) cs)"
  by (induction cs) auto

lemma visits_shallow:
  "height t + depth \<le> MaxMerkleTreeDepth \<Longrightarrow> visits depth t = map Some (nodes depth t)"
proof (induction t arbitrary: depth)
  case (Node d ty cs)
  have "visits (depth + 1) c = map Some (nodes (depth + 1) c)" if "c \<in> set cs" for c
    using Node.prems height_child [OF that, of d ty] by (intro Node.IH that) linarith
  then have "map (visits (depth + 1)) cs = map (map Some \<circ> nodes (depth + 1)) cs"
    by (intro map_cong) auto
  with Node.prems show ?case
    by (simp only: visits.simps nodes.simps visits_list_concat map_concat list.map map_map) simp
qed

lemma visits_deep:
  "MaxMerkleTreeDepth < height t + depth \<Longrightarrow> None \<in> set (visits depth t)"
proof (induction t arbitrary: depth)
  case (Node d ty cs)
  show ?case
  proof (cases "MaxMerkleTreeDepth < depth")
    case True
    then show ?thesis by simp
  next
    case False
    with Node.prems have "cs \<noteq> []" by auto
    then have "Max (set (map height cs)) \<in> set (map height cs)" by (intro Max_in) auto
    then obtain c where c: "c \<in> set cs" "height c = Max (set (map height cs))" by auto
    with Node.prems \<open>cs \<noteq> []\<close> have "MaxMerkleTreeDepth < height c + (depth + 1)" by simp
    from Node.IH [OF c(1) this] c(1) False show ?thesis by (auto simp: visits_list_concat)
  qed
qed

lemma run_visits_total:
  assumes "\<And>t d s. fn t d s = (Ok (), g t d s)"
  shows "run_visits fn (map Some ns) s = (Ok (), fold (\<lambda>(t, d) s. g t d s) ns s)"
  by (induction ns arbitrary: s) (auto simp: assms)

lemma run_visits_None:
  assumes "\<And>t d s. fn t d s = (Ok (), g t d s)" and "None \<in> set vs"
  shows "fst (run_visits fn vs s) = Fail max_depth_error"
  using assms(2)
proof (induction vs arbitrary: s)
  case (Cons v vs)
  then show ?case by (cases v) (auto simp: assms(1))
qed simp

text \<open>A callback that fails at a node stops the walk there, with that error.\<close>

lemma run_visits_stops:
  assumes "run_visits fn us s = (Ok (), s')" and "fn t d s' = (Fail e, s'')"
  shows "run_visits fn (us @ Some (t, d) # vs) s = (Fail e, s'')"
  using assms by (simp add: run_visits_append)

text \<open>An invariant of the callback's successful steps holds at the end of a walk that succeeds.\<close>

lemma run_visits_invariant:
  assumes "run_visits fn vs s = (Ok u, s')" and "P s"
    and "\<And>t d s s'. Some (t, d) \<in> set vs \<Longrightarrow> P s \<Longrightarrow> fn t d s = (Ok (), s') \<Longrightarrow> P s'"
  shows "P s'"
  using assms by (induction fn vs s rule: run_visits.induct) (auto split: prod.splits res.splits)

lemma Walk_shallow:
  assumes "height t \<le> MaxMerkleTreeDepth" and "\<And>t d s. fn t d s = (Ok (), g t d s)"
  shows "Walk t fn s = (Ok (), fold (\<lambda>(t, d) s. g t d s) (nodes 0 t) s)"
  using assms(1) by (simp add: Walk_def walk_run_visits visits_shallow run_visits_total [OF assms(2)])

lemma Walk_deep:
  assumes "MaxMerkleTreeDepth < height t" and "\<And>t d s. fn t d s = (Ok (), g t d s)"
  shows "fst (Walk t fn s) = Fail max_depth_error"
  using assms(1)
  by (simp add: Walk_def walk_run_visits visits_deep run_visits_None [OF assms(2)])

lemma fold_count: "fold (\<lambda>(t, d) n. n + 1) ns (m::int) = m + int (length ns)"
  by (induction ns arbitrary: m) auto

lemma NodeCount_eq:
  "NodeCount t = (if height t \<le> MaxMerkleTreeDepth then Ok (int (tree_size t))
                  else Panic (err_msg max_depth_error))"
proof (cases "height t \<le> MaxMerkleTreeDepth")
  case True
  then show ?thesis
    by (simp add: NodeCount_def Walk_shallow [where g = "\<lambda>t d n. n + 1"] fold_count tree_size_def)
next
  case False
  then have "fst (Walk t (\<lambda>node depth n. (Ok (), n + 1)) (0::int)) = Fail max_depth_error"
    by (intro Walk_deep [where g = "\<lambda>t d n. n + 1"]) auto
  with False show ?thesis by (auto simp: NodeCount_def split: prod.splits)
qed


text \<open>What the processor keeps at every node, the walk keeps.\<close>

lemma walk_keeps:
  assumes step: "\<And>t d s. P s \<Longrightarrow> P (snd (fn t d s))"
  shows "P s \<Longrightarrow> P (snd (walk fn depth t s))"
proof (induction t arbitrary: depth s)
  case (Node d ty cs)
  have children: "P (snd (walk_children fn depth ks s))" if "set ks \<subseteq> set cs" and "P s" for ks depth s
    using that
  proof (induction ks arbitrary: s)
    case (Cons c ks)
    obtain r s1 where w: "walk fn depth c s = (r, s1)" by (metis surj_pair)
    with Node.IH [of c s depth] Cons.prems have "P s1" by simp
    with Cons w show ?case by (cases r) simp_all
  qed simp
  obtain r s1 where f: "fn (Node d ty cs) depth s = (r, s1)" by (metis surj_pair)
  with step [of s "Node d ty cs" depth] Node.prems have "P s1" by simp
  with f children [of cs s1 "depth + 1"] Node.prems show ?case by (cases r) simp_all
qed

lemma Walk_keeps:
  assumes "\<And>t d s. P s \<Longrightarrow> P (snd (fn t d s))" and "P s"
  shows "P (snd (Walk t fn s))"
  unfolding Walk_def using assms by (rule walk_keeps)

end
