(* ===== verification/Image.thy ===== *)
theory Image
  imports Tree BlobOps
begin

text \<open>
  Container images, \<open>pkg/compose/image.go\<close>: reading and validating an image root, the image
  manifest, and the tree of an image (index, manifests of the platform, configurations and
  layers).  The lemmas give the shape of every tree that is loaded.
\<close>

definition ImageRootMaxSize :: int where
  "ImageRootMaxSize = 100 * 1024"

section \<open>Reading the root\<close>

definition validateRoot :: "'z lib_scheme \<Rightarrow> image_root \<Rightarrow> blob_type res" where
  "validateRoot L root =
     (if ir_fslayers root \<noteq> [] then Fail (Err ''media-type: schema 1 not supported'')
      else if is_manifest_type L (ir_media root) then
        (if ir_manifests root \<noteq> [] \<or> is_index_type L (ir_media root)
         then Fail (Err (''media-type: expected manifest but found index ('' @ ir_media root @ '')''))
         else Ok BlobTypeImageManifest)
      else if is_index_type L (ir_media root) then
        (if ir_config root \<noteq> [] \<or> ir_layers root \<noteq> [] \<or> is_manifest_type L (ir_media root)
         then Fail (Err (''media-type: expected index but found manifest ('' @ ir_media root @ '')''))
         else Ok BlobTypeImageIndex)
      else if ir_schema root = 2 \<and> ir_manifests root \<noteq> [] then Ok BlobTypeSkopeoImageIndex
      else Ok BlobTypeUnknown)"

definition ReadImageRoot ::
  "'z lib_scheme \<Rightarrow> ctx \<Rightarrow> provider \<Rightarrow> string \<Rightarrow> (image_ref \<times> image_root \<times> blob_type \<times> descriptor) res"
where
  "ReadImageRoot L c pv ref =
     rbind (ParseImageRef L ref) (\<lambda>imageRef.
       if ig_digest imageRef = ''''
       then Fail (Err ''unsupported image reference format; digest is required'')
       else rbind (ReadBlobWithReadLimit L pv c ref ImageRootMaxSize) (\<lambda>b.
         rbind (json_image_root L b) (\<lambda>imageRoot.
           rcatch (validateRoot L imageRoot)
             (\<lambda>ty. Ok (imageRef, imageRoot, ty,
                zero_desc\<lparr>d_media := ir_media imageRoot, d_digest := ig_digest imageRef,
                          d_size := int (length b), d_urls := [ref]\<rparr>))
             (\<lambda>e. Fail (Err (''invalid image root: '' @ err_msg e))))))"

definition ReadImageManifest ::
  "'z lib_scheme \<Rightarrow> ctx \<Rightarrow> provider \<Rightarrow> string \<Rightarrow> int \<Rightarrow> manifest res" where
  "ReadImageManifest L c pv ref sz =
     rbind (ref_parse L ref) (\<lambda>s.
       if ref_digest L s = ''''
       then Fail (Err ''unsupported image reference format; digest is required'')
       else rbind (ReadBlobWithResolving L pv c ref sz) (json_manifest L))"

definition ParseImageRootAsManifest ::
  "'z lib_scheme \<Rightarrow> image_root \<Rightarrow> (descriptor \<times> descriptor list) res" where
  "ParseImageRootAsManifest L root =
     (if \<not> is_manifest_type L (ir_media root)
      then Fail (Err (''invalid image root type; expected manifest, got: '' @ ir_media root))
      else rbind (json_desc L (ir_config root)) (\<lambda>configDesc.
        rbind (json_descs L (ir_layers root)) (\<lambda>layerDescs. Ok (configDesc, layerDescs))))"

section \<open>The tree of an image\<close>

definition config_node :: "image_ref \<Rightarrow> descriptor \<Rightarrow> tree" where
  "config_node r d = Node (d\<lparr>d_urls := [ImageRef_GetBlobRef r (d_digest d)]\<rparr>) BlobTypeImageConfig []"

text \<open>The loop over the layers, with the set of digests seen so far (\<open>layersMap\<close>).\<close>

fun layer_nodes :: "image_ref \<Rightarrow> digest list \<Rightarrow> descriptor list \<Rightarrow> tree list" where
  "layer_nodes r seen [] = []"
| "layer_nodes r seen (l # ls) =
     (if d_digest l \<in> set seen then layer_nodes r seen ls
      else Node (l\<lparr>d_urls := [ImageRef_GetBlobRef r (d_digest l)]\<rparr>) BlobTypeImageLayer []
             # layer_nodes r (d_digest l # seen) ls)"

text \<open>
  The loop over the manifests of an index.  A manifest keeps the reference of its index after its
  own.  The platform of a descriptor is a pointer, so a missing one panics.
\<close>

fun manifest_nodes ::
  "'z lib_scheme \<Rightarrow> ctx \<Rightarrow> provider \<Rightarrow> (platform \<Rightarrow> bool) \<Rightarrow> image_ref \<Rightarrow> bool \<Rightarrow> descriptor \<Rightarrow>
   descriptor list \<Rightarrow> tree list res"
where
  "manifest_nodes L c pv pm rootRef skopeo rootDesc [] = Ok []"
| "manifest_nodes L c pv pm rootRef skopeo rootDesc (d # ds) =
     rbind (if skopeo then Ok True
            else (case d_platform d of
                    None \<Rightarrow> Panic ''nil pointer dereference''
                  | Some p \<Rightarrow> Ok (pm p)))
       (\<lambda>use.
         if \<not> use then manifest_nodes L c pv pm rootRef skopeo rootDesc ds
         else
           (let manifestRef = ImageRef_GetBlobRef rootRef (d_digest d) in
            rbind (ReadImageManifest L c pv manifestRef (d_size d)) (\<lambda>m.
              rbind (manifest_nodes L c pv pm rootRef skopeo rootDesc ds) (\<lambda>ns.
                Ok (Node (d\<lparr>d_urls := manifestRef # d_urls rootDesc\<rparr>) BlobTypeImageManifest
                      (config_node rootRef (m_config m) # layer_nodes rootRef [] (m_layers m))
                    # ns)))))"

definition LoadImageTree ::
  "'z lib_scheme \<Rightarrow> ctx \<Rightarrow> provider \<Rightarrow> (platform \<Rightarrow> bool) \<Rightarrow> string \<Rightarrow> tree res" where
  "LoadImageTree L c pv pm ref =
     rbind (ReadImageRoot L (WithBlobType c BlobTypeImageIndex) pv ref)
       (\<lambda>(rootRef, imageRoot, ty, rootDesc).
         if ty \<in> {BlobTypeSkopeoImageIndex, BlobTypeImageIndex} then
           rbind (json_descs L (ir_manifests imageRoot)) (\<lambda>childrenDescs.
             rbind (manifest_nodes L c pv pm rootRef (ty = BlobTypeSkopeoImageIndex) rootDesc childrenDescs)
               (\<lambda>ns. Ok (Node rootDesc ty ns)))
         else if ty = BlobTypeImageManifest then
           rbind (ParseImageRootAsManifest L imageRoot) (\<lambda>(configDesc, layerDescs).
             Ok (Node rootDesc ty (config_node rootRef configDesc # layer_nodes rootRef [] layerDescs)))
         else Fail (Err (''unsupported image root type: '' @ d_media rootDesc)))"

section \<open>Configuration and layers of a loaded image\<close>

fun last_children :: "tree list \<Rightarrow> tree list \<Rightarrow> tree list" where
  "last_children cur [] = cur"
| "last_children cur (t # ts) = last_children (if t_children t \<noteq> [] then t_children t else cur) ts"

fun config_and_layers ::
  "'z lib_scheme \<Rightarrow> string \<Rightarrow> tree list \<Rightarrow> descriptor option \<Rightarrow> descriptor list \<Rightarrow>
   (descriptor option \<times> descriptor list) res"
where
  "config_and_layers L media [] config layers = Ok (config, layers)"
| "config_and_layers L media (t # ts) config layers =
     (if is_config_type L (d_media (t_desc t))
      then config_and_layers L media ts (Some (t_desc t)) layers
      else if is_layer_type L (d_media (t_desc t))
      then config_and_layers L media ts config (layers @ [t_desc t])
      else Fail (Err (''invalid image config or layer format: '' @ media)))"

definition GetImageConfigAndLayers ::
  "'z lib_scheme \<Rightarrow> tree \<Rightarrow> (descriptor option \<times> descriptor list) res" where
  "GetImageConfigAndLayers L t =
     (let media = d_media (t_desc t) in
      if is_index_type L media
      then config_and_layers L media (last_children [] (t_children t)) None []
      else if is_manifest_type L media then config_and_layers L media (t_children t) None []
      else Fail (Err (''invalid image root blob format: '' @ media)))"

section \<open>The shape of a loaded tree\<close>

text \<open>The children of a manifest: the configuration, then the layers, each digest once.\<close>

definition image_parts :: "tree list \<Rightarrow> bool" where
  "image_parts ts \<longleftrightarrow>
     (\<exists>c ls. ts = c # ls \<and> t_type c = BlobTypeImageConfig \<and> t_children c = [] \<and>
        (\<forall>l\<in>set ls. t_type l = BlobTypeImageLayer \<and> t_children l = []) \<and>
        distinct (map (\<lambda>l. d_digest (t_desc l)) ls))"

definition image_tree_ok :: "tree \<Rightarrow> bool" where
  "image_tree_ok t \<longleftrightarrow>
     (t_type t = BlobTypeImageManifest \<and> image_parts (t_children t)) \<or>
     (t_type t \<in> {BlobTypeImageIndex, BlobTypeSkopeoImageIndex} \<and>
      (\<forall>m\<in>set (t_children t). t_type m = BlobTypeImageManifest \<and> image_parts (t_children m)))"

text \<open>Every node has a reference (a non-empty URL list).\<close>

fun all_have_ref :: "tree \<Rightarrow> bool" where
  "all_have_ref (Node d ty cs) = (d_urls d \<noteq> [] \<and> list_all all_have_ref cs)"

lemma all_have_ref_Node:
  "all_have_ref (Node d ty cs) \<longleftrightarrow> d_urls d \<noteq> [] \<and> (\<forall>c\<in>set cs. all_have_ref c)"
  by (simp add: list_all_iff)

declare all_have_ref.simps [simp del]

lemma all_have_ref_nodes: "all_have_ref t \<Longrightarrow> (n, k) \<in> set (nodes d t) \<Longrightarrow> t_HasRef n"
  by (induction t arbitrary: d) (auto simp: all_have_ref_Node t_HasRef_def desc_HasRef_def)

lemma layer_nodes_digests:
  "(\<lambda>n. d_digest (t_desc n)) ` set (layer_nodes r seen ls) = d_digest ` set ls - set seen"
  by (induction ls arbitrary: seen) (simp_all, blast)

lemma layer_nodes_leaf:
  "n \<in> set (layer_nodes r seen ls) \<Longrightarrow>
     t_type n = BlobTypeImageLayer \<and> t_children n = [] \<and> all_have_ref n"
  by (induction ls arbitrary: seen) (auto simp: all_have_ref_Node split: if_splits)

lemma layer_nodes_distinct: "distinct (map (\<lambda>n. d_digest (t_desc n)) (layer_nodes r seen ls))"
proof (induction ls arbitrary: seen)
  case (Cons l ls)
  have "d_digest l \<notin> (\<lambda>n. d_digest (t_desc n)) ` set (layer_nodes r (d_digest l # seen) ls)"
    unfolding layer_nodes_digests by simp
  with Cons show ?case by simp
qed simp

lemma image_parts_nodes: "image_parts (config_node r d # layer_nodes r [] ls)"
  using layer_nodes_leaf [of _ r "[]" ls] layer_nodes_distinct [of r "[]" ls]
  by (auto simp: image_parts_def config_node_def)

lemma parts_have_ref: "t \<in> set (config_node r d # layer_nodes r [] ls) \<Longrightarrow> all_have_ref t"
  using layer_nodes_leaf [of t r "[]" ls] by (auto simp: config_node_def all_have_ref_Node)

lemma manifest_nodes_ConsD:
  assumes "manifest_nodes L c pv pm r skopeo rd (d # ds) = Ok ns"
  shows "manifest_nodes L c pv pm r skopeo rd ds = Ok ns \<or>
    ((skopeo \<or> (\<exists>p. d_platform d = Some p \<and> pm p)) \<and>
     (\<exists>rest (m :: manifest). manifest_nodes L c pv pm r skopeo rd ds = Ok rest \<and>
        ns = Node (d\<lparr>d_urls := ImageRef_GetBlobRef r (d_digest d) # d_urls rd\<rparr>) BlobTypeImageManifest
              (config_node r (m_config m) # layer_nodes r [] (m_layers m)) # rest))"
proof -
  from assms obtain use where use: "(if skopeo then Ok True else (case d_platform d of
        None \<Rightarrow> Panic ''nil pointer dereference'' | Some p \<Rightarrow> Ok (pm p))) = Ok use"
    and rest: "(if \<not> use then manifest_nodes L c pv pm r skopeo rd ds
         else (let manifestRef = ImageRef_GetBlobRef r (d_digest d) in
            rbind (ReadImageManifest L c pv manifestRef (d_size d)) (\<lambda>m.
              rbind (manifest_nodes L c pv pm r skopeo rd ds) (\<lambda>ns.
                Ok (Node (d\<lparr>d_urls := manifestRef # d_urls rd\<rparr>) BlobTypeImageManifest
                      (config_node r (m_config m) # layer_nodes r [] (m_layers m))
                    # ns))))) = Ok ns"
    unfolding manifest_nodes.simps rbind_Ok_iff by blast
  show ?thesis
  proof (cases use)
    case True
    with use have "skopeo \<or> (\<exists>p. d_platform d = Some p \<and> pm p)"
      by (simp split: if_splits option.splits)
    moreover from rest True obtain m :: manifest and rest' where "manifest_nodes L c pv pm r skopeo rd ds = Ok rest'"
      "ns = Node (d\<lparr>d_urls := ImageRef_GetBlobRef r (d_digest d) # d_urls rd\<rparr>) BlobTypeImageManifest
              (config_node r (m_config m) # layer_nodes r [] (m_layers m)) # rest'"
      by (auto simp: rbind_Ok_iff Let_def)
    ultimately show ?thesis by blast
  qed (use rest in simp)
qed

lemma manifest_nodes_props:
  assumes "manifest_nodes L c pv pm r skopeo rd ds = Ok ns" and "n \<in> set ns"
  shows "t_type n = BlobTypeImageManifest \<and> image_parts (t_children n) \<and> all_have_ref n \<and>
    (\<exists>d\<in>set ds. d_digest (t_desc n) = d_digest d \<and>
       (skopeo \<or> (\<exists>p. d_platform d = Some p \<and> pm p)))"
  using assms
proof (induction ds arbitrary: ns)
  case (Cons d ds)
  let ?c = "config_node r" and ?ls = "layer_nodes r []"
  from Cons.prems(1) consider "manifest_nodes L c pv pm r skopeo rd ds = Ok ns"
    | rest and m :: manifest where "manifest_nodes L c pv pm r skopeo rd ds = Ok rest"
      "skopeo \<or> (\<exists>p. d_platform d = Some p \<and> pm p)"
      "ns = Node (d\<lparr>d_urls := ImageRef_GetBlobRef r (d_digest d) # d_urls rd\<rparr>) BlobTypeImageManifest
              (?c (m_config m) # ?ls (m_layers m)) # rest"
    using manifest_nodes_ConsD by blast
  then show ?case
  proof cases
    case 1
    from Cons.IH [OF 1 Cons.prems(2)] show ?thesis by auto
  next
    case 2
    show ?thesis
    proof (cases "n \<in> set rest")
      case True
      from Cons.IH [OF 2(1) True] show ?thesis by auto
    next
      case False
      with 2(3) Cons.prems(2) have n: "n = Node (d\<lparr>d_urls := ImageRef_GetBlobRef r (d_digest d) # d_urls rd\<rparr>)
          BlobTypeImageManifest (?c (m_config m) # ?ls (m_layers m))" by simp
      with 2(2) show ?thesis using parts_have_ref by (auto simp: image_parts_nodes all_have_ref_Node)
    qed
  qed
qed simp

lemma LoadImageTree_shape:
  assumes "LoadImageTree L c pv pm ref = Ok t"
  shows "image_tree_ok t \<and> all_have_ref t \<and> t_Ref t = ref \<and> d_annot (t_desc t) = None"
proof -
  from assms obtain rootRef root ty rd where rr:
    "ReadImageRoot L (WithBlobType c BlobTypeImageIndex) pv ref = Ok (rootRef, root, ty, rd)"
    and t: "(ty \<in> {BlobTypeSkopeoImageIndex, BlobTypeImageIndex} \<and>
       (\<exists>ds ns. manifest_nodes L c pv pm rootRef (ty = BlobTypeSkopeoImageIndex) rd ds = Ok ns \<and>
          t = Node rd ty ns)) \<or>
      (ty = BlobTypeImageManifest \<and> (\<exists>cd ls. t = Node rd ty (config_node rootRef cd # layer_nodes rootRef [] ls)))"
    by (fastforce simp: LoadImageTree_def rbind_iffs split: if_splits prod.splits)
  from rr have rd: "d_urls rd = [ref]" "d_annot rd = None"
    by (auto simp: ReadImageRoot_def rbind_iffs rcatch_iffs zero_desc_def split: if_splits)
  from t show ?thesis
  proof (elim disjE conjE exE)
    fix cd ls assume "t = Node rd ty (config_node rootRef cd # layer_nodes rootRef [] ls)"
      and "ty = BlobTypeImageManifest"
    with rd parts_have_ref show ?thesis
      by (auto simp: image_tree_ok_def image_parts_nodes all_have_ref_Node t_Ref_def desc_Ref_def)
  next
    fix ds ns assume "manifest_nodes L c pv pm rootRef (ty = BlobTypeSkopeoImageIndex) rd ds = Ok ns"
      and "t = Node rd ty ns" and "ty \<in> {BlobTypeSkopeoImageIndex, BlobTypeImageIndex}"
    with rd manifest_nodes_props [of L c pv pm rootRef "ty = BlobTypeSkopeoImageIndex" rd ds ns]
    show ?thesis
      by (auto simp: image_tree_ok_def all_have_ref_Node t_Ref_def desc_Ref_def)
  qed
qed

lemma height_Node_le: "(\<And>c. c \<in> set cs \<Longrightarrow> height c \<le> k) \<Longrightarrow> height (Node d ty cs) \<le> Suc k"
  by auto

lemma image_parts_height: "image_parts ts \<Longrightarrow> t \<in> set ts \<Longrightarrow> height t \<le> 0"
  by (cases t) (fastforce simp: image_parts_def)

lemma image_tree_height: "image_tree_ok t \<Longrightarrow> height t \<le> 2"
proof -
  assume ok: "image_tree_ok t"
  obtain d ty cs where t: "t = Node d ty cs" by (cases t)
  have parts: "height (Node d' ty' ts) \<le> 1" if "image_parts ts" for d' ty' ts
    using height_Node_le [of ts 0 d' ty'] image_parts_height [OF that] by simp
  have "height c \<le> 1" if "c \<in> set cs" for c
  proof (cases c)
    case (Node d' ty' ts)
    show ?thesis
    proof (cases "image_parts cs")
      case True
      from image_parts_height [OF True that] show ?thesis by simp
    next
      case False
      with ok that t Node have "image_parts ts" by (auto simp: image_tree_ok_def)
      from parts [OF this] Node show ?thesis by simp
    qed
  qed
  then have "height t \<le> Suc 1" unfolding t by (rule height_Node_le)
  then show ?thesis by simp
qed

end
