(* ===== verification/AppModel.thy ===== *)
theory AppModel
  imports Image StatFS
begin

text \<open>
  The v1 app (\<open>pkg/compose/v1/app.go\<close>): its manifest and descriptors, the tree of an app with its
  bundle, index, layers metadata and images, the run-time size of a blob, and the check that a
  bundle is installed.  The archive reader, the JSON decoders and the compose loader are
  parameters.
\<close>

definition AppManifestMediaType :: string where
  "AppManifestMediaType = ''application/vnd.oci.image.manifest.v1+json''"

definition AppManifestMaxSize :: int where
  "AppManifestMaxSize = 50 * 1024"

definition AppBundleFileMaxSize :: int where
  "AppBundleFileMaxSize = 1024 * 1024 * 1024 - 1024 * 1024"

definition AppLayerMediaType :: string where
  "AppLayerMediaType = ''application/octet-stream''"

definition AnnotationKeyAppBundleIndexDigest :: string where
  "AnnotationKeyAppBundleIndexDigest = ''org.foundries.app.bundle.index.digest''"

definition AnnotationKeyAppBundleIndexSize :: string where
  "AnnotationKeyAppBundleIndexSize = ''org.foundries.app.bundle.index.size''"

definition AnnotationKeyAppServiceName :: string where
  "AnnotationKeyAppServiceName = ''org.foundries.app.service.name''"

datatype store_type = StoreTypeSkopeo | StoreTypeComposeCtl

record app_ctx =
  a_ref :: app_ref
  a_manifest :: manifest
  a_layers_meta :: "(string, layers_meta) gomap option"
  a_tree :: tree
  a_store_type :: store_type
  a_node_count :: int

definition a_Name :: "app_ctx \<Rightarrow> string" where
  "a_Name a = ar_name (a_ref a)"

definition a_Digest :: "app_ctx \<Rightarrow> digest" where
  "a_Digest a = ar_digest (a_ref a)"

text \<open>The node count is computed once and kept.\<close>

definition a_NodeCount :: "app_ctx \<Rightarrow> (int \<times> app_ctx) res" where
  "a_NodeCount a =
     (if a_node_count a = 0
      then rbind (NodeCount (a_tree a)) (\<lambda>n. Ok (n, a\<lparr>a_node_count := n\<rparr>))
      else Ok (a_node_count a, a))"

definition HasLayersMeta :: "app_ctx \<Rightarrow> string \<Rightarrow> bool" where
  "HasLayersMeta a arch =
     (case a_layers_meta a of None \<Rightarrow> False | Some m \<Rightarrow> gm_has m arch)"

definition GetBlobRuntimeSize ::
  "'z lib_scheme \<Rightarrow> app_ctx \<Rightarrow> descriptor \<Rightarrow> string \<Rightarrow> int \<Rightarrow> int res" where
  "GetBlobRuntimeSize L a desc arch blockSize =
     (if is_layer_type L (d_media desc) \<and> HasLayersMeta a arch
      then (case map_of (lms_layers (the (map_of (the (a_layers_meta a)) arch))) (d_digest desc) of
              Some i \<Rightarrow> Ok (lm_usage i)
            | None \<Rightarrow> Ok (i64 (d_size desc * 5)))
      else AlignToBlockSize (d_size desc) blockSize)"

definition getChildByType :: "tree list \<Rightarrow> blob_type \<Rightarrow> tree option" where
  "getChildByType children ty = find (\<lambda>c. t_type c = ty) children"

definition GetComposeRoot :: "app_ctx \<Rightarrow> tree option" where
  "GetComposeRoot a = getChildByType (t_children (a_tree a)) BlobTypeAppBundle"

definition GetComposeIndex :: "app_ctx \<Rightarrow> tree option" where
  "GetComposeIndex a = getChildByType (t_children (a_tree a)) BlobTypeAppIndex"

section \<open>Descriptors of the manifest\<close>

definition a_blob_ref :: "app_ctx \<Rightarrow> digest \<Rightarrow> string" where
  "a_blob_ref a d = AppRef_GetBlobRef (a_ref a) d"

definition GetComposeDescriptor :: "app_ctx \<Rightarrow> descriptor res" where
  "GetComposeDescriptor a =
     (case m_layers (a_manifest a) of
        [] \<Rightarrow> Fail (Err (''reference to App compose project bundle is not found in the App manifest; '' @
                ''no layers are found in the App manifest''))
      | desc # _ \<Rightarrow>
          if d_media desc \<noteq> AppLayerMediaType
          then Fail (Err (''invalid type of App compose project bundle; expected: application/octet-stream, got '' @
                 d_media desc))
          else Ok (desc\<lparr>d_urls := d_urls desc @ [a_blob_ref a (d_digest desc)]\<rparr>))"

definition GetLayersMetadataDescriptor :: "app_ctx \<Rightarrow> descriptor res" where
  "GetLayersMetadataDescriptor a =
     (case m_layers (a_manifest a) of
        _ # desc # _ \<Rightarrow>
          (case d_annot desc of
             None \<Rightarrow> Fail (Err ''no layers meta is found in the app manifest'')
           | Some annot \<Rightarrow>
               (case map_of annot ''layers-meta'' of
                  None \<Rightarrow> Fail (Err ''no layers meta is found in the app manifest'')
                | Some version \<Rightarrow>
                    if version \<noteq> ''v1''
                    then Fail (Err (''unsupported layers meta version; supported: v1, got: '' @ version))
                    else Ok (desc\<lparr>d_urls := d_urls desc @ [a_blob_ref a (d_digest desc)]\<rparr>)))
      | _ \<Rightarrow> Fail (Err (''reference to App layers metadata is not found; '' @
              ''App manifest must have at least two layers'')))"

definition getAppIndexNodeIfPresent ::
  "'z lib_scheme \<Rightarrow> app_ref \<Rightarrow> descriptor \<Rightarrow> tree option" where
  "getAppIndexNodeIfPresent L appRef appBundleDesc =
     (case d_annot appBundleDesc of
        None \<Rightarrow> None
      | Some annot \<Rightarrow>
          (case (map_of annot AnnotationKeyAppBundleIndexDigest, map_of annot AnnotationKeyAppBundleIndexSize) of
             (Some digestStr, Some sizeStr) \<Rightarrow>
               (case (atoi L sizeStr, dg_parse L digestStr) of
                  (Some indexSize, Ok indexDigest) \<Rightarrow>
                    Some (Node (zero_desc\<lparr>d_digest := indexDigest, d_size := indexSize,
                                          d_urls := [AppRef_GetBlobRef appRef indexDigest]\<rparr>)
                            BlobTypeAppIndex [])
                | _ \<Rightarrow> None)
           | _ \<Rightarrow> None))"

section \<open>Reading the manifest and the compose project\<close>

definition empty_tree :: tree where
  "empty_tree = Node zero_desc BlobTypeUnknown []"

text \<open>
  The two calls whose errors are looked at: a manifest blob that is missing means that the app is
  not there; a manifest that was read but is not in the blob store was put there by skopeo.
\<close>

definition read_manifest_blob ::
  "'z lib_scheme \<Rightarrow> ctx \<Rightarrow> provider \<Rightarrow> app_ref \<Rightarrow> string \<Rightarrow> bytes res" where
  "read_manifest_blob L c pv appRef ref =
     rcatch (ReadBlobWithReadLimit L pv (WithBlobType (WithAppRef c appRef) BlobTypeAppManifest) ref
               AppManifestMaxSize)
       Ok (\<lambda>e. if ErrToBlobState (Some e) = BlobMissing then Fail ErrAppNotFound else Fail e)"

definition manifest_store_type :: "provider \<Rightarrow> digest \<Rightarrow> store_type res" where
  "manifest_store_type pv dg =
     rcatch (pv_info pv dg) (\<lambda>_. Ok StoreTypeComposeCtl)
       (\<lambda>e. Ok (if errors_Is_NotFound e then StoreTypeSkopeo else StoreTypeComposeCtl))"

definition ReadAppManifest ::
  "'z lib_scheme \<Rightarrow> ctx \<Rightarrow> provider \<Rightarrow> string \<Rightarrow> (app_ctx \<times> descriptor) res" where
  "ReadAppManifest L c pv ref =
     rbind (parseAndCheckAppRef L ref) (\<lambda>appRef.
       rbind (read_manifest_blob L c pv appRef ref) (\<lambda>b.
         rbind (json_manifest L b) (\<lambda>m.
           if m_media m \<noteq> AppManifestMediaType
           then Fail (Err (''invald app manifest media type; expected: '' @ AppManifestMediaType @
                  '', got: '' @ m_media m))
           else rbind (manifest_store_type pv (ar_digest appRef)) (\<lambda>st.
             Ok (\<lparr>a_ref = appRef, a_manifest = m, a_layers_meta = None, a_tree = empty_tree,
                  a_store_type = st, a_node_count = 0\<rparr>,
                 zero_desc\<lparr>d_media := m_media m, d_digest := ar_digest appRef,
                           d_size := int (length b), d_urls := [ref]\<rparr>)))))"

text \<open>Which reader of the bundle both \<open>readCompose\<close> and \<open>indexAppBundle\<close> open.\<close>

definition open_app_bundle ::
  "ctx \<Rightarrow> provider \<Rightarrow> app_ctx \<Rightarrow> descriptor \<Rightarrow> read_closer res" where
  "open_app_bundle c pv a desc =
     pv_get pv (WithBlobType (WithAppRef c (a_ref a)) BlobTypeAppBundle)
       [WithRef (a_blob_ref a (d_digest desc)), WithExpectedDigest (d_digest desc),
        WithExpectedSize (d_size desc)]"

text \<open>
  The entries of the archive in order, then the error that ended it, if any; the last
  \<open>docker-compose.yml\<close> counts, and a bundle without one yields no bytes.
\<close>

definition readCompose :: "'z lib_scheme \<Rightarrow> ctx \<Rightarrow> provider \<Rightarrow> app_ctx \<Rightarrow> (bytes \<times> descriptor) res" where
  "readCompose L c pv app =
     rbind (GetComposeDescriptor app) (\<lambda>composeDesc.
       rbind (open_app_bundle c pv app composeDesc) (\<lambda>srcReader.
         rbind (untar L srcReader) (\<lambda>(entries, err).
           case err of
             Some e \<Rightarrow> Fail e
           | None \<Rightarrow>
               Ok (fold (\<lambda>hdr b. if te_name hdr = ''docker-compose.yml'' then te_data hdr else b) entries [],
                   composeDesc))))"

definition readAndLoadComposeProject ::
  "'z lib_scheme \<Rightarrow> ctx \<Rightarrow> provider \<Rightarrow> app_ctx \<Rightarrow> (service_config list \<times> descriptor) res" where
  "readAndLoadComposeProject L c pv app =
     rbind (readCompose L c pv app) (\<lambda>(composeBytes, composeDesc).
       rbind (load_project L (a_Name app) composeBytes) (\<lambda>cp. Ok (cp, composeDesc)))"

section \<open>The tree of an app\<close>

text \<open>
  Annotating the root of a service's image: the configuration hash, when the service has that
  label, and its name.  The map is only made together with the hash, so that a service without
  the label makes the last assignment panic.
\<close>

definition annotate_image :: "service_config \<Rightarrow> tree \<Rightarrow> tree res" where
  "annotate_image s t =
     (let hashed = (case sc_labels s of
            None \<Rightarrow> d_annot (t_desc t)
          | Some labels \<Rightarrow>
              (case map_of labels AppServiceHashLabelKey of
                 None \<Rightarrow> d_annot (t_desc t)
               | Some h \<Rightarrow>
                   Some (gm_put AppServiceHashLabelKey h
                     (case d_annot (t_desc t) of None \<Rightarrow> [] | Some m \<Rightarrow> m))))
      in case hashed of
           None \<Rightarrow> Panic ''assignment to entry in nil map''
         | Some m \<Rightarrow>
             Ok (Node ((t_desc t)\<lparr>d_annot := Some (gm_put AnnotationKeyAppServiceName (sc_name s) m)\<rparr>)
                   (t_type t) (t_children t)))"

definition load_service_image ::
  "'z lib_scheme \<Rightarrow> ctx \<Rightarrow> provider \<Rightarrow> (platform \<Rightarrow> bool) \<Rightarrow> app_ref \<Rightarrow> service_config \<Rightarrow> tree res" where
  "load_service_image L c pv pm appRef s =
     rbind (rcatch (LoadImageTree L (WithAppRef c appRef) pv pm (sc_image s)) Ok
              (\<lambda>e. Fail (Err (''failed to load app service image ('' @ sc_name s @ ''): '' @ err_msg e))))
       (annotate_image s)"

text \<open>The optional layers metadata: the metadata that was decoded and its node, if any.\<close>

definition load_layers_meta ::
  "'z lib_scheme \<Rightarrow> ctx \<Rightarrow> provider \<Rightarrow> app_ctx \<Rightarrow> ((string, layers_meta) gomap option \<times> tree list) res"
where
  "load_layers_meta L c pv app =
     rcatch (GetLayersMetadataDescriptor app)
       (\<lambda>d. rcatch (ReadBlob L pv c (a_blob_ref app (d_digest d)) (d_digest d) (d_size d))
          (\<lambda>b. let r = json_layers_meta L b
               in Ok (fst r, if snd r = None then [Node d BlobTypeAppLayersMeta []] else []))
          (\<lambda>_. Ok (None, [])))
       (\<lambda>_. Ok (None, []))"

text \<open>
  The optional bundle index: mandatory in the tree when the app comes from a registry, otherwise
  only when the store has it.
\<close>

definition load_app_index ::
  "'z lib_scheme \<Rightarrow> provider \<Rightarrow> app_ctx \<Rightarrow> descriptor \<Rightarrow> tree list res" where
  "load_app_index L pv app composeDesc =
     (if a_store_type app = StoreTypeComposeCtl then
        (case getAppIndexNodeIfPresent L (a_ref app) composeDesc of
           None \<Rightarrow> Ok []
         | Some indexNode \<Rightarrow>
             if pv_type pv \<noteq> BlobProviderTypeRemote
             then rcatch (pv_info pv (d_digest (t_desc indexNode))) (\<lambda>_. Ok [indexNode]) (\<lambda>_. Ok [])
             else Ok [indexNode])
      else Ok [])"

definition LoadAppTree ::
  "'z lib_scheme \<Rightarrow> ctx \<Rightarrow> provider \<Rightarrow> (platform \<Rightarrow> bool) \<Rightarrow> string \<Rightarrow> app_ctx res" where
  "LoadAppTree L c pv pm ref =
     rbind (rcatch (ReadAppManifest L c pv ref) Ok
              (\<lambda>e. if errors_Is e ErrAppNotFound then Fail e
                   else Fail (Wrap ''failed to read app manifest'' e)))
       (\<lambda>(app, rootDesc).
         rbind (load_layers_meta L c pv app) (\<lambda>(meta, metaNodes).
           let app1 = app\<lparr>a_layers_meta := meta\<rparr> in
           rbind (rcatch (readAndLoadComposeProject L c pv app1) Ok
                    (\<lambda>e. Fail (Err (''failed to read app compose project: '' @ err_msg e))))
             (\<lambda>(services, composeDesc).
               rbind (load_app_index L pv app1 composeDesc) (\<lambda>indexNodes.
                 rbind (map_res (load_service_image L c pv pm (a_ref app1)) services) (\<lambda>images.
                   Ok (app1\<lparr>a_tree := Node rootDesc BlobTypeAppManifest
                         (metaNodes @ indexNodes @ [Node composeDesc BlobTypeAppBundle images])\<rparr>))))))"

section \<open>Checking an installation\<close>

record file_info =
  fi_name :: string
  fi_size :: int
  fi_digest :: digest

definition indexAppBundle ::
  "'z lib_scheme \<Rightarrow> ctx \<Rightarrow> provider \<Rightarrow> app_ctx \<Rightarrow> descriptor \<Rightarrow> file_info list res" where
  "indexAppBundle L c pv a appArchiveDesc =
     rbind (open_app_bundle c pv a appArchiveDesc) (\<lambda>srcReader.
       rbind (untar L srcReader) (\<lambda>(entries, err).
         case err of
           Some e \<Rightarrow> Fail e
         | None \<Rightarrow>
             Ok (map (\<lambda>hdr. \<lparr>fi_name = te_name hdr, fi_size = te_size hdr,
                            fi_digest = dg_hash L (te_data hdr)\<rparr>)
                   (filter te_regular entries))))"

definition getAppBundleIndex ::
  "'z lib_scheme \<Rightarrow> ctx \<Rightarrow> provider \<Rightarrow> app_ctx \<Rightarrow> (string, digest) gomap res" where
  "getAppBundleIndex L c pv a =
     (case getChildByType (t_children (a_tree a)) BlobTypeAppIndex of
        None \<Rightarrow> Fail ErrAppHasNoIndex
      | Some indexNode \<Rightarrow>
          rcatch (pv_get pv c [WithExpectedDigest (d_digest (t_desc indexNode)),
                               WithExpectedSize (d_size (t_desc indexNode))])
            (\<lambda>r. rcatch (io_ReadAll L r)
               (\<lambda>b. rcatch (json_bundle_index L b) Ok
                  (\<lambda>e. Fail (Err (''failed to unmarshal app bundle index: '' @ err_msg e))))
               (\<lambda>e. Fail (Err (''failed to read app bundle index: '' @ err_msg e))))
            (\<lambda>e. if errors_Is_NotFound e \<or> os_IsNotExist e then
                   (case GetComposeRoot a of
                      None \<Rightarrow> Panic ''nil pointer dereference''
                    | Some root \<Rightarrow>
                        if getChildByType (t_children root) BlobTypeSkopeoImageIndex \<noteq> None
                        then Fail ErrAppHasNoIndex else Fail ErrAppIndexNotFound)
                 else Fail (Err (''failed to read app bundle index: '' @ err_msg e))))"

text \<open>Reading from the nil file that a failed \<open>os.Open\<close> returns.\<close>

definition nil_file :: src where
  "nil_file = [([], Some (PathError ''invalid argument''))]"

text \<open>
  One file of each loop: the entry that it adds to the map of errors, if any.  The check against
  the index uses the name as key and only ends early when no reader can be made; the check
  against the bundle uses the path and records that, too.
\<close>

definition check_index_file ::
  "'z lib_scheme \<Rightarrow> fs \<Rightarrow> path \<Rightarrow> string \<times> digest \<Rightarrow> (string \<times> string) option res" where
  "check_index_file L fs root e =
     (case e of (filePath, fileDigest) \<Rightarrow>
        let check = (\<lambda>f.
              rbind (NewSecureReadCloser f
                       [WithExpectedDigest fileDigest, WithReadLimit AppBundleFileMaxSize]) (\<lambda>r.
                rcatch (io_ReadAll L r) (\<lambda>_. Ok None) (\<lambda>e. Ok (Some (filePath, err_msg e)))))
        in rcatch (os_open L fs (path_join root [filePath])) check
             (\<lambda>e. if os_IsNotExist e then Ok (Some (filePath, err_msg e)) else check nil_file))"

definition check_bundle_file ::
  "'z lib_scheme \<Rightarrow> fs \<Rightarrow> path \<Rightarrow> file_info \<Rightarrow> (string \<times> string) option res" where
  "check_bundle_file L fs root bundleFile =
     (let filePath = path_join root [fi_name bundleFile];
          bad = (\<lambda>e. Ok (Some (path_str filePath, err_msg e)))
      in rcatch (os_open L fs filePath)
           (\<lambda>f. rcatch (NewSecureReadCloser f
                          [WithExpectedDigest (fi_digest bundleFile), WithExpectedSize (fi_size bundleFile)])
              (\<lambda>r. rcatch (io_ReadAll L r) (\<lambda>_. Ok None) bad)
              bad)
           bad)"

fun check_files ::
  "('a \<Rightarrow> (string \<times> string) option res) \<Rightarrow> 'a list \<Rightarrow> (string, string) gomap \<Rightarrow> (string, string) gomap res"
where
  "check_files f [] m = Ok m"
| "check_files f (x # xs) m =
     rbind (f x) (\<lambda>r. check_files f xs (case r of None \<Rightarrow> m | Some (k, v) \<Rightarrow> gm_put k v m))"

definition checkAppBundleInstallation ::
  "'z lib_scheme \<Rightarrow> ctx \<Rightarrow> provider \<Rightarrow> fs \<Rightarrow> app_ctx \<Rightarrow> path \<Rightarrow> (string, string) gomap res" where
  "checkAppBundleInstallation L c pv fs a root =
     rbind (GetComposeDescriptor a) (\<lambda>desc.
       rbind (indexAppBundle L c pv a desc) (\<lambda>files.
         check_files (check_bundle_file L fs root) files []))"

text \<open>The map of errors; the empty list stands for the nil map of an installation without errors.\<close>

definition CheckComposeInstallation ::
  "'z lib_scheme \<Rightarrow> ctx \<Rightarrow> provider \<Rightarrow> fs \<Rightarrow> app_ctx \<Rightarrow> path \<Rightarrow> (string, string) gomap res" where
  "CheckComposeInstallation L c pv fs a root =
     rcatch (getAppBundleIndex L c pv a)
       (\<lambda>appIndex. check_files (check_index_file L fs root) appIndex [])
       (\<lambda>e. if e = ErrAppHasNoIndex then checkAppBundleInstallation L c pv fs a root else Fail e)"

section \<open>What a check without errors means\<close>

lemma check_files_mono:
  "check_files f xs m = Ok m' \<Longrightarrow> gm_has m k \<Longrightarrow> gm_has m' k"
proof (induction xs arbitrary: m)
  case (Cons x xs)
  then show ?case by (fastforce simp: rbind_Ok_iff split: option.splits)
qed simp

lemma check_files_Nil_iff:
  "check_files f xs [] = Ok [] \<longleftrightarrow> (\<forall>x\<in>set xs. f x = Ok None)"
proof (induction xs)
  case (Cons x xs)
  have "check_files f xs (gm_put k v []) \<noteq> Ok []" for k v
    using check_files_mono [of f xs "gm_put k v []" "[]" k] by (auto simp: gm_has_def)
  then show ?case using Cons by (auto simp: rbind_Ok_iff split: option.splits)
qed simp

lemma src_clean_single [simp]: "src_clean [(b, None)]" "src_content [(b, e)] = b"
  by (simp_all add: src_clean_def src_content_def)

lemma rc_read_not_Fail [simp]: "rc_read L k rc \<noteq> Fail e"
  by (auto simp: rc_read_def rbind_iffs split: read_closer.splits prod.splits)

lemma read_all_not_Fail [simp]: "read_all L bsz rc acc \<noteq> Fail e"
proof (induction L bsz rc acc rule: read_all.induct)
  case (1 L bsz rc acc)
  then show ?case
    by (subst read_all.simps) (auto split: res.splits option.splits)
qed

lemma io_ReadAll_new:
  "rbind (NewSecureReadCloser s opts) (\<lambda>r. rcatch (io_ReadAll L r) g h) =
   rbind (secure_read_all L (io_bufsz L) s opts) (\<lambda>(b, e). case e of None \<Rightarrow> g b | Some x \<Rightarrow> h x)"
  if "NewSecureReadCloser s opts = Ok rc"
  using that
  by (cases "read_all L (io_bufsz L) rc []")
    (auto simp: secure_read_all_def io_ReadAll_def split: option.splits)

text \<open>A source whose first read fails is never read without an error.\<close>

lemma read_all_fails:
  assumes "NewSecureReadCloser [([], Some x)] opts = Ok rc" and "x \<noteq> EOF"
    and "0 < rp_limit (GetSecureReadParams opts) \<or> 0 < rp_size (GetSecureReadParams opts)"
  shows "io_ReadAll L rc = Fail x"
proof -
  from NewSecureReadCloser_OkD [OF assms(1)] obtain r where r: "rc = Secure r"
    "effective_limit (GetSecureReadParams opts) = Ok (sr_params r)" "sr_inv r []"
    "lr_src (sr_lim r) = [([], Some x)]" by metis
  from effective_limit_params [OF r(2)] assms(3) have "0 < rp_limit (sr_params r)" by linarith
  with r(3) have "0 < lr_n (sr_lim r)" by (simp add: sr_inv_def)
  with r(1,4) assms(2) show ?thesis
    by (simp add: io_ReadAll_def read_all.simps rc_read_def secure_read_def limited_read_def Let_def)
qed

definition file_at :: "'z lib_scheme \<Rightarrow> fs \<Rightarrow> path \<Rightarrow> bytes \<Rightarrow> bool" where
  "file_at L fs p b \<longleftrightarrow> io_fault L ''open'' p = None \<and> map_of fs p = Some (FFile b)"

lemma os_open_cases:
  obtains e where "os_open L fs p = Fail e" "\<nexists>b. file_at L fs p b"
  | e where "os_open L fs p = Ok [([], Some e)]" "e \<noteq> EOF" "\<nexists>b. file_at L fs p b"
  | b where "os_open L fs p = Ok [(b, None)]" "file_at L fs p b"
proof (cases "io_fault L ''open'' p")
  case (Some e)
  then show ?thesis by (intro that(1) [of e]) (simp_all add: os_open_def file_at_def)
next
  case None
  consider "map_of fs p = None" | "map_of fs p = Some FDir" | b where "map_of fs p = Some (FFile b)"
    by (metis fentry.exhaust option.exhaust)
  then show ?thesis
    using None that by cases (simp_all add: os_open_def file_at_def)
qed

lemma file_at_unique: "file_at L fs p b \<Longrightarrow> file_at L fs p b' \<Longrightarrow> b = b'"
  by (simp add: file_at_def)

lemma check_index_file_ok_iff:
  "check_index_file L fs root (f, d) = Ok None \<longleftrightarrow>
     (\<exists>b. file_at L fs (path_join root [f]) b \<and> dg_hash L b = d \<and> int (length b) < AppBundleFileMaxSize)"
proof -
  let ?o = "[WithExpectedDigest d, WithReadLimit AppBundleFileMaxSize]"
  have pos: "0 < AppBundleFileMaxSize" by (simp add: AppBundleFileMaxSize_def)
  have new: "\<exists>rc. NewSecureReadCloser s ?o = Ok rc" for s
    using pos by (simp add: NewSecureReadCloser_def effective_limit_def)
  have bad: "rbind (NewSecureReadCloser [([], Some x)] ?o) (\<lambda>r. rcatch (io_ReadAll L r) (\<lambda>_. Ok None)
      (\<lambda>e. Ok (Some (f, err_msg e)))) = Ok (Some (f, err_msg x))" if "x \<noteq> EOF" for x
    using new [of "[([], Some x)]"] read_all_fails [OF _ that, of ?o _ L] pos by auto
  show ?thesis
  proof (cases rule: os_open_cases [of L fs "path_join root [f]"])
    case (1 e)
    have "check_index_file L fs root (f, d) \<noteq> Ok None"
      using bad [of "PathError ''invalid argument''"]
      by (simp add: check_index_file_def 1(1) Let_def nil_file_def)
    with 1(2) show ?thesis by blast
  next
    case (2 e)
    with bad [OF 2(2)] have "check_index_file L fs root (f, d) \<noteq> Ok None"
      by (simp add: check_index_file_def Let_def)
    with 2(3) show ?thesis by blast
  next
    case (3 b)
    obtain rc where rc: "NewSecureReadCloser [(b, None)] ?o = Ok rc" using new by blast
    have "secure_read_all L (io_bufsz L) [(b, None)] ?o =
        secure_spec L (zero_params\<lparr>rp_digest := d, rp_limit := AppBundleFileMaxSize\<rparr>) b"
      using pos by (simp add: secure_read_all_spec effective_limit_def)
    then have "check_index_file L fs root (f, d) = Ok None \<longleftrightarrow>
        dg_hash L b = d \<and> int (length b) < AppBundleFileMaxSize"
      using pos
      by (auto simp: check_index_file_def 3(1) Let_def io_ReadAll_new [OF rc] secure_spec_def min_def)
    with 3(2) file_at_unique show ?thesis by blast
  qed
qed

lemma secure_spec_sized:
  assumes "0 < n"
  shows "secure_spec L (zero_params\<lparr>rp_digest := d, rp_size := n, rp_limit := n\<rparr>) b =
    (if int (length b) < n then Ok (b, Some (ErrBlobSizeMismatch n (int (length b))))
     else Ok (take (nat n) b, if dg_hash L (take (nat n) b) = d then None
                              else Some (ErrBlobDigestMismatch d (dg_hash L (take (nat n) b)))))"
proof (cases "int (length b) < n")
  case True
  then have "take (nat n) b = b" by simp
  with True assms show ?thesis by (simp add: secure_spec_def Let_def)
next
  case False
  then have "int (length (take (nat n) b)) = n" using assms by simp
  with False assms show ?thesis by (simp add: secure_spec_def Let_def del: length_take)
qed

lemma check_bundle_file_ok_iff:
  "check_bundle_file L fs root fi = Ok None \<longleftrightarrow>
     (\<exists>b. file_at L fs (path_join root [fi_name fi]) b \<and> 0 < fi_size fi \<and> fi_size fi \<le> int (length b) \<and>
        dg_hash L (take (nat (fi_size fi)) b) = fi_digest fi)"
proof -
  let ?p = "path_join root [fi_name fi]"
  let ?o = "[WithExpectedDigest (fi_digest fi), WithExpectedSize (fi_size fi)]"
  have new: "NewSecureReadCloser s ?o = Ok rc \<Longrightarrow> 0 < fi_size fi" for s rc
    by (auto simp: NewSecureReadCloser_def effective_limit_def rbind_iffs split: if_splits)
  show ?thesis
  proof (cases rule: os_open_cases [of L fs ?p])
    case (1 e)
    then show ?thesis by (auto simp: check_bundle_file_def Let_def)
  next
    case (2 e)
    have f: "io_ReadAll L rc = Fail e" if "NewSecureReadCloser [([], Some e)] ?o = Ok rc" for rc
      using read_all_fails [OF that 2(2)] new [OF that] by simp
    have "check_bundle_file L fs root fi \<noteq> Ok None"
      by (cases "NewSecureReadCloser [([], Some e)] ?o")
        (auto simp: check_bundle_file_def 2(1) Let_def f)
    with 2(3) show ?thesis by blast
  next
    case (3 b)
    show ?thesis
    proof (cases "0 < fi_size fi")
      case False
      with new have "check_bundle_file L fs root fi \<noteq> Ok None"
        by (cases "NewSecureReadCloser [(b, None)] ?o") (auto simp: check_bundle_file_def 3(1) Let_def)
      with False show ?thesis by blast
    next
      case True
      then obtain rc where rc: "NewSecureReadCloser [(b, None)] ?o = Ok rc"
        by (simp add: NewSecureReadCloser_def effective_limit_def)
      have "secure_read_all L (io_bufsz L) [(b, None)] ?o = secure_spec L
          (zero_params\<lparr>rp_digest := fi_digest fi, rp_size := fi_size fi, rp_limit := fi_size fi\<rparr>) b"
        using True by (simp add: secure_read_all_spec effective_limit_def)
      moreover have "check_bundle_file L fs root fi =
          rbind (NewSecureReadCloser [(b, None)] ?o) (\<lambda>r. rcatch (io_ReadAll L r) (\<lambda>_. Ok None)
            (\<lambda>e. Ok (Some (path_str ?p, err_msg e))))"
        by (simp add: check_bundle_file_def 3(1) Let_def rc)
      ultimately have "check_bundle_file L fs root fi = Ok None \<longleftrightarrow>
          fi_size fi \<le> int (length b) \<and> dg_hash L (take (nat (fi_size fi)) b) = fi_digest fi"
        using True by (simp add: io_ReadAll_new [OF rc] secure_spec_sized)
      with True 3(2) file_at_unique show ?thesis by blast
    qed
  qed
qed

section \<open>The shape of an app tree\<close>

definition app_tree_ok :: "tree \<Rightarrow> bool" where
  "app_tree_ok t \<longleftrightarrow>
     (\<exists>rd ms ix cd images. t = Node rd BlobTypeAppManifest (ms @ ix @ [Node cd BlobTypeAppBundle images]) \<and>
        length ms \<le> 1 \<and> (\<forall>n\<in>set ms. t_type n = BlobTypeAppLayersMeta \<and> t_children n = []) \<and>
        length ix \<le> 1 \<and> (\<forall>n\<in>set ix. t_type n = BlobTypeAppIndex \<and> t_children n = []) \<and>
        (\<forall>n\<in>set images. image_tree_ok n))"

lemma app_tree_okI:
  assumes "length ms \<le> 1" "\<forall>n\<in>set ms. t_type n = BlobTypeAppLayersMeta \<and> t_children n = []"
    and "length ix \<le> 1" "\<forall>n\<in>set ix. t_type n = BlobTypeAppIndex \<and> t_children n = []"
    and "\<forall>n\<in>set images. image_tree_ok n"
  shows "app_tree_ok (Node rd BlobTypeAppManifest (ms @ ix @ [Node cd BlobTypeAppBundle images]))"
  using assms unfolding app_tree_ok_def by blast

lemma app_tree_okE:
  assumes "app_tree_ok t"
  obtains rd ms ix cd images
  where "t = Node rd BlobTypeAppManifest (ms @ ix @ [Node cd BlobTypeAppBundle images])"
    "length ms \<le> 1" "\<forall>n\<in>set ms. t_type n = BlobTypeAppLayersMeta \<and> t_children n = []"
    "length ix \<le> 1" "\<forall>n\<in>set ix. t_type n = BlobTypeAppIndex \<and> t_children n = []"
    "\<forall>n\<in>set images. image_tree_ok n"
  using assms unfolding app_tree_ok_def by blast

lemma annotate_image_Ok_iff:
  "annotate_image s t = Ok t' \<longleftrightarrow>
     (\<exists>m. (case sc_labels s of
             None \<Rightarrow> d_annot (t_desc t)
           | Some labels \<Rightarrow>
               (case map_of labels AppServiceHashLabelKey of
                  None \<Rightarrow> d_annot (t_desc t)
                | Some h \<Rightarrow>
                    Some (gm_put AppServiceHashLabelKey h
                      (case d_annot (t_desc t) of None \<Rightarrow> [] | Some m \<Rightarrow> m)))) = Some m \<and>
        t' = Node ((t_desc t)\<lparr>d_annot := Some (gm_put AnnotationKeyAppServiceName (sc_name s) m)\<rparr>)
               (t_type t) (t_children t))"
  by (auto simp: annotate_image_def Let_def split: option.splits)

lemma annotate_image_keeps:
  assumes "annotate_image s t = Ok t'"
  shows "t_type t' = t_type t" "t_children t' = t_children t" "t_Ref t' = t_Ref t"
    "d_digest (t_desc t') = d_digest (t_desc t)" "d_urls (t_desc t') = d_urls (t_desc t)"
    "d_media (t_desc t') = d_media (t_desc t)" "d_size (t_desc t') = d_size (t_desc t)"
    "annot_get (d_annot (t_desc t')) AnnotationKeyAppServiceName = sc_name s"
  using assms by (auto simp: annotate_image_Ok_iff t_Ref_def desc_Ref_def annot_get_def update_conv)

lemma keys_differ: "AppServiceHashLabelKey \<noteq> AnnotationKeyAppServiceName"
  by (simp add: AppServiceHashLabelKey_def AnnotationKeyAppServiceName_def)

text \<open>On an image that was just loaded, which has no annotations.\<close>

lemma annotate_image_fresh:
  assumes "d_annot (t_desc t) = None"
  shows "annotate_image s t =
    (case sc_labels s of
       None \<Rightarrow> Panic ''assignment to entry in nil map''
     | Some labels \<Rightarrow>
         (case map_of labels AppServiceHashLabelKey of
            None \<Rightarrow> Panic ''assignment to entry in nil map''
          | Some h \<Rightarrow>
              Ok (Node ((t_desc t)\<lparr>d_annot := Some [(AppServiceHashLabelKey, h),
                      (AnnotationKeyAppServiceName, sc_name s)]\<rparr>) (t_type t) (t_children t))))"
  using assms keys_differ by (simp add: annotate_image_def split: option.splits)

lemma load_service_image_Ok:
  assumes "load_service_image L c pv pm r s = Ok t"
  shows "image_tree_ok t \<and> all_have_ref t \<and> t_Ref t = sc_image s \<and>
    (\<exists>labels h. sc_labels s = Some labels \<and> map_of labels AppServiceHashLabelKey = Some h \<and>
       annot_get (d_annot (t_desc t)) AppServiceHashLabelKey = h \<and>
       annot_get (d_annot (t_desc t)) AnnotationKeyAppServiceName = sc_name s)"
proof -
  from assms obtain u where u: "LoadImageTree L (WithAppRef c r) pv pm (sc_image s) = Ok u"
    and t: "annotate_image s u = Ok t"
    by (auto simp: load_service_image_def rbind_iffs rcatch_iffs)
  from LoadImageTree_shape [OF u] have sh: "image_tree_ok u" "all_have_ref u" "t_Ref u = sc_image s"
    "d_annot (t_desc u) = None" by auto
  note k = annotate_image_keeps [OF t]
  have "all_have_ref t"
    using sh(2) k(2,5) by (cases u; cases t) (simp add: all_have_ref_Node)
  moreover have "image_tree_ok t" using sh(1) k(1,2) by (simp add: image_tree_ok_def)
  ultimately show ?thesis
    using t sh(3,4) k(3) keys_differ
    by (auto simp: annotate_image_fresh annot_get_def split: option.splits)
qed

lemma load_layers_meta_nodes:
  assumes "load_layers_meta L c pv app = Ok (m, ns)"
  shows "length ns \<le> 1 \<and> (\<forall>n\<in>set ns. t_type n = BlobTypeAppLayersMeta \<and> t_children n = [] \<and> all_have_ref n)"
proof -
  have "d_urls d \<noteq> []" if "GetLayersMetadataDescriptor app = Ok d" for d
    using that by (auto simp: GetLayersMetadataDescriptor_def split: list.splits option.splits if_splits)
  with assms show ?thesis
    by (auto simp: rcatch_iffs load_layers_meta_def all_have_ref_Node Let_def split: if_splits)
qed

lemma load_app_index_nodes:
  assumes "load_app_index L pv app d = Ok ns"
  shows "length ns \<le> 1 \<and> (\<forall>n\<in>set ns. t_type n = BlobTypeAppIndex \<and> t_children n = [] \<and> all_have_ref n)"
proof -
  have "t_type n = BlobTypeAppIndex \<and> t_children n = [] \<and> all_have_ref n"
    if "getAppIndexNodeIfPresent L (a_ref app) d = Some n" for n
    using that by (auto simp: getAppIndexNodeIfPresent_def all_have_ref_Node
        split: option.splits res.splits)
  with assms show ?thesis
    by (auto simp: load_app_index_def rcatch_iffs split: if_splits option.splits)
qed

lemma LoadAppTree_OkD:
  assumes "LoadAppTree L c pv pm ref = Ok a"
  obtains app rd meta ms services cd ix images where
    "ReadAppManifest L c pv ref = Ok (app, rd)"
    "load_layers_meta L c pv app = Ok (meta, ms)"
    "readAndLoadComposeProject L c pv (app\<lparr>a_layers_meta := meta\<rparr>) = Ok (services, cd)"
    "load_app_index L pv (app\<lparr>a_layers_meta := meta\<rparr>) cd = Ok ix"
    "map_res (load_service_image L c pv pm (a_ref app)) services = Ok images"
    "a = app\<lparr>a_layers_meta := meta, a_tree := Node rd BlobTypeAppManifest
           (ms @ ix @ [Node cd BlobTypeAppBundle images])\<rparr>"
proof -
  from assms obtain x where x: "rcatch (ReadAppManifest L c pv ref) Ok
      (\<lambda>e. if errors_Is e ErrAppNotFound then Fail e
           else Fail (Wrap ''failed to read app manifest'' e)) = Ok x"
    and r1: "(case x of (app, rootDesc) \<Rightarrow>
         rbind (load_layers_meta L c pv app) (\<lambda>(meta, metaNodes).
           let app1 = app\<lparr>a_layers_meta := meta\<rparr> in
           rbind (rcatch (readAndLoadComposeProject L c pv app1) Ok
                    (\<lambda>e. Fail (Err (''failed to read app compose project: '' @ err_msg e))))
             (\<lambda>(services, composeDesc).
               rbind (load_app_index L pv app1 composeDesc) (\<lambda>indexNodes.
                 rbind (map_res (load_service_image L c pv pm (a_ref app1)) services) (\<lambda>images.
                   Ok (app1\<lparr>a_tree := Node rootDesc BlobTypeAppManifest
                         (metaNodes @ indexNodes @ [Node composeDesc BlobTypeAppBundle images])\<rparr>)))))) = Ok a"
    unfolding LoadAppTree_def by (elim rbind_is_okE)
  obtain app rd where xa: "x = (app, rd)" by force
  have r: "ReadAppManifest L c pv ref = Ok (app, rd)"
    using x xa by (auto simp: rcatch_Ok_iff split: if_splits)
  from r1 xa obtain y where y: "load_layers_meta L c pv app = Ok y"
    and r2: "(case y of (meta, metaNodes) \<Rightarrow>
           let app1 = app\<lparr>a_layers_meta := meta\<rparr> in
           rbind (rcatch (readAndLoadComposeProject L c pv app1) Ok
                    (\<lambda>e. Fail (Err (''failed to read app compose project: '' @ err_msg e))))
             (\<lambda>(services, composeDesc).
               rbind (load_app_index L pv app1 composeDesc) (\<lambda>indexNodes.
                 rbind (map_res (load_service_image L c pv pm (a_ref app1)) services) (\<lambda>images.
                   Ok (app1\<lparr>a_tree := Node rd BlobTypeAppManifest
                         (metaNodes @ indexNodes @ [Node composeDesc BlobTypeAppBundle images])\<rparr>))))) = Ok a"
    by (simp only: prod.case) (elim rbind_is_okE)
  obtain meta ms where ym: "y = (meta, ms)" by force
  from r2 ym obtain z where z: "rcatch (readAndLoadComposeProject L c pv (app\<lparr>a_layers_meta := meta\<rparr>)) Ok
      (\<lambda>e. Fail (Err (''failed to read app compose project: '' @ err_msg e))) = Ok z"
    and r3: "(case z of (services, composeDesc) \<Rightarrow>
               rbind (load_app_index L pv (app\<lparr>a_layers_meta := meta\<rparr>) composeDesc) (\<lambda>indexNodes.
                 rbind (map_res (load_service_image L c pv pm (a_ref (app\<lparr>a_layers_meta := meta\<rparr>))) services) (\<lambda>images.
                   Ok ((app\<lparr>a_layers_meta := meta\<rparr>)\<lparr>a_tree := Node rd BlobTypeAppManifest
                         (ms @ indexNodes @ [Node composeDesc BlobTypeAppBundle images])\<rparr>)))) = Ok a"
    by (simp only: prod.case Let_def) (elim rbind_is_okE)
  obtain services cd where zs: "z = (services, cd)" by force
  have p: "readAndLoadComposeProject L c pv (app\<lparr>a_layers_meta := meta\<rparr>) = Ok (services, cd)"
    using z zs by (auto simp: rcatch_Ok_iff)
  from r3 zs obtain ix images where
    "load_app_index L pv (app\<lparr>a_layers_meta := meta\<rparr>) cd = Ok ix"
    "map_res (load_service_image L c pv pm (a_ref app)) services = Ok images"
    "a = app\<lparr>a_layers_meta := meta, a_tree := Node rd BlobTypeAppManifest
           (ms @ ix @ [Node cd BlobTypeAppBundle images])\<rparr>"
    by (auto simp: rbind_Ok_iff)
  with r y ym p show thesis using that by blast
qed

lemma ReadAppManifest_props:
  assumes "ReadAppManifest L c pv ref = Ok (app, rd)"
  shows "d_urls rd = [ref]" "parseAndCheckAppRef L ref = Ok (a_ref app)"
    "d_digest rd = ar_digest (a_ref app)" "a_node_count app = 0" "ar_digest (a_ref app) \<noteq> ''''"
proof -
  from assms have "d_urls rd = [ref] \<and> parseAndCheckAppRef L ref = Ok (a_ref app) \<and>
      d_digest rd = ar_digest (a_ref app) \<and> a_node_count app = 0"
    unfolding ReadAppManifest_def rbind_Ok_iff by (auto simp: zero_desc_def rbind_Ok_iff split: if_splits)
  moreover then have "ar_digest (a_ref app) \<noteq> ''''"
    by (auto simp: parseAndCheckAppRef_def rbind_Ok_iff split: if_splits)
  ultimately show "d_urls rd = [ref]" "parseAndCheckAppRef L ref = Ok (a_ref app)"
    "d_digest rd = ar_digest (a_ref app)" "a_node_count app = 0" "ar_digest (a_ref app) \<noteq> ''''"
    by blast+
qed

lemma readCompose_urls:
  assumes "readAndLoadComposeProject L c pv app = Ok (services, cd)"
  shows "d_urls cd \<noteq> []"
proof -
  have "d_urls d \<noteq> []" if "GetComposeDescriptor app = Ok d" for d
    using that by (auto simp: GetComposeDescriptor_def split: list.splits if_splits)
  with assms show ?thesis
    by (auto simp: readAndLoadComposeProject_def readCompose_def rbind_iffs split: option.splits)
qed

lemma LoadAppTree_shape:
  assumes "LoadAppTree L c pv pm ref = Ok a"
  shows "app_tree_ok (a_tree a) \<and> all_have_ref (a_tree a)"
proof -
  from LoadAppTree_OkD [OF assms] obtain app rd meta ms services cd ix images where
    r: "ReadAppManifest L c pv ref = Ok (app, rd)"
    and m: "load_layers_meta L c pv app = Ok (meta, ms)"
    and p: "readAndLoadComposeProject L c pv (app\<lparr>a_layers_meta := meta\<rparr>) = Ok (services, cd)"
    and x: "load_app_index L pv (app\<lparr>a_layers_meta := meta\<rparr>) cd = Ok ix"
    and im: "map_res (load_service_image L c pv pm (a_ref app)) services = Ok images"
    and a: "a = app\<lparr>a_layers_meta := meta, a_tree := Node rd BlobTypeAppManifest
           (ms @ ix @ [Node cd BlobTypeAppBundle images])\<rparr>" by metis
  have im': "image_tree_ok n \<and> all_have_ref n" if "n \<in> set images" for n
    using map_res_Ok_set [OF im that] load_service_image_Ok by blast
  let ?t = "Node rd BlobTypeAppManifest (ms @ ix @ [Node cd BlobTypeAppBundle images])"
  have "app_tree_ok ?t"
    by (rule app_tree_okI)
      (use load_layers_meta_nodes [OF m] load_app_index_nodes [OF x] im' in auto)
  moreover have "all_have_ref ?t"
    unfolding all_have_ref_Node
    using load_layers_meta_nodes [OF m] load_app_index_nodes [OF x] readCompose_urls [OF p]
      ReadAppManifest_props(1) [OF r] im' by (auto simp: all_have_ref_Node)
  ultimately show ?thesis using a by simp
qed

lemma app_tree_height: "app_tree_ok t \<Longrightarrow> height t \<le> 4"
proof -
  assume "app_tree_ok t"
  then obtain rd ms ix cd images where t: "t = Node rd BlobTypeAppManifest (ms @ ix @ [Node cd BlobTypeAppBundle images])"
    and leaf: "\<forall>n\<in>set (ms @ ix). t_children n = []" and im: "\<forall>n\<in>set images. image_tree_ok n"
    unfolding set_append by (elim app_tree_okE) blast
  have "height (Node cd BlobTypeAppBundle images) \<le> Suc 2"
    by (rule height_Node_le) (use im image_tree_height in auto)
  moreover have "height n \<le> 3" if "n \<in> set (ms @ ix)" for n
    using leaf that by (cases n) force
  ultimately have "height t \<le> Suc 3"
    unfolding t by (intro height_Node_le) auto
  then show ?thesis by simp
qed

lemma app_tree_compose_root:
  assumes "app_tree_ok (a_tree a)"
  shows "\<exists>r. GetComposeRoot a = Some r \<and> t_type r = BlobTypeAppBundle \<and>
    (\<forall>n\<in>set (t_children r). image_tree_ok n)"
proof -
  from assms obtain rd ms ix cd images where
    t: "a_tree a = Node rd BlobTypeAppManifest (ms @ ix @ [Node cd BlobTypeAppBundle images])"
    and ms: "\<forall>n\<in>set ms. t_type n = BlobTypeAppLayersMeta"
    and idx: "\<forall>n\<in>set ix. t_type n = BlobTypeAppIndex"
    and im: "\<forall>n\<in>set images. image_tree_ok n"
    by (elim app_tree_okE) blast
  have "find (\<lambda>c. t_type c = BlobTypeAppBundle) (ns @ [Node cd BlobTypeAppBundle images]) =
      Some (Node cd BlobTypeAppBundle images)"
    if "\<forall>n\<in>set ns. t_type n \<noteq> BlobTypeAppBundle" for ns
    using that by (induction ns) auto
  moreover have "\<forall>n\<in>set (ms @ ix). t_type n \<noteq> BlobTypeAppBundle" using ms idx by auto
  ultimately have "find (\<lambda>c. t_type c = BlobTypeAppBundle) ((ms @ ix) @ [Node cd BlobTypeAppBundle images]) =
      Some (Node cd BlobTypeAppBundle images)" by blast
  then have "GetComposeRoot a = Some (Node cd BlobTypeAppBundle images)"
    by (simp add: GetComposeRoot_def getChildByType_def t)
  with im show ?thesis by simp
qed

end
