(* ===== verification/AppStore.thy ===== *)
theory AppStore
  imports AppModel
begin

text \<open>
  The app store of \<open>pkg/compose/v1/app_store.go\<close>: which apps it has, adding and removing them,
  pruning the blobs no app refers to, and the files for \<open>aklite\<close>.  The operations work on the
  file system of the world; the store's provider side is in \<open>Provider\<close>.
\<close>

section \<open>Writing a file\<close>

definition tmp_of :: "path \<Rightarrow> path" where
  "tmp_of p = butlast p @ [last p @ ''.tmp'']"

text \<open>
  The steps after the file was created; \<open>io_partial\<close> is how much of the data a failing write has
  written.  The temporary file is removed at the end in every case, and an error of that is
  ignored.
\<close>

definition write_tmp :: "'z lib_scheme \<Rightarrow> path \<Rightarrow> bytes \<Rightarrow> fs \<Rightarrow> fs \<times> unit res" where
  "write_tmp L p data fs =
     (let tmpfile = tmp_of p;
          msg = (\<lambda>m e. Fail (Err (m @ path_str tmpfile @ ''; err: '' @ err_msg e)))
      in case io_fault L ''fwrite'' tmpfile of
           Some e \<Rightarrow>
             (gm_put tmpfile (FFile (take (io_partial L tmpfile) data)) fs,
              msg ''failed to write a tmp file: '' e)
         | None \<Rightarrow>
             (let fs1 = gm_put tmpfile (FFile data) fs in
              case io_fault L ''fsync'' tmpfile of
                Some e \<Rightarrow> (fs1, msg ''failed to sync a tmp file: '' e)
              | None \<Rightarrow>
                  (case io_fault L ''close'' tmpfile of
                     Some e \<Rightarrow> (fs1, msg ''failed to close a tmp file: '' e)
                   | None \<Rightarrow> serr (os_rename L fs1 tmpfile p))))"

definition writeAndSync :: "'z lib_scheme \<Rightarrow> path \<Rightarrow> bytes \<Rightarrow> fs \<Rightarrow> fs \<times> unit res" where
  "writeAndSync L p data fs =
     (case os_write_file L fs (tmp_of p) [] of
        (fs1, Some e) \<Rightarrow>
          (fs1, Fail (Err (''failed to create a tmp file: '' @ path_str (tmp_of p) @ ''; err: '' @ err_msg e)))
      | (fs1, None) \<Rightarrow>
          (let r = write_tmp L p data fs1 in (fst (os_remove L (fst r) (tmp_of p)), snd r)))"

section \<open>Adding and listing apps\<close>

definition app_dir :: "'z lib_scheme \<Rightarrow> app_store \<Rightarrow> app_ref \<Rightarrow> path res" where
  "app_dir L s r =
     rbind (dg_encoded L (ar_digest r)) (\<lambda>enc. Ok (path_join (as_apps_root s) [ar_name r, enc]))"

definition add_app :: "'z lib_scheme \<Rightarrow> app_store \<Rightarrow> app_ref \<Rightarrow> fs \<Rightarrow> fs \<times> unit res" where
  "add_app L s r fs =
     sbind (slift (app_dir L s r) fs) (\<lambda>appDir fs.
       sbind (serr (os_mkdir_all L fs appDir)) (\<lambda>_ fs.
         writeAndSync L (path_join appDir [''uri'']) (AppRef_String L r) fs))"

definition AddApps :: "'z lib_scheme \<Rightarrow> app_store \<Rightarrow> string list \<Rightarrow> fs \<Rightarrow> fs \<times> unit res" where
  "AddApps L s appURIs fs =
     sbind (slift (map_res (ParseAppRef L) appURIs) fs) (\<lambda>appRefs. sfor (add_app L s) appRefs)"

text \<open>The callback of the walk: an error on the root of the apps only means an empty store.\<close>

fun list_visit ::
  "'z lib_scheme \<Rightarrow> fs \<Rightarrow> app_store \<Rightarrow> path \<times> fentry option \<times> error option \<Rightarrow> app_ref list res" where
  "list_visit L fs s (p, info, err) =
     (case err of
        Some e \<Rightarrow> (if p = as_apps_root s then Ok [] else Fail e)
      | None \<Rightarrow>
          if path_base p \<noteq> ''uri'' then Ok []
          else rbind (os_read_file L fs p) (\<lambda>b. rbind (ParseAppRef L b) (\<lambda>r. Ok [r])))"

definition ListApps :: "'z lib_scheme \<Rightarrow> app_store \<Rightarrow> fs \<Rightarrow> app_ref list res" where
  "ListApps L s fs =
     rbind (map_res (list_visit L fs s) (fs_visits L fs (as_apps_root s))) (\<lambda>rs. Ok (concat rs))"

section \<open>Pruning\<close>

text \<open>The encoded digests of the nodes of one app.\<close>

definition app_blobs :: "'z lib_scheme \<Rightarrow> tree \<Rightarrow> string list \<Rightarrow> unit res \<times> string list" where
  "app_blobs L t refs =
     Walk t (\<lambda>node depth refs.
       (case dg_encoded L (d_digest (t_desc node)) of
          Ok enc \<Rightarrow> (Ok (), enc # refs)
        | Fail e \<Rightarrow> (Fail e, refs)
        | Panic m \<Rightarrow> (Panic m, refs))) refs"

fun referenced_blobs ::
  "('x, 'z) sys_scheme \<Rightarrow> 'x world \<Rightarrow> app_store \<Rightarrow> app_ref list \<Rightarrow> string list \<Rightarrow> string list res" where
  "referenced_blobs X w s [] refs = Ok refs"
| "referenced_blobs X w s (r # rs) refs =
     rbind (LoadAppTree X ctx_background (appStore_provider X w s) (platform_match X (as_platform s))
              (AppRef_String X r)) (\<lambda>app.
       let (r, refs') = app_blobs X (a_tree app) refs
       in rbind r (\<lambda>_. referenced_blobs X w s rs refs'))"

fun prune_visit ::
  "app_store \<Rightarrow> string list \<Rightarrow> path \<times> fentry option \<times> error option \<Rightarrow> path list res" where
  "prune_visit s refs (p, info, err) =
     (if err \<noteq> None \<and> p = as_blobs_root s then Ok []
      else (case info of
              None \<Rightarrow> Panic ''nil pointer dereference''
            | Some FDir \<Rightarrow> Ok []
            | Some (FFile _) \<Rightarrow> Ok (if path_base p \<in> set refs then [] else [p])))"

definition blobs_to_prune ::
  "('x, 'z) sys_scheme \<Rightarrow> app_store \<Rightarrow> 'x world \<Rightarrow> path list res" where
  "blobs_to_prune X s w =
     rbind (ListApps X s (w_fs w)) (\<lambda>apps.
       rbind (referenced_blobs X w s apps []) (\<lambda>refs.
         rbind (map_res (prune_visit s refs) (fs_visits X (w_fs w) (as_blobs_root s)))
           (\<lambda>ps. Ok (concat ps))))"

definition Prune ::
  "('x, 'z) sys_scheme \<Rightarrow> app_store \<Rightarrow> 'x world \<Rightarrow> 'x world \<times> path list res" where
  "Prune X s w =
     (case blobs_to_prune X s w of
        Fail e \<Rightarrow> (w, Fail e)
      | Panic m \<Rightarrow> (w, Panic m)
      | Ok ps \<Rightarrow>
          (let (fs', r) = sfor (\<lambda>p fs. serr (os_remove_all X fs p)) ps (w_fs w)
           in (w\<lparr>w_fs := fs'\<rparr>, rbind r (\<lambda>_. Ok ps))))"

section \<open>Removing apps\<close>

definition stat_not_exist :: "'a res \<Rightarrow> bool" where
  "stat_not_exist r = (case r of Fail e \<Rightarrow> os_IsNotExist e | _ \<Rightarrow> False)"

definition remove_app :: "'z lib_scheme \<Rightarrow> app_store \<Rightarrow> app_ref \<Rightarrow> fs \<Rightarrow> fs \<times> unit res" where
  "remove_app L s a fs =
     sbind (slift (app_dir L s a) fs) (\<lambda>appVerDir fs.
       if stat_not_exist (os_stat L fs appVerDir) then (fs, Ok ())
       else sbind (serr (os_remove_all L fs appVerDir)) (\<lambda>_ fs.
         let appDir = path_join (as_apps_root s) [ar_name a];
             appVerNumb = length (filter (\<lambda>(p, _). p \<noteq> appDir) (fs_visits L fs appDir))
         in if appVerNumb = 0 then serr (os_remove_all L fs appDir) else (fs, Ok ())))"

definition store_RemoveApps ::
  "('x, 'z) sys_scheme \<Rightarrow> app_store \<Rightarrow> app_ref list \<Rightarrow> bool \<Rightarrow> 'x world \<Rightarrow> 'x world \<times> unit res" where
  "store_RemoveApps X s apps prune w =
     (let (fs', r) = sfor (remove_app X s) apps (w_fs w);
          w' = w\<lparr>w_fs := fs'\<rparr>
      in sbind (w', r) (\<lambda>_ w.
           if prune then (let (w'', r') = Prune X s w in (w'', rbind r' (\<lambda>_. Ok ())))
           else (w, Ok ())))"

section \<open>What a write leaves\<close>

lemma tmp_of_neq [simp]: "tmp_of p \<noteq> p" "p \<noteq> tmp_of p"
proof -
  show "tmp_of p \<noteq> p"
  proof
    assume "tmp_of p = p"
    then have "last p = last p @ ''.tmp''" by (metis last_snoc tmp_of_def)
    then show False by simp
  qed
  then show "p \<noteq> tmp_of p" by metis
qed

lemma os_remove_other: "q \<noteq> p \<Longrightarrow> map_of (fst (os_remove L fs p)) q = map_of fs q"
  by (auto simp: os_remove_def delete_conv split: option.splits)

lemma os_write_file_other: "q \<noteq> p \<Longrightarrow> map_of (fst (os_write_file L fs p b)) q = map_of fs q"
  by (auto simp: os_write_file_def update_conv split: option.splits)

lemma os_rename_cases:
  assumes "os_rename L fs p q = (fs', e)" and "p \<noteq> q"
  shows "(e \<noteq> None \<and> fs' = fs) \<or>
    (e = None \<and> (\<exists>b. map_of fs p = Some (FFile b) \<and> fs' = gm_put q (FFile b) (gm_del p fs)))"
  using assms by (auto simp: os_rename_def split: option.splits fentry.splits if_splits)

lemma write_tmp_result:
  assumes "write_tmp L p data fs = (fs', r)"
  shows "(r = Ok () \<and> map_of fs' p = Some (FFile data) \<and> map_of fs' (tmp_of p) = None \<and>
      (\<forall>q. q \<noteq> p \<longrightarrow> q \<noteq> tmp_of p \<longrightarrow> map_of fs' q = map_of fs q)) \<or>
    ((\<exists>e. r = Fail e) \<and> (\<forall>q. q \<noteq> tmp_of p \<longrightarrow> map_of fs' q = map_of fs q))"
proof -
  obtain fs2 e where rn: "os_rename L (gm_put (tmp_of p) (FFile data) fs) (tmp_of p) p = (fs2, e)"
    by force
  from os_rename_cases [OF rn] have
    "(e \<noteq> None \<and> fs2 = gm_put (tmp_of p) (FFile data) fs) \<or>
     (e = None \<and> fs2 = gm_put p (FFile data) (gm_del (tmp_of p) (gm_put (tmp_of p) (FFile data) fs)))"
    by (auto simp: update_conv)
  with assms rn show ?thesis
    by (auto simp: write_tmp_def Let_def serr_def update_conv delete_conv split: option.splits)
qed

lemma writeAndSync_result:
  assumes "writeAndSync L p data fs = (fs', r)"
  shows "(r = Ok () \<and> map_of fs' p = Some (FFile data) \<and> map_of fs' (tmp_of p) = None \<or>
      (\<exists>e. r = Fail e) \<and> map_of fs' p = map_of fs p) \<and>
    (\<forall>q. q \<noteq> p \<longrightarrow> q \<noteq> tmp_of p \<longrightarrow> map_of fs' q = map_of fs q)"
proof -
  obtain fs1 e where o: "os_write_file L fs (tmp_of p) [] = (fs1, e)" by force
  have o1: "q \<noteq> tmp_of p \<Longrightarrow> map_of fs1 q = map_of fs q" for q
    using os_write_file_other [of q "tmp_of p" L fs "[]"] o by simp
  obtain fs2 r2 where t: "write_tmp L p data fs1 = (fs2, r2)" by force
  obtain fs3 e3 where d: "os_remove L fs2 (tmp_of p) = (fs3, e3)" by force
  have d1: "q \<noteq> tmp_of p \<Longrightarrow> map_of fs3 q = map_of fs2 q" for q
    using os_remove_other [of q "tmp_of p" L fs2] d by simp
  have d2: "map_of fs3 (tmp_of p) = None" if "map_of fs2 (tmp_of p) = None"
    using d that by (auto simp: os_remove_def gm_has_def split: option.splits)
  show ?thesis
  proof (cases e)
    case None
    with assms o t d have "fs' = fs3" "r = r2" by (simp_all add: writeAndSync_def Let_def)
    with write_tmp_result [OF t] o1 d1 d2 show ?thesis by auto
  next
    case (Some x)
    with assms o o1 show ?thesis by (auto simp: writeAndSync_def)
  qed
qed

lemma writeAndSync_distinct:
  assumes "distinct (map fst fs)"
  shows "distinct (map fst (fst (writeAndSync L p data fs)))"
proof -
  have rn: "distinct (map fst (fst (os_rename L fs a b)))" if "distinct (map fst fs)" for fs a b
    using that by (auto simp: os_rename_def distinct_update distinct_delete split: option.splits fentry.splits)
  have w: "distinct (map fst (fst (write_tmp L p data fs)))" if "distinct (map fst fs)" for fs
    using that by (auto simp: write_tmp_def Let_def serr_def distinct_update rn split: option.splits)
  have r: "distinct (map fst (fst (os_remove L fs q)))" if "distinct (map fst fs)" for fs q
    using that by (auto simp: os_remove_def distinct_delete split: option.splits)
  have o: "distinct (map fst (fst (os_write_file L fs (tmp_of p) [])))"
    using assms by (rule write_file_keeps_distinct)
  then show ?thesis
    by (auto simp: writeAndSync_def Let_def split: prod.splits option.splits intro!: r w)
qed

section \<open>Visiting a tree of files\<close>

lemma fs_visits_file:
  assumes "map_of fs p = Some (FFile b)" and "prefix root p" and "gm_has fs root"
    and "\<And>q. prefix root q \<Longrightarrow> prefix q p \<Longrightarrow> io_fault L ''walk'' q = None"
  shows "(p, Some (FFile b), None) \<in> set (fs_visits L fs root)"
proof -
  have "(p, FFile b) \<in> set (fs_walk fs root)"
    using assms(1,2) map_of_SomeD by fastforce
  moreover have "\<not> list_ex (\<lambda>r. prefix root r \<and> r \<noteq> p \<and> io_fault L ''walk'' r \<noteq> None) (prefixes p)"
    using assms(4) by (auto simp: list_ex_iff)
  ultimately have "(p, FFile b) \<in> set (filter (\<lambda>(q, _). \<not> list_ex (\<lambda>r. prefix root r \<and> r \<noteq> q \<and>
      io_fault L ''walk'' r \<noteq> None) (prefixes q)) (fs_walk fs root))" by simp
  moreover have "io_fault L ''walk'' p = None" using assms(2,4) by blast
  ultimately show ?thesis using assms(3) by (force simp: fs_visits_def)
qed

lemma fs_visits_in:
  assumes "(p, info, err) \<in> set (fs_visits L fs root)" and "info = Some n"
  shows "(p, n) \<in> set fs" "prefix root p"
  using assms by (auto simp: fs_visits_def split: if_splits)

section \<open>Apps that were added are listed\<close>

lemma path_join_uri: "path_join d [''uri''] = d @ [''uri'']"
  by (simp add: path_join_def push_comp_def)

lemma tmp_of_snoc [simp]: "tmp_of (d @ [x]) = d @ [x @ ''.tmp'']"
  by (simp add: tmp_of_def)

lemma mkdir_all_result:
  assumes "os_mkdir_all L fs d = (fs', None)"
  shows "map_of fs' q = (if map_of fs q = None \<and> prefix q d then Some FDir else map_of fs q)"
  using assms by (auto simp: os_mkdir_all_def map_of_mkdirs in_set_prefixes split: option.splits if_splits)

lemma add_app_result:
  assumes "add_app L s r fs = (fs', Ok ())"
  obtains d where "app_dir L s r = Ok d"
    "map_of fs' (d @ [''uri'']) = Some (FFile (AppRef_String L r))"
    "\<And>q. q \<noteq> d @ [''uri''] \<Longrightarrow> q \<noteq> d @ [''uri.tmp''] \<Longrightarrow>
       map_of fs' q = (if map_of fs q = None \<and> prefix q d then Some FDir else map_of fs q)"
proof -
  from assms obtain d fs1 where d: "app_dir L s r = Ok d" and m: "os_mkdir_all L fs d = (fs1, None)"
    and w: "writeAndSync L (path_join d [''uri'']) (AppRef_String L r) fs1 = (fs', Ok ())"
    unfolding add_app_def by (auto simp: stmt_iffs)
  show thesis
    using that [OF d] writeAndSync_result [OF w] mkdir_all_result [OF m]
    by (simp add: path_join_uri)
qed

lemma add_app_keeps_uri:
  assumes "add_app L s r' fs = (fs', Ok ())" and "map_of fs (d @ [''uri'']) = Some (FFile c)"
    and "app_dir L s r' = Ok d \<Longrightarrow> AppRef_String L r' = c"
  shows "map_of fs' (d @ [''uri'']) = Some (FFile c)"
proof -
  obtain d' where d': "app_dir L s r' = Ok d'"
    and u: "map_of fs' (d' @ [''uri'']) = Some (FFile (AppRef_String L r'))"
    and eff: "\<And>q. q \<noteq> d' @ [''uri''] \<Longrightarrow> q \<noteq> d' @ [''uri.tmp''] \<Longrightarrow>
       map_of fs' q = (if map_of fs q = None \<and> prefix q d' then Some FDir else map_of fs q)"
    using add_app_result [OF assms(1)] by metis
  show ?thesis
  proof (cases "d' = d")
    case True
    from assms(3) d' True have "AppRef_String L r' = c" by blast
    with u True show ?thesis by simp
  next
    case False
    then have "d @ [''uri''] \<noteq> d' @ [''uri'']" "d @ [''uri''] \<noteq> d' @ [''uri.tmp'']" by simp_all
    from eff [OF this] assms(2) show ?thesis by simp
  qed
qed

lemma add_apps_uri:
  assumes "sfor (add_app L s) rs fs = (fs', Ok ())"
    and "r \<in> set rs \<or> (app_dir L s r = Ok d \<and> map_of fs (d @ [''uri'']) = Some (FFile (AppRef_String L r)))"
    and "\<And>r'. r' \<in> set rs \<Longrightarrow> app_dir L s r' = app_dir L s r \<Longrightarrow> AppRef_String L r' = AppRef_String L r"
    and "app_dir L s r = Ok d"
  shows "map_of fs' (d @ [''uri'']) = Some (FFile (AppRef_String L r))"
  using assms(1-3)
proof (induction rs arbitrary: fs)
  case (Cons x xs)
  from Cons.prems(1) obtain fs1 where a: "add_app L s x fs = (fs1, Ok ())"
    and rest: "sfor (add_app L s) xs fs1 = (fs', Ok ())"
    by (auto simp: sbind_Ok_iff)
  have here: "map_of fs1 (d @ [''uri'']) = Some (FFile (AppRef_String L r))"
    if "x = r \<or> r \<notin> set xs"
  proof (cases "x = r")
    case True
    obtain d0 where "app_dir L s x = Ok d0"
      "map_of fs1 (d0 @ [''uri'']) = Some (FFile (AppRef_String L x))"
      by (rule add_app_result [OF a])
    with True assms(4) show ?thesis by simp
  next
    case False
    with that Cons.prems(2) have "map_of fs (d @ [''uri'']) = Some (FFile (AppRef_String L r))" by auto
    show ?thesis
    proof (rule add_app_keeps_uri [OF a \<open>map_of fs (d @ [''uri'']) = _\<close>])
      assume "app_dir L s x = Ok d"
      with assms(4) show "AppRef_String L x = AppRef_String L r" by (intro Cons.prems(3)) simp_all
    qed
  qed
  show ?case
  proof (rule Cons.IH [OF rest])
    show "r \<in> set xs \<or> app_dir L s r = Ok d \<and>
        map_of fs1 (d @ [''uri'']) = Some (FFile (AppRef_String L r))"
      using here assms(4) by blast
    show "AppRef_String L r' = AppRef_String L r"
      if "r' \<in> set xs" "app_dir L s r' = app_dir L s r" for r'
      by (rule Cons.prems(3)) (use that in simp_all)
  qed
qed (use assms(4) in auto)

lemma add_apps_root:
  assumes "sfor (add_app L s) rs fs = (fs', Ok ())" and "rs \<noteq> [] \<or> gm_has fs q"
    and "\<And>x dx. x \<in> set rs \<Longrightarrow> app_dir L s x = Ok dx \<Longrightarrow> prefix q dx"
  shows "gm_has fs' q"
  using assms
proof (induction rs arbitrary: fs)
  case (Cons x xs)
  from Cons.prems(1) obtain fs1 where a: "add_app L s x fs = (fs1, Ok ())"
    and rest: "sfor (add_app L s) xs fs1 = (fs', Ok ())"
    by (auto simp: sbind_Ok_iff)
  obtain dx where dx: "app_dir L s x = Ok dx"
    and eff: "q \<noteq> dx @ [''uri''] \<Longrightarrow> q \<noteq> dx @ [''uri.tmp''] \<Longrightarrow>
       map_of fs1 q = (if map_of fs q = None \<and> prefix q dx then Some FDir else map_of fs q)"
    using add_app_result [OF a] by metis
  have "prefix q dx" by (rule Cons.prems(3) [OF _ dx]) simp
  moreover then have "q \<noteq> dx @ [''uri'']" "q \<noteq> dx @ [''uri.tmp'']" by (auto simp: prefix_def)
  ultimately have "gm_has fs1 q" using eff by (auto simp: gm_has_def)
  show ?case
  proof (rule Cons.IH [OF rest])
    show "xs \<noteq> [] \<or> gm_has fs1 q" using \<open>gm_has fs1 q\<close> by blast
    show "prefix q dy" if "y \<in> set xs" "app_dir L s y = Ok dy" for y dy
      by (rule Cons.prems(3) [OF _ that(2)]) (use that(1) in simp)
  qed
qed simp

lemma ListApps_mem:
  assumes "ListApps L s fs = Ok rs" and "(p, Some (FFile b), None) \<in> set (fs_visits L fs (as_apps_root s))"
    and "path_base p = ''uri''" and "map_of fs p = Some (FFile b)" and "ParseAppRef L b = Ok r"
  shows "r \<in> set rs"
proof -
  from assms(1) obtain rss where m: "map_res (list_visit L fs s) (fs_visits L fs (as_apps_root s)) = Ok rss"
    and rs: "rs = concat rss" by (auto simp: ListApps_def rbind_Ok_iff)
  from map_res_Ok_mem [OF m assms(2)] obtain y where y: "y \<in> set rss"
    "list_visit L fs s (p, Some (FFile b), None) = Ok y" by blast
  then have "r \<in> set y"
    using assms(3-5) by (auto simp: rbind_Ok_iff os_read_file_def split: option.splits)
  with y(1) rs show ?thesis by auto
qed

lemma added_is_listed_helper:
  assumes "AddApps L s uris fs = (fs', Ok ())" and "ListApps L s fs' = Ok rs"
    and "u \<in> set uris" and "ParseAppRef L u = Ok r" and "app_dir L s r = Ok d"
    and "ParseAppRef L (AppRef_String L r) = Ok r"
    and "\<And>u' r'. u' \<in> set uris \<Longrightarrow> ParseAppRef L u' = Ok r' \<Longrightarrow> app_dir L s r' = app_dir L s r \<Longrightarrow>
           AppRef_String L r' = AppRef_String L r"
    and "\<And>u' r' d'. u' \<in> set uris \<Longrightarrow> ParseAppRef L u' = Ok r' \<Longrightarrow> app_dir L s r' = Ok d' \<Longrightarrow>
           prefix (as_apps_root s) d'"
    and "\<And>q. io_fault L ''walk'' q = None"
  shows "r \<in> set rs"
proof -
  from assms(1) obtain refs where refs: "map_res (ParseAppRef L) uris = Ok refs"
    and loop: "sfor (add_app L s) refs fs = (fs', Ok ())"
    by (auto simp: AddApps_def stmt_iffs)
  from map_res_Ok_mem [OF refs assms(3)] assms(4) have r: "r \<in> set refs" by auto
  have uf: "map_of fs' (d @ [''uri'']) = Some (FFile (AppRef_String L r))"
    using add_apps_uri [OF loop _ _ assms(5)] r assms(7) map_res_Ok_set [OF refs] by blast
  have "gm_has fs' (as_apps_root s)"
  proof (rule add_apps_root [OF loop])
    show "refs \<noteq> [] \<or> gm_has fs (as_apps_root s)" using r by auto
    show "prefix (as_apps_root s) dx" if "x \<in> set refs" "app_dir L s x = Ok dx" for x dx
      using map_res_Ok_set [OF refs that(1)] assms(8) that(2) by blast
  qed
  moreover have "prefix (as_apps_root s) (d @ [''uri''])"
    by (rule prefix_prefix [OF assms(8) [OF assms(3-5)]])
  ultimately have "(d @ [''uri''], Some (FFile (AppRef_String L r)), None) \<in>
      set (fs_visits L fs' (as_apps_root s))"
    using uf assms(9) by (intro fs_visits_file) auto
  from ListApps_mem [OF assms(2) this _ uf assms(6)] show ?thesis by (simp add: path_base_def)
qed

section \<open>What pruning removes\<close>

lemma remove_all_effect:
  assumes "sfor (\<lambda>p fs. serr (os_remove_all L fs p)) ps fs = (fs', Ok ())"
  shows "map_of fs' q = (if \<exists>p\<in>set ps. prefix p q then None else map_of fs q)"
  using assms
proof (induction ps arbitrary: fs)
  case (Cons p ps)
  from Cons.prems obtain fs1 where r: "os_remove_all L fs p = (fs1, None)"
    and rest: "sfor (\<lambda>p fs. serr (os_remove_all L fs p)) ps fs1 = (fs', Ok ())"
    by (auto simp: stmt_iffs)
  from r have "map_of fs1 q = (if prefix p q then None else map_of fs q)"
    by (auto simp: os_remove_all_def map_of_filter_key [where P = "\<lambda>q. \<not> prefix p q"] split: option.splits)
  with Cons.IH [OF rest] show ?case by auto
qed simp

definition node_encs :: "'z lib_scheme \<Rightarrow> tree \<Rightarrow> string set" where
  "node_encs L t = {enc. \<exists>n k. (n, k) \<in> set (nodes 0 t) \<and> dg_encoded L (d_digest (t_desc n)) = Ok enc}"

lemma app_blobs_result:
  assumes "app_blobs L t refs = (Ok u, refs')"
  shows "set refs' = set refs \<union> node_encs L t"
    and "\<And>n k. (n, k) \<in> set (nodes 0 t) \<Longrightarrow> \<exists>enc\<in>node_encs L t. dg_encoded L (d_digest (t_desc n)) = Ok enc"
proof -
  let ?cb = "\<lambda>node depth refs.
       (case dg_encoded L (d_digest (t_desc node)) of
          Ok enc \<Rightarrow> (Ok (), enc # refs)
        | Fail e \<Rightarrow> (Fail e, refs)
        | Panic m \<Rightarrow> (Panic m, refs))"
  have run: "run_visits ?cb (visits 0 t) refs = (Ok u, refs')"
    using assms by (simp add: app_blobs_def Walk_def walk_run_visits)
  have gen: "None \<notin> set vs \<and>
      set refs' = set refs \<union> {enc. \<exists>n k. Some (n, k) \<in> set vs \<and> dg_encoded L (d_digest (t_desc n)) = Ok enc} \<and>
      (\<forall>n k. Some (n, k) \<in> set vs \<longrightarrow> (\<exists>enc. dg_encoded L (d_digest (t_desc n)) = Ok enc))"
    if "run_visits ?cb vs refs = (Ok u, refs')" for vs refs
    using that
  proof (induction vs arbitrary: refs)
    case (Cons v vs)
    then obtain n k where v: "v = Some (n, k)" by (cases v) auto
    with Cons.prems obtain enc where e: "dg_encoded L (d_digest (t_desc n)) = Ok enc"
      and rest: "run_visits ?cb vs (enc # refs) = (Ok u, refs')"
      by (auto split: res.splits)
    from Cons.IH [OF rest] v e show ?case by auto
  qed simp
  from gen [OF run] visits_deep [of t 0] have "height t \<le> MaxMerkleTreeDepth" by force
  then have v: "visits 0 t = map Some (nodes 0 t)" by (simp add: visits_shallow)
  have mem: "Some (n, k) \<in> set (visits 0 t) \<longleftrightarrow> (n, k) \<in> set (nodes 0 t)" for n k
    unfolding v by auto
  show "set refs' = set refs \<union> node_encs L t"
    using gen [OF run] by (simp add: mem node_encs_def)
  show "\<exists>enc\<in>node_encs L t. dg_encoded L (d_digest (t_desc n)) = Ok enc"
    if "(n, k) \<in> set (nodes 0 t)" for n k
    using gen [OF run] that unfolding mem node_encs_def by blast
qed

text \<open>The tree of a listed app, and the names of the blobs that the listed apps refer to.\<close>

definition store_tree :: "('x, 'z) sys_scheme \<Rightarrow> 'x world \<Rightarrow> app_store \<Rightarrow> app_ref \<Rightarrow> app_ctx res" where
  "store_tree X w s r =
     LoadAppTree X ctx_background (appStore_provider X w s) (platform_match X (as_platform s))
       (AppRef_String X r)"

definition referenced :: "('x, 'z) sys_scheme \<Rightarrow> 'x world \<Rightarrow> app_store \<Rightarrow> app_ref list \<Rightarrow> string set" where
  "referenced X w s apps =
     {enc. \<exists>r\<in>set apps. \<exists>a. store_tree X w s r = Ok a \<and> enc \<in> node_encs X (a_tree a)}"

lemma referenced_blobs_result:
  assumes "referenced_blobs X w s apps refs = Ok refs'"
  shows "set refs' = set refs \<union> referenced X w s apps \<and>
    (\<forall>r\<in>set apps. \<exists>a. store_tree X w s r = Ok a \<and>
      (\<forall>(n, k)\<in>set (nodes 0 (a_tree a)).
         \<exists>enc\<in>node_encs X (a_tree a). dg_encoded X (d_digest (t_desc n)) = Ok enc))"
  using assms
proof (induction apps arbitrary: refs)
  case Nil
  then show ?case by (simp add: referenced_def)
next
  case (Cons r rs)
  from Cons.prems obtain a where a: "store_tree X w s r = Ok a"
    and body: "(let (r, refs1) = app_blobs X (a_tree a) refs
       in rbind r (\<lambda>_. referenced_blobs X w s rs refs1)) = Ok refs'"
    unfolding referenced_blobs.simps store_tree_def by (elim rbind_is_okE)
  obtain r1 refs1 where b: "app_blobs X (a_tree a) refs = (r1, refs1)" by force
  with body obtain u where u: "r1 = Ok u" and rest: "referenced_blobs X w s rs refs1 = Ok refs'"
    by (auto simp: rbind_Ok_iff)
  note bl = app_blobs_result [OF b [unfolded u]]
  have "referenced X w s (r # rs) = node_encs X (a_tree a) \<union> referenced X w s rs"
    using a by (auto simp: referenced_def)
  with Cons.IH [OF rest] bl a show ?case by auto
qed

lemma Prune_OkD:
  assumes "Prune X s w = (w', Ok ps)"
  obtains apps refs pss fs' where "ListApps X s (w_fs w) = Ok apps"
    "referenced_blobs X w s apps [] = Ok refs"
    "map_res (prune_visit s refs) (fs_visits X (w_fs w) (as_blobs_root s)) = Ok pss"
    "ps = concat pss" "w' = w\<lparr>w_fs := fs'\<rparr>"
    "sfor (\<lambda>p fs. serr (os_remove_all X fs p)) ps (w_fs w) = (fs', Ok ())"
proof -
  from assms have b: "blobs_to_prune X s w = Ok ps"
    by (auto simp: Prune_def rbind_Ok_iff split: res.splits prod.splits)
  obtain fs' r where l: "sfor (\<lambda>p fs. serr (os_remove_all X fs p)) ps (w_fs w) = (fs', r)" by force
  with assms b have "w' = w\<lparr>w_fs := fs'\<rparr>" "r = Ok ()"
    by (auto simp: Prune_def rbind_Ok_iff)
  with l b that show thesis by (auto simp: blobs_to_prune_def rbind_Ok_iff)
qed

text \<open>A file system in which nothing lies below a file.\<close>

definition fs_wf :: "fs \<Rightarrow> bool" where
  "fs_wf fs \<longleftrightarrow> distinct (map fst fs) \<and>
     (\<forall>p q b. map_of fs p = Some (FFile b) \<longrightarrow> strict_prefix p q \<longrightarrow> map_of fs q = None)"

lemma prune_selected:
  assumes "map_res (prune_visit s refs) (fs_visits X fs (as_blobs_root s)) = Ok pss"
    and "p \<in> set (concat pss)" and "distinct (map fst fs)"
  shows "\<exists>b. map_of fs p = Some (FFile b)" "prefix (as_blobs_root s) p" "path_base p \<notin> set refs"
proof -
  from assms(2) obtain y where "y \<in> set pss" "p \<in> set y" by auto
  with map_res_Ok_set [OF assms(1)] obtain q info err where
    v: "(q, info, err) \<in> set (fs_visits X fs (as_blobs_root s))"
    and pv: "prune_visit s refs (q, info, err) = Ok y" by (metis prod_cases3)
  with \<open>p \<in> set y\<close> obtain b where b: "info = Some (FFile b)" "q = p" "path_base p \<notin> set refs"
    by (auto split: if_splits option.splits fentry.splits)
  with fs_visits_in [OF v] assms(3) show "\<exists>b. map_of fs p = Some (FFile b)"
    "prefix (as_blobs_root s) p" "path_base p \<notin> set refs" by auto
qed

lemma prune_complete:
  assumes "map_res (prune_visit s refs) (fs_visits X fs (as_blobs_root s)) = Ok pss"
    and "map_of fs p = Some (FFile b)" and "prefix (as_blobs_root s) p" and "path_base p \<notin> set refs"
    and "\<And>q. io_fault X ''walk'' q = None" and "gm_has fs (as_blobs_root s)"
  shows "p \<in> set (concat pss)"
proof -
  have v: "(p, Some (FFile b), None) \<in> set (fs_visits X fs (as_blobs_root s))"
    by (rule fs_visits_file) (use assms in auto)
  from map_res_Ok_mem [OF assms(1) v] obtain y where "y \<in> set pss"
    "prune_visit s refs (p, Some (FFile b), None) = Ok y" by blast
  with assms(4) have "[p] \<in> set pss" by simp
  then show ?thesis by force
qed

lemma Prune_effect:
  assumes "Prune X s w = (w', Ok ps)" and "fs_wf (w_fs w)"
    and "map_of (w_fs w) (as_blobs_root s) = Some FDir" and "\<And>q. io_fault X ''walk'' q = None"
  shows "\<exists>apps. ListApps X s (w_fs w) = Ok apps \<and>
    (\<forall>r\<in>set apps. \<exists>a. store_tree X w s r = Ok a) \<and>
    (\<forall>p. map_of (w_fs w') p =
       (if prefix (as_blobs_root s) p \<and> (\<exists>b. map_of (w_fs w) p = Some (FFile b)) \<and>
           path_base p \<notin> referenced X w s apps
        then None else map_of (w_fs w) p))"
proof -
  from Prune_OkD [OF assms(1)] obtain apps refs pss fs' where
    apps: "ListApps X s (w_fs w) = Ok apps"
    and refs: "referenced_blobs X w s apps [] = Ok refs"
    and pss: "map_res (prune_visit s refs) (fs_visits X (w_fs w) (as_blobs_root s)) = Ok pss"
    and ps: "ps = concat pss" and w': "w' = w\<lparr>w_fs := fs'\<rparr>"
    and loop: "sfor (\<lambda>p fs. serr (os_remove_all X fs p)) ps (w_fs w) = (fs', Ok ())" by blast
  have dist: "distinct (map fst (w_fs w))" using assms(2) by (simp add: fs_wf_def)
  note sel = prune_selected [OF pss _ dist, folded ps]
  note r = referenced_blobs_result [OF refs]
  have eq: "(\<exists>q\<in>set ps. prefix q p) \<and> map_of (w_fs w) p \<noteq> None \<longleftrightarrow>
      prefix (as_blobs_root s) p \<and> (\<exists>b. map_of (w_fs w) p = Some (FFile b)) \<and> path_base p \<notin> set refs" for p
  proof (intro iffI)
    assume "(\<exists>q\<in>set ps. prefix q p) \<and> map_of (w_fs w) p \<noteq> None"
    then obtain q where q: "q \<in> set ps" "prefix q p" "map_of (w_fs w) p \<noteq> None" by blast
    from sel(1) [OF q(1)] obtain b where "map_of (w_fs w) q = Some (FFile b)" by blast
    with q(2,3) assms(2) have "q = p" unfolding fs_wf_def strict_prefix_def by (metis option.distinct(1))
    with sel [OF q(1)] show "prefix (as_blobs_root s) p \<and>
        (\<exists>b. map_of (w_fs w) p = Some (FFile b)) \<and> path_base p \<notin> set refs" by blast
  next
    assume h: "prefix (as_blobs_root s) p \<and>
        (\<exists>b. map_of (w_fs w) p = Some (FFile b)) \<and> path_base p \<notin> set refs"
    then obtain b where b: "map_of (w_fs w) p = Some (FFile b)" by blast
    have "gm_has (w_fs w) (as_blobs_root s)" using assms(3) by (simp add: gm_has_def)
    from prune_complete [OF pss b _ _ assms(4) this] h ps have "p \<in> set ps" by blast
    with b show "(\<exists>q\<in>set ps. prefix q p) \<and> map_of (w_fs w) p \<noteq> None" by auto
  qed
  have "map_of (w_fs w') p =
       (if prefix (as_blobs_root s) p \<and> (\<exists>b. map_of (w_fs w) p = Some (FFile b)) \<and>
           path_base p \<notin> set refs
        then None else map_of (w_fs w) p)" for p
    using remove_all_effect [OF loop, of p] eq [of p] w' by auto
  with apps r show ?thesis by auto
qed

text \<open>In particular no blob of a listed app is lost.\<close>

lemma Prune_keeps_helper:
  assumes "Prune X s w = (w', Ok ps)" and "fs_wf (w_fs w)"
    and "map_of (w_fs w) (as_blobs_root s) = Some FDir"
    and "ListApps X s (w_fs w) = Ok apps" and "r \<in> set apps"
    and "store_tree X w s r = Ok a" and "(n, k) \<in> set (nodes 0 (a_tree a))"
  shows "\<exists>enc. dg_encoded X (d_digest (t_desc n)) = Ok enc \<and>
    map_of (w_fs w') (as_blobs_root s @ [enc]) = map_of (w_fs w) (as_blobs_root s @ [enc])"
proof -
  from Prune_OkD [OF assms(1)] obtain apps' refs pss fs' where
    la: "ListApps X s (w_fs w) = Ok apps'"
    and refs': "referenced_blobs X w s apps' [] = Ok refs"
    and pss: "map_res (prune_visit s refs) (fs_visits X (w_fs w) (as_blobs_root s)) = Ok pss"
    and ps: "ps = concat pss" and w': "w' = w\<lparr>w_fs := fs'\<rparr>"
    and loop: "sfor (\<lambda>p fs. serr (os_remove_all X fs p)) ps (w_fs w) = (fs', Ok ())" by blast
  from la assms(4) have "apps' = apps" by simp
  with refs' have refs: "referenced_blobs X w s apps [] = Ok refs" by simp
  have dist: "distinct (map fst (w_fs w))" using assms(2) by (simp add: fs_wf_def)
  note sel = prune_selected [OF pss _ dist, folded ps]
  note rb = referenced_blobs_result [OF refs]
  then have rs: "set refs = referenced X w s apps" by simp
  from rb assms(5) obtain a' where a': "store_tree X w s r = Ok a'"
    "\<forall>(n, k)\<in>set (nodes 0 (a_tree a')). \<exists>enc\<in>node_encs X (a_tree a'). dg_encoded X (d_digest (t_desc n)) = Ok enc"
    by blast
  with assms(6) have "a' = a" by simp
  with a'(2) assms(7) obtain enc where enc: "dg_encoded X (d_digest (t_desc n)) = Ok enc"
    and "enc \<in> node_encs X (a_tree a)" by blast
  with assms(5,6) have er: "enc \<in> set refs" unfolding rs referenced_def by blast
  have "\<not> prefix q (as_blobs_root s @ [enc])" if "q \<in> set ps" for q
  proof
    assume pre: "prefix q (as_blobs_root s @ [enc])"
    from sel [OF that] obtain b where b: "map_of (w_fs w) q = Some (FFile b)"
      "prefix (as_blobs_root s) q" "path_base q \<notin> set refs" by blast
    from pre b(2) have "q = as_blobs_root s \<or> q = as_blobs_root s @ [enc]"
      by (metis prefix_order.antisym prefix_snoc)
    with b assms(3) er show False by (auto simp: path_base_def)
  qed
  with remove_all_effect [OF loop, of "as_blobs_root s @ [enc]"] w' enc show ?thesis by auto
qed

section \<open>Files for aklite\<close>

text \<open>
  \<open>MakeAkliteHappy\<close> links the manifest and the bundle of an app from the blob directory, writes
  its URI and compose file, and writes one index per image.  A hard link is a further file with
  the same bytes: blobs are never changed in place.  A failing \<open>chmod\<close> is an error; permissions
  are not modelled otherwise.
\<close>

definition relink :: "'z lib_scheme \<Rightarrow> path \<Rightarrow> path \<Rightarrow> fs \<Rightarrow> fs \<times> unit res" where
  "relink L blobPath link fs =
     (let fs1 = (if is_ok (os_stat L fs link) then fst (sys_unlink L fs link) else fs)
      in serr (sys_link L fs1 blobPath link))"

text \<open>The bundle: a link that cannot be removed is taken to be good.\<close>

definition relink_bundle :: "'z lib_scheme \<Rightarrow> path \<Rightarrow> path \<Rightarrow> fs \<Rightarrow> fs \<times> unit res" where
  "relink_bundle L blobPath link fs =
     (case os_stat L fs link of
        Ok _ \<Rightarrow>
          (case sys_unlink L fs link of
             (fs1, Some _) \<Rightarrow> (fs1, Ok ())
           | (fs1, None) \<Rightarrow> serr (sys_link L fs1 blobPath link))
      | _ \<Rightarrow> serr (sys_link L fs blobPath link))"

definition image_index_manifests ::
  "(platform \<Rightarrow> bool) \<Rightarrow> tree \<Rightarrow> descriptor list res" where
  "image_index_manifests pm imageNode =
     (if t_type imageNode = BlobTypeImageIndex
      then rbind (map_res (\<lambda>im. case d_platform (t_desc im) of
                     None \<Rightarrow> Panic ''nil pointer dereference''
                   | Some p \<Rightarrow> Ok (if pm p then [t_desc im] else [])) (t_children imageNode))
             (\<lambda>ds. Ok (concat ds))
      else Ok [t_desc imageNode])"

definition chmod_blob :: "'z lib_scheme \<Rightarrow> app_store \<Rightarrow> descriptor \<Rightarrow> fs \<Rightarrow> fs \<times> unit res" where
  "chmod_blob L s m fs =
     sbind (slift (dg_encoded L (d_digest m)) fs) (\<lambda>enc fs.
       let p = path_join (as_blobs_root s) [enc] in
       (case io_fault L ''chmod'' p of
          Some e \<Rightarrow> (fs, Fail e)
        | None \<Rightarrow> if gm_has fs p then (fs, Ok ()) else (fs, Fail (no_such_file ''chmod'' p))))"

definition write_image_index ::
  "'z lib_scheme \<Rightarrow> app_store \<Rightarrow> (platform \<Rightarrow> bool) \<Rightarrow> path \<Rightarrow> tree \<Rightarrow> fs \<Rightarrow> fs \<times> unit res" where
  "write_image_index L s pm appDir imageNode fs =
     sbind (slift (ref_parse L (t_Ref imageNode)) fs) (\<lambda>uri fs.
       sbind (slift (slice_from (length (ref_hostname L uri)) (rs_locator uri)) fs) (\<lambda>imagePath fs.
         sbind (slift (dg_encoded L (ref_digest L uri)) fs) (\<lambda>enc fs.
           let imageDir = path_join appDir [''images'', ref_hostname L uri, imagePath, enc];
               indexFile = path_join imageDir [''index.json'']
           in if is_ok (os_stat L fs indexFile) then (fs, Ok ())
              else sbind (serr (os_mkdir_all L fs imageDir)) (\<lambda>_ fs.
                sbind (slift (image_index_manifests pm imageNode) fs) (\<lambda>manifests fs.
                  sbind (slift (json_index L manifests) fs) (\<lambda>b fs.
                    sbind (writeAndSync L indexFile b fs) (\<lambda>_ fs.
                      sfor (chmod_blob L s) manifests fs)))))))"

definition MakeAkliteHappy ::
  "('x, 'z) sys_scheme \<Rightarrow> app_store \<Rightarrow> app_ctx \<Rightarrow> (platform \<Rightarrow> bool) \<Rightarrow> 'x world \<Rightarrow> fs \<times> unit res" where
  "MakeAkliteHappy X s app pm w =
     (let blobs = GetBlobsRootFor (as_root s) in
      sbind (slift (dg_encoded X (a_Digest app)) (w_fs w)) (\<lambda>enc fs.
        let appDir = path_join (as_root s) [''apps'', a_Name app, enc] in
        sbind (serr (os_mkdir_all X fs appDir)) (\<lambda>_ fs.
          sbind (relink X (path_join blobs [enc]) (path_join appDir [''manifest.json'']) fs) (\<lambda>_ fs.
            sbind (writeAndSync X (path_join appDir [''uri'']) (AppRef_String X (a_ref app)) fs) (\<lambda>_ fs.
              sbind (slift (GetComposeDescriptor app) fs) (\<lambda>bundle fs.
                sbind (slift (dg_encoded X (d_digest bundle)) fs) (\<lambda>benc fs.
                  sbind (relink_bundle X (path_join blobs [benc]) (path_join appDir [benc @ ''.tgz'']) fs) (\<lambda>_ fs.
                    sbind (slift (readCompose X ctx_background (NewLocalBlobProvider X w) app) fs) (\<lambda>b fs.
                      (let fs1 = fst (writeAndSync X (path_join appDir [''docker-compose.yml'']) (fst b) fs) in
                       case GetComposeRoot app of
                         None \<Rightarrow> (fs1, Panic ''nil pointer dereference'')
                       | Some root \<Rightarrow> sfor (write_image_index X s pm appDir) (t_children root) fs1))))))))))"

section \<open>What removing an app touches\<close>

lemma remove_app_frame:
  assumes "app_dir L s a = Ok d" and "\<not> prefix (path_join (as_apps_root s) [ar_name a]) q"
    and "prefix (path_join (as_apps_root s) [ar_name a]) d"
  shows "map_of (fst (remove_app L s a fs)) q = map_of fs q"
proof -
  let ?n = "path_join (as_apps_root s) [ar_name a]"
  have r: "map_of (fst (os_remove_all L fs p)) q = map_of fs q" if "prefix ?n p" for p fs
  proof -
    have "\<not> prefix p q" using that assms(2) by (meson prefix_order.trans)
    then show ?thesis
      by (auto simp: os_remove_all_def map_of_filter_key [where P = "\<lambda>q. \<not> prefix p q"] split: option.splits)
  qed
  have "map_of (fst (sbind (serr (os_remove_all L fs d)) (\<lambda>_ fs.
         let appVerNumb = length (filter (\<lambda>(p, _). p \<noteq> ?n) (fs_visits L fs ?n))
         in if appVerNumb = 0 then serr (os_remove_all L fs ?n) else (fs, Ok ())))) q = map_of fs q"
    by (rule sbind_keeps [where P = "\<lambda>f. map_of f q = map_of fs q"])
      (use r assms(3) in \<open>auto simp: serr_def Let_def\<close>)
  then show ?thesis
    by (simp add: remove_app_def assms(1) slift_def Let_def)
qed

lemma remove_app_gone:
  assumes "app_dir L s a = Ok d" and "remove_app L s a fs = (fs', Ok ())" and "prefix d q"
    and "fs_wf fs" and "\<And>op p. io_fault L op p = None" and "\<And>p. prefix p d \<Longrightarrow> gm_has fs q \<Longrightarrow> gm_has fs p"
  shows "map_of fs' q = None"
proof -
  have g: "map_of (fst (os_remove_all L fs p)) q = None" if "prefix p q" for p fs
    using that assms(5)
    by (simp add: os_remove_all_def map_of_filter_key [where P = "\<lambda>q. \<not> prefix p q"])
  have k: "map_of (fst (os_remove_all L fs p)) q = None" if "map_of fs q = None" for p fs
    using that assms(5)
    by (simp add: os_remove_all_def map_of_filter_key [where P = "\<lambda>q. \<not> prefix p q"])
  show ?thesis
  proof (cases "map_of fs d")
    case None
    then have "map_of fs q = None" using assms(6) [of d] by (cases "map_of fs q") (auto simp: gm_has_def)
    with assms(1,2) None show ?thesis
      by (auto simp: remove_app_def stmt_iffs stat_not_exist_def os_stat_def assms(5) no_such_file_def
          os_IsNotExist_def)
  next
    case (Some n)
    then have "os_stat L fs d = Ok n" by (simp add: os_stat_def assms(5))
    with assms(1,2) obtain fs1 where r: "os_remove_all L fs d = (fs1, None)"
      and rest: "(let appDir = path_join (as_apps_root s) [ar_name a];
             appVerNumb = length (filter (\<lambda>(p, _). p \<noteq> appDir) (fs_visits L fs1 appDir))
         in if appVerNumb = 0 then serr (os_remove_all L fs1 appDir) else (fs1, Ok ())) = (fs', Ok ())"
      by (auto simp: remove_app_def stmt_iffs stat_not_exist_def)
    from g [OF assms(3), of fs] r have "map_of fs1 q = None" by simp
    with rest k [of fs1] show ?thesis
      by (auto simp: Let_def serr_Ok_iff split: if_splits) (metis fst_conv)
  qed
qed


text \<open>While another version of the app is there, only the version that is removed goes.\<close>

lemma fs_visits_no_fault:
  assumes "\<And>q. io_fault L ''walk'' q = None" and "gm_has fs root"
  shows "fs_visits L fs root = map (\<lambda>(q, n). (q, Some n, None)) (fs_walk fs root)"
  using assms by (simp add: fs_visits_def list_ex_iff case_prod_beta)

lemma remove_app_others:
  assumes "app_dir L s a = Ok d" and "remove_app L s a fs = (fs', Ok ())"
    and "\<And>op p. io_fault L op p = None"
    and "gm_has fs (path_join (as_apps_root s) [ar_name a])"
    and "gm_has fs p" "strict_prefix (path_join (as_apps_root s) [ar_name a]) p" "\<not> prefix d p"
    and "\<not> prefix d q"
  shows "map_of fs' q = map_of fs q"
proof (cases "map_of fs d")
  case None
  with assms(1,2) show ?thesis
    by (auto simp: remove_app_def stmt_iffs stat_not_exist_def os_stat_def assms(3) no_such_file_def
        os_IsNotExist_def)
next
  case (Some n)
  let ?n = "path_join (as_apps_root s) [ar_name a]"
  define fs1 where "fs1 = filter (\<lambda>(q, _). \<not> prefix d q) fs"
  have r: "os_remove_all L fs d = (fs1, None)" by (simp add: os_remove_all_def assms(3) fs1_def)
  have keep: "map_of fs1 x = map_of fs x" if "\<not> prefix d x" for x
    using that by (simp add: fs1_def map_of_filter_key [where P = "\<lambda>q. \<not> prefix d q"])
  have "\<not> prefix d ?n" using assms(6,7) by (meson prefix_order.trans strict_prefixE)
  with keep assms(4,5,7) have "gm_has fs1 ?n" "gm_has fs1 p" by (auto simp: gm_has_def)
  then have v: "fs_visits L fs1 ?n = map (\<lambda>(q, n). (q, Some n, None)) (fs_walk fs1 ?n)"
    by (intro fs_visits_no_fault) (rule assms(3))
  from \<open>gm_has fs1 p\<close> obtain e where "(p, e) \<in> set fs1" by (auto simp: gm_has_def dest: map_of_SomeD)
  with assms(6) have "(p, e) \<in> set (fs_walk fs1 ?n)" by simp
  then have "(p, Some e, None) \<in> set (filter (\<lambda>(p, _). p \<noteq> ?n) (fs_visits L fs1 ?n))"
    using assms(6) by (force simp: v)
  then have "length (filter (\<lambda>(p, _). p \<noteq> ?n) (fs_visits L fs1 ?n)) \<noteq> 0" by (metis empty_iff length_0_conv list.set(1))
  moreover have "os_stat L fs d = Ok n" using Some by (simp add: os_stat_def assms(3))
  ultimately have "fs' = fs1"
    using assms(1,2) r by (auto simp: remove_app_def stmt_iffs stat_not_exist_def Let_def)
  with keep assms(8) show ?thesis by simp
qed

end
