(* ===== verification/Status.thy ===== *)
theory Status
  imports AppStore Config
begin

text \<open>
  The status of apps, \<open>pkg/compose/status.go\<close>: which blobs are missing, which images and bundles
  are not installed, which apps are not running, and \<open>CheckAppsStatus\<close> which puts them together.
  The status structs embed pointers; one that was not asked for is nil, and looking at it
  panics.
\<close>

section \<open>Data\<close>

type_synonym blobs_info = "(digest, blob_info) gomap"

record fetch_status =
  fst_blobs :: "(digest, blobs_info) gomap"
  fst_missing :: blobs_info

record install_report =
  irp_images :: "(digest, bool) gomap"
  irp_bundle :: "(string, string) gomap"

record install_status =
  ist_apps :: "(digest, install_report) gomap"
  ist_images :: "(string, unit) gomap"
  ist_compose :: "(digest, unit) gomap"

record service =
  sv_name :: string
  sv_image :: string
  sv_hash :: string
  sv_ctr :: string
  sv_state :: string
  sv_status :: string
  sv_health :: string

record running_report =
  rrp_services :: "service list"
  rrp_health :: string

record running_status =
  rst_apps :: "(digest, running_report) gomap"
  rst_not_running :: "(digest, unit) gomap"

record apps_status =
  st_apps :: "app_ctx list"
  st_fetch :: fetch_status
  st_install :: "install_status option"
  st_running :: "running_status option"

definition AreRunning :: "apps_status \<Rightarrow> bool res" where
  "AreRunning s =
     (case st_running s of None \<Rightarrow> Panic ''nil pointer dereference'' | Some r \<Rightarrow> Ok (rst_not_running r = []))"

definition AreInstalled :: "apps_status \<Rightarrow> bool res" where
  "AreInstalled s =
     (case st_install s of None \<Rightarrow> Panic ''nil pointer dereference''
      | Some i \<Rightarrow> Ok (ist_images i = [] \<and> ist_compose i = []))"

definition AreFetched :: "apps_status \<Rightarrow> bool" where
  "AreFetched s \<longleftrightarrow> fst_missing (st_fetch s) = []"

section \<open>Blobs\<close>

definition checkNodeBlob ::
  "'z lib_scheme \<Rightarrow> config \<Rightarrow> app_ctx \<Rightarrow> tree \<Rightarrow> provider \<Rightarrow> bool \<Rightarrow> blob_info res" where
  "checkNodeBlob L cfg app node bp quick =
     (let desc = t_desc node;
          checkOpts = [WithExpectedSize (d_size desc)] @
                      (if quick then [] else [WithExpectedDigest (d_digest desc)]) @
                      (if t_HasRef node then [WithRef (t_Ref node)] else [])
      in rbind (CheckBlob L bp (WithAppRef (WithBlobType ctx_background (t_type node)) (a_ref app))
                  (d_digest desc) checkOpts) (\<lambda>(bs, err).
           case err of
             Some e \<Rightarrow> Fail e
           | None \<Rightarrow>
               rbind (AlignToBlockSize (d_size desc) (cf_block_size cfg)) (\<lambda>storeSize.
                 rbind (GetBlobRuntimeSize L app desc (p_arch (cf_platform cfg)) (cf_block_size cfg))
                   (\<lambda>runtimeSize.
                     Ok \<lparr>bi_desc = desc, bi_state = bs, bi_type = t_type node, bi_store_size = storeSize,
                         bi_runtime_size = runtimeSize, bi_bytes_fetched = 0\<rparr>))))"

text \<open>
  The callback of the walk: it looks for an ingestion under way of a blob that is missing.  Its
  state is the map of missing blobs, which all apps share, and the report of the app.
\<close>

definition fetch_status_visit ::
  "('x, 'z) sys_scheme \<Rightarrow> 'x world \<Rightarrow> config \<Rightarrow> provider \<Rightarrow> bool \<Rightarrow> app_ctx \<Rightarrow>
   (blobs_info \<times> blobs_info) processor" where
  "fetch_status_visit X w cfg bp quick app node depth s =
     (case checkNodeBlob X cfg app node bp quick of
        Fail e \<Rightarrow> (Fail e, s)
      | Panic m \<Rightarrow> (Panic m, s)
      | Ok bi \<Rightarrow>
          (let bi' = (if bi_state bi = BlobMissing
                      then (case ls_status X w (t_Ref node) of
                              Ok off \<Rightarrow> bi\<lparr>bi_state := BlobFetching, bi_bytes_fetched := off\<rparr>
                            | _ \<Rightarrow> bi)
                      else bi);
               d = d_digest (t_desc node);
               (missing, report) = s
           in (Ok (), (if bi_state bi' \<noteq> BlobOk then gm_put d bi' missing else missing,
                       gm_put d bi' report))))"

fun fetch_status_apps ::
  "('x, 'z) sys_scheme \<Rightarrow> 'x world \<Rightarrow> config \<Rightarrow> provider \<Rightarrow> bool \<Rightarrow> app_ctx list \<Rightarrow> fetch_status \<Rightarrow>
   fetch_status res"
where
  "fetch_status_apps X w cfg bp quick [] st = Ok st"
| "fetch_status_apps X w cfg bp quick (app # apps) st =
     (let (r, (missing, report)) =
            Walk (a_tree app) (fetch_status_visit X w cfg bp quick app) (fst_missing st, [])
      in rbind r (\<lambda>_. fetch_status_apps X w cfg bp quick apps
           (st\<lparr>fst_missing := missing, fst_blobs := gm_put (a_Digest app) report (fst_blobs st)\<rparr>)))"

definition CheckAppsFetchStatus ::
  "('x, 'z) sys_scheme \<Rightarrow> 'x world \<Rightarrow> config \<Rightarrow> provider \<Rightarrow> app_ctx list \<Rightarrow> bool \<Rightarrow> fetch_status res" where
  "CheckAppsFetchStatus X w cfg bp apps quick =
     (case ls_new X (cf_store_root cfg) of
        Some e \<Rightarrow> Fail e
      | None \<Rightarrow> fetch_status_apps X w cfg bp quick apps \<lparr>fst_blobs = [], fst_missing = []\<rparr>)"

section \<open>Images and bundles\<close>

record installed_images =
  ii_images :: "(string, image_summary) gomap"
  ii_refs :: "(string, string) gomap"

definition GetInstalledImages ::
  "('x, 'z) sys_scheme \<Rightarrow> 'x world \<Rightarrow> config \<Rightarrow> installed_images res" where
  "GetInstalledImages X w cfg =
     (case dk_client X (cf_docker_host cfg) of
        Some e \<Rightarrow> Fail e
      | None \<Rightarrow>
          rbind (dk_image_list X w) (\<lambda>images.
            Ok \<lparr>ii_images = fold (\<lambda>im m. gm_put (im_id im) im m) images [],
                ii_refs = fold (\<lambda>im m. fold (\<lambda>r m. gm_put r (im_id im) m) (im_digests im @ im_tags im) m)
                            images []\<rparr>))"

definition familiar_installed :: "'z lib_scheme \<Rightarrow> installed_images \<Rightarrow> string \<Rightarrow> bool res" where
  "familiar_installed L inst u =
     rbind (any_ref L u) (\<lambda>(_, familiarRef). Ok (gm_has (ii_refs inst) familiarRef))"

definition checkImageInstallation ::
  "'z lib_scheme \<Rightarrow> installed_images \<Rightarrow> string \<Rightarrow> bool res" where
  "checkImageInstallation L inst uri =
     (if gm_has (ii_refs inst) uri then Ok True
      else rbind (ref_parse L uri) (\<lambda>r.
        rbind (dg_encoded L (ref_digest L r)) (\<lambda>enc.
          rbind (slice_to 7 enc) (\<lambda>short.
            let taggedUri = rs_locator r @ '':'' @ short in
            if gm_has (ii_refs inst) taggedUri then Ok True
            else rbind (familiar_installed L inst uri) (\<lambda>b1.
              if b1 then Ok True else familiar_installed L inst taggedUri)))))"

fun check_images ::
  "'z lib_scheme \<Rightarrow> installed_images \<Rightarrow> tree list \<Rightarrow>
   (digest, bool) gomap \<Rightarrow> (string, unit) gomap \<Rightarrow> ((digest, bool) gomap \<times> (string, unit) gomap) res"
where
  "check_images L inst [] images missing = Ok (images, missing)"
| "check_images L inst (n # ns) images missing =
     rbind (checkImageInstallation L inst (t_Ref n)) (\<lambda>installed.
       check_images L inst ns (gm_put (d_digest (t_desc n)) installed images)
         (if installed then missing else gm_put (t_Ref n) () missing))"

definition check_bundle ::
  "'z lib_scheme \<Rightarrow> fs \<Rightarrow> config \<Rightarrow> provider \<Rightarrow> app_ctx \<Rightarrow> (string, string) gomap res" where
  "check_bundle L fs cfg bp app =
     rcatch (CheckComposeInstallation L ctx_background bp fs app (path_join (cf_compose_root cfg) [a_Name app])) Ok
       (\<lambda>e. if errors_Is e ErrAppIndexNotFound then Ok [(AppRef_String L (a_ref app), err_msg e)] else Fail e)"

fun install_status_apps ::
  "('x, 'z) sys_scheme \<Rightarrow> 'x world \<Rightarrow> config \<Rightarrow> provider \<Rightarrow> installed_images \<Rightarrow> app_ctx list \<Rightarrow>
   install_status \<Rightarrow> install_status res"
where
  "install_status_apps X w cfg bp inst [] st = Ok st"
| "install_status_apps X w cfg bp inst (app # apps) st =
     rbind (check_bundle X (w_fs w) cfg bp app) (\<lambda>bundleErrs.
       (case GetComposeRoot app of
          None \<Rightarrow> Panic ''nil pointer dereference''
        | Some root \<Rightarrow>
            rbind (check_images X inst (t_children root) [] (ist_images st)) (\<lambda>(images, missing).
              install_status_apps X w cfg bp inst apps
                (st\<lparr>ist_images := missing,
                    ist_apps := gm_put (a_Digest app) \<lparr>irp_images = images, irp_bundle = bundleErrs\<rparr> (ist_apps st),
                    ist_compose := (if bundleErrs = [] then ist_compose st
                                    else gm_put (a_Digest app) () (ist_compose st))\<rparr>))))"

definition CheckAppsInstallStatus ::
  "('x, 'z) sys_scheme \<Rightarrow> 'x world \<Rightarrow> config \<Rightarrow> provider \<Rightarrow> app_ctx list \<Rightarrow> install_status res" where
  "CheckAppsInstallStatus X w cfg bp apps =
     rbind (GetInstalledImages X w cfg) (\<lambda>inst.
       install_status_apps X w cfg bp inst apps \<lparr>ist_apps = [], ist_images = [], ist_compose = []\<rparr>)"

section \<open>Containers\<close>

definition ServiceLabel :: string where
  "ServiceLabel = ''com.docker.compose.service''"

definition GetServiceHealth :: "('x, 'z) sys_scheme \<Rightarrow> 'x world \<Rightarrow> string \<Rightarrow> string" where
  "GetServiceHealth X w containerID =
     (case dk_container_inspect X w containerID of
        Ok (Some st) \<Rightarrow>
          (case cs_health st of
             Some h \<Rightarrow> h
           | None \<Rightarrow>
               if cs_status st = ''created'' \<or> cs_status st = ''running'' \<or>
                  (cs_status st = ''exited'' \<and> cs_exit st = 0)
               then ''healthy'' else ''unhealthy'')
      | _ \<Rightarrow> '''')"

definition label_get :: "(string, string) gomap \<Rightarrow> string \<Rightarrow> string" where
  "label_get m k = (case map_of m k of None \<Rightarrow> '''' | Some v \<Rightarrow> v)"

definition GetAppServicesStatus ::
  "('x, 'z) sys_scheme \<Rightarrow> 'x world \<Rightarrow> config \<Rightarrow> service list res" where
  "GetAppServicesStatus X w cfg =
     (case dk_client X (cf_docker_host cfg) of
        Some e \<Rightarrow> Fail e
      | None \<Rightarrow>
          rbind (dk_container_list X w) (\<lambda>ctrs.
            Ok (map (\<lambda>c. \<lparr>sv_name = label_get (ct_labels c) ServiceLabel, sv_image = ct_image c,
                         sv_hash = label_get (ct_labels c) AppServiceHashLabelKey, sv_ctr = ct_id c,
                         sv_state = ct_state c, sv_status = ct_status c,
                         sv_health = GetServiceHealth X w (ct_id c)\<rparr>)
                 (filter (\<lambda>c. gm_has (ct_labels c) AppServiceHashLabelKey) ctrs))))"

definition services_find :: "service list \<Rightarrow> tree \<Rightarrow> service option" where
  "services_find s imageNode =
     find (\<lambda>srv. sv_image srv = t_Ref imageNode \<and> sv_hash srv = GetServiceHash imageNode) s"

definition not_created :: service where
  "not_created = \<lparr>sv_name = '''', sv_image = '''', sv_hash = '''', sv_ctr = '''', sv_state = ''not created'',
     sv_status = '''', sv_health = ''''\<rparr>"

text \<open>The loop over the images of one app: services, whether the app runs, and its health.\<close>

fun app_running :: "service list \<Rightarrow> tree list \<Rightarrow> service list \<times> bool \<times> string" where
  "app_running found [] = ([], True, ''healthy'')"
| "app_running found (n # ns) =
     (let (services, running, health) = app_running found ns in
      case services_find found n of
        Some srv \<Rightarrow>
          (srv # services,
           running \<and> \<not> (sv_state srv \<noteq> ''running'' \<and> sv_health srv \<noteq> ''healthy''),
           if sv_health srv \<noteq> ''healthy'' then ''unhealthy'' else health)
      | None \<Rightarrow> (not_created # services, False, ''unhealthy''))"

fun running_status_apps ::
  "service list \<Rightarrow> app_ctx list \<Rightarrow> running_status \<Rightarrow> running_status res"
where
  "running_status_apps found [] st = Ok st"
| "running_status_apps found (app # apps) st =
     (case GetComposeRoot app of
        None \<Rightarrow> Panic ''nil pointer dereference''
      | Some root \<Rightarrow>
          (let (services, running, health) = app_running found (t_children root) in
           running_status_apps found apps
             (st\<lparr>rst_apps := gm_put (a_Digest app) \<lparr>rrp_services = services, rrp_health = health\<rparr> (rst_apps st),
                 rst_not_running := (if running then rst_not_running st
                                     else gm_put (a_Digest app) () (rst_not_running st))\<rparr>)))"

definition CheckAppsRunningStatus ::
  "('x, 'z) sys_scheme \<Rightarrow> 'x world \<Rightarrow> config \<Rightarrow> app_ctx list \<Rightarrow> running_status res" where
  "CheckAppsRunningStatus X w cfg apps =
     rbind (GetAppServicesStatus X w cfg) (\<lambda>found.
       running_status_apps found apps \<lparr>rst_apps = [], rst_not_running = []\<rparr>)"

section \<open>Everything\<close>

definition getStoreAppRefs ::
  "('x, 'z) sys_scheme \<Rightarrow> 'x world \<Rightarrow> app_store \<Rightarrow> string list res" where
  "getStoreAppRefs X w s = rbind (ListApps X s (w_fs w)) (\<lambda>rs. Ok (map (AppRef_String X) rs))"

definition load_app ::
  "('x, 'z) sys_scheme \<Rightarrow> 'x world \<Rightarrow> config \<Rightarrow> provider \<Rightarrow> bool \<Rightarrow> string \<Rightarrow> app_ctx res" where
  "load_app X w cfg pv fallback ref =
     (let load = (\<lambda>p. LoadAppTree X ctx_background p (platform_match X (cf_platform cfg)) ref) in
      rcatch (load pv) Ok
        (\<lambda>e. if fallback \<and> errors_Is e ErrAppNotFound then load (newRemoteBlobProvider X w) else Fail e))"

definition loadAppTrees ::
  "('x, 'z) sys_scheme \<Rightarrow> 'x world \<Rightarrow> config \<Rightarrow> provider \<Rightarrow> string list \<Rightarrow> bool \<Rightarrow> app_ctx list res" where
  "loadAppTrees X w cfg pv refs fallback = map_res (load_app X w cfg pv fallback) refs"

record check_opts =
  ck_install :: bool
  ck_running :: bool
  ck_quick :: bool
  ck_provider :: "provider option"

datatype check_opt =
    WithCheckInstallation bool
  | WithCheckRunning bool
  | WithQuickCheckFetch bool
  | WithAppTreeBlobProvider provider

fun apply_check_opt :: "check_opt \<Rightarrow> check_opts \<Rightarrow> check_opts" where
  "apply_check_opt (WithCheckInstallation b) opts = opts\<lparr>ck_install := b\<rparr>"
| "apply_check_opt (WithCheckRunning b) opts = opts\<lparr>ck_running := b\<rparr>"
| "apply_check_opt (WithQuickCheckFetch b) opts = opts\<lparr>ck_quick := b\<rparr>"
| "apply_check_opt (WithAppTreeBlobProvider p) opts = opts\<lparr>ck_provider := Some p\<rparr>"

definition wrap_err :: "string \<Rightarrow> 'a res \<Rightarrow> 'a res" where
  "wrap_err m r = rcatch r Ok (\<lambda>e. Fail (Wrap m e))"

definition opt_check :: "bool \<Rightarrow> 'a res \<Rightarrow> 'a option res" where
  "opt_check b r = (if b then rbind r (\<lambda>v. Ok (Some v)) else Ok None)"

definition CheckAppsStatus ::
  "('x, 'z) sys_scheme \<Rightarrow> 'x world \<Rightarrow> config \<Rightarrow> string list \<Rightarrow> check_opt list \<Rightarrow> apps_status res" where
  "CheckAppsStatus X w cfg appRefs options =
     (let opts = fold apply_check_opt options
            \<lparr>ck_install = True, ck_running = True, ck_quick = False, ck_provider = None\<rparr>
      in rbind (AppStoreFactory X cfg) (\<lambda>appStore.
        let store = appStore_provider X w appStore in
        rbind (if appRefs = [] then getStoreAppRefs X w appStore else Ok appRefs) (\<lambda>refs.
          rbind (wrap_err ''failed to load app trees''
                   (case ck_provider opts of
                      Some p \<Rightarrow> loadAppTrees X w cfg p refs False
                    | None \<Rightarrow> loadAppTrees X w cfg store refs True)) (\<lambda>apps.
            rbind (wrap_err ''failed to check apps fetch status''
                     (CheckAppsFetchStatus X w cfg store apps (ck_quick opts))) (\<lambda>fetchStatus.
              rbind (opt_check (ck_install opts) (wrap_err ''failed to check apps install status''
                       (CheckAppsInstallStatus X w cfg store apps))) (\<lambda>installStatus.
                rbind (opt_check (ck_running opts) (wrap_err ''failed to check apps running status''
                         (CheckAppsRunningStatus X w cfg apps))) (\<lambda>runningStatus.
                  Ok \<lparr>st_apps = apps, st_fetch = fetchStatus, st_install = installStatus,
                      st_running = runningStatus\<rparr>)))))))"

section \<open>No missing blobs\<close>

lemma fetch_visit_run:
  assumes "run_visits (fetch_status_visit X w cfg bp quick app) vs s = (Ok u, s')"
  shows "None \<notin> set vs \<and>
    (fst s' = [] \<longrightarrow> fst s = [] \<and>
       (\<forall>n k. Some (n, k) \<in> set vs \<longrightarrow>
          (\<exists>bi. checkNodeBlob X cfg app n bp quick = Ok bi \<and> bi_state bi = BlobOk)))"
  using assms
proof (induction vs arbitrary: s)
  case (Cons v vs)
  then obtain n k where v: "v = Some (n, k)" by (cases v) auto
  with Cons.prems obtain s1 where one: "fetch_status_visit X w cfg bp quick app n k s = (Ok (), s1)"
    and rest: "run_visits (fetch_status_visit X w cfg bp quick app) vs s1 = (Ok u, s')"
    by (auto split: prod.splits res.splits)
  from one have "fst s1 = [] \<longrightarrow> fst s = [] \<and>
      (\<exists>bi. checkNodeBlob X cfg app n bp quick = Ok bi \<and> bi_state bi = BlobOk)"
    by (auto simp: fetch_status_visit_def Let_def split: res.splits prod.splits if_splits)
  with Cons.IH [OF rest] v show ?case by auto
qed simp

lemma fetch_apps_run:
  assumes "fetch_status_apps X w cfg bp quick apps st = Ok st'" and "fst_missing st' = []"
  shows "fst_missing st = [] \<and>
    (\<forall>app\<in>set apps. \<forall>(n, k)\<in>set (nodes 0 (a_tree app)).
       \<exists>bi. checkNodeBlob X cfg app n bp quick = Ok bi \<and> bi_state bi = BlobOk)"
  using assms(1)
proof (induction apps arbitrary: st)
  case Nil
  with assms(2) show ?case by simp
next
  case (Cons app apps)
  obtain r missing report where wk: "Walk (a_tree app) (fetch_status_visit X w cfg bp quick app)
      (fst_missing st, []) = (r, (missing, report))" by (metis prod_cases3)
  with Cons.prems have rest: "fetch_status_apps X w cfg bp quick apps
      (st\<lparr>fst_missing := missing, fst_blobs := gm_put (a_Digest app) report (fst_blobs st)\<rparr>) = Ok st'"
    and r: "r = Ok ()" by (auto simp: rbind_Ok_iff)
  from Cons.IH [OF rest] have m: "missing = []" by simp
  have run: "run_visits (fetch_status_visit X w cfg bp quick app) (visits 0 (a_tree app))
      (fst_missing st, []) = (Ok (), (missing, report))"
    using wk r by (simp add: Walk_def walk_run_visits)
  note v = fetch_visit_run [OF run]
  with visits_deep [of "a_tree app" 0] have "height (a_tree app) \<le> MaxMerkleTreeDepth" by force
  then have "visits 0 (a_tree app) = map Some (nodes 0 (a_tree app))" by (simp add: visits_shallow)
  then have "Some (n, k) \<in> set (visits 0 (a_tree app)) \<longleftrightarrow> (n, k) \<in> set (nodes 0 (a_tree app))" for n k
    by auto
  with v m Cons.IH [OF rest] show ?case by auto
qed

lemma checkNodeBlob_params:
  fixes n :: tree and quick :: bool
  defines "opts \<equiv> [WithExpectedSize (d_size (t_desc n))] @ (if quick then [] else [WithExpectedDigest (d_digest (t_desc n))]) @
     (if t_HasRef n then [WithRef (t_Ref n)] else [])"
  shows "rp_size (GetSecureReadParams opts) = d_size (t_desc n)"
    "rp_digest (GetSecureReadParams opts) = (if quick then '''' else d_digest (t_desc n))"
    "\<not> rp_insecure (GetSecureReadParams opts)"
  by (simp_all add: opts_def GetSecureReadParams_def)

lemma CheckBlob_OkD:
  assumes "CheckBlob L pv c dgst opts = Ok (BlobOk, e)" and "rp_digest (GetSecureReadParams opts) \<noteq> ''''"
  obtains rc where "pv_get pv c opts = Ok rc" "discard_all L rc = Ok None"
  using assms by (auto simp: CheckBlob_def Let_def rbind_Ok_iff rcatch_Ok_iff)

lemma local_get_src:
  assumes "localBlobProvider_GetReadCloser X w opts = Ok rc" and "rp_digest (GetSecureReadParams opts) \<noteq> ''''"
  shows "ls_reader_at X w (rp_digest (GetSecureReadParams opts)) = Ok (rc_src rc)"
proof -
  from assms obtain ra where ra: "ls_reader_at X w (rp_digest (GetSecureReadParams opts)) = Ok ra"
    and n: "NewSecureReadCloser ra opts = Ok rc"
    by (auto simp: localBlobProvider_GetReadCloser_def with_ref_digest_def Let_def rbind_Ok_iff)
  from NewSecureReadCloser_OkD [OF n] ra show ?thesis by (metis rc_src.simps(1))
qed

text \<open>
  Where the bytes of a blob come from that an app store gives with its hash checked: the content store, or, in a
  store that knows the layout of skopeo, the file of the app's manifest or bundle.
\<close>

definition store_source ::
  "('x, 'z) sys_scheme \<Rightarrow> 'x world \<Rightarrow> app_store \<Rightarrow> app_ref \<Rightarrow> blob_type \<Rightarrow> digest \<Rightarrow> src \<Rightarrow> bool" where
  "store_source X w s r ty d src \<longleftrightarrow>
     ls_reader_at X w d = Ok src \<or>
     (as_skopeo s \<and> (\<exists>p q. rp_digest p = d \<and> skopeo_blob_path X s r ty p = Ok (Some (q, True)) \<and>
        os_open X (w_fs w) q = Ok src))"

lemma appStore_get_secure:
  fixes rc :: read_closer
  assumes "appStore_GetReadCloser X w s c opts = Ok rc"
    and "cx_app c = Some r" and "cx_blob c = Some ty" and "rp_digest (GetSecureReadParams opts) \<noteq> ''''"
    and "as_skopeo s \<Longrightarrow> ty \<notin> {BlobTypeImageIndex, BlobTypeSkopeoImageIndex}"
  shows "store_source X w s r ty (rp_digest (GetSecureReadParams opts)) (rc_src rc)"
    and "\<exists>f. NewSecureReadCloser f opts = Ok rc"
proof -
  have w: "with_ref_digest X opts = Ok (GetSecureReadParams opts, opts)"
    using assms(4) by (simp add: with_ref_digest_def Let_def)
  from assms(1-3,5) consider (loc) "localBlobProvider_GetReadCloser X w opts = Ok rc"
    | (file_of) q f where "as_skopeo s" "skopeo_blob_path X s r ty (GetSecureReadParams opts) = Ok (Some (q, True))"
        "os_open X (w_fs w) q = Ok f" "NewSecureReadCloser f opts = Ok rc"
    by (auto simp: appStore_GetReadCloser_def Let_def rbind_iffs w skopeo_blob_path_def
        split: if_splits res.splits option.splits blob_type.splits)
  then have "store_source X w s r ty (rp_digest (GetSecureReadParams opts)) (rc_src rc) \<and> (\<exists>f. NewSecureReadCloser f opts = Ok rc)"
  proof cases
    case loc
    then have "\<exists>f. NewSecureReadCloser f opts = Ok rc"
      by (auto simp: localBlobProvider_GetReadCloser_def w rbind_Ok_iff)
    with local_get_src [OF loc assms(4)] show ?thesis by (simp add: store_source_def)
  next
    case file_of
    from NewSecureReadCloser_OkD [OF file_of(4)] have "rc_src rc = f" by (metis rc_src.simps(1))
    with file_of show ?thesis unfolding store_source_def by blast
  qed
  then show "store_source X w s r ty (rp_digest (GetSecureReadParams opts)) (rc_src rc)"
    and "\<exists>f. NewSecureReadCloser f opts = Ok rc" by simp_all
qed

text \<open>A check that passes means intact bytes, for every blob but the image indexes of a store with the layout of skopeo.\<close>

lemma CheckBlob_intact:
  assumes "CheckBlob X (appStore_provider X w s) c d opts = Ok (BlobOk, e)"
    and "cx_app c = Some r" and "cx_blob c = Some ty"
    and "as_skopeo s \<Longrightarrow> ty \<notin> {BlobTypeImageIndex, BlobTypeSkopeoImageIndex}"
    and "\<not> rp_insecure (GetSecureReadParams opts)" and "rp_digest (GetSecureReadParams opts) \<noteq> ''''"
  shows "\<exists>src b. store_source X w s r ty (rp_digest (GetSecureReadParams opts)) src \<and> prefix b (src_content src) \<and>
    dg_hash X b = rp_digest (GetSecureReadParams opts) \<and>
    (0 < rp_size (GetSecureReadParams opts) \<longrightarrow> int (length b) = rp_size (GetSecureReadParams opts))"
proof -
  from CheckBlob_OkD [OF assms(1,6)] obtain rc where g: "appStore_GetReadCloser X w s c opts = Ok rc"
    and d: "discard_all X rc = Ok None" by (auto simp: appStore_provider_def)
  from appStore_get_secure(2) [OF g assms(2,3,6,4)] obtain f where "NewSecureReadCloser f opts = Ok rc" by blast
  then have gd: "guards rc (GetSecureReadParams opts)" by (rule NewSecureReadCloser_guards) simp_all
  from d obtain b where b: "read_all X (\<lambda>_. 8191) rc [] = Ok (b, None)" by (auto simp: discard_all_def rbind_iffs)
  from read_all_content [OF b] have "prefix b (src_content (rc_src rc))" by simp
  with guards_read_to_end [OF gd b assms(6)] appStore_get_secure(1) [OF g assms(2,3,6,4)] show ?thesis by blast
qed

text \<open>The whole chain: no missing blob in the status means intact bytes for every node of every app.\<close>

lemma fetched_blobs_intact_helper:
  assumes "CheckAppsFetchStatus X w cfg (appStore_provider X w s) apps False = Ok st"
    and "fst_missing st = []"
    and "app \<in> set apps" and "(n, k) \<in> set (nodes 0 (a_tree app))" and "d_digest (t_desc n) \<noteq> ''''"
    and "as_skopeo s \<Longrightarrow> t_type n \<notin> {BlobTypeImageIndex, BlobTypeSkopeoImageIndex}"
  shows "\<exists>src b. store_source X w s (a_ref app) (t_type n) (d_digest (t_desc n)) src \<and> prefix b (src_content src) \<and>
    dg_hash X b = d_digest (t_desc n) \<and> (0 < d_size (t_desc n) \<longrightarrow> int (length b) = d_size (t_desc n))"
proof -
  let ?o = "[WithExpectedSize (d_size (t_desc n))] @ (if False then [] else [WithExpectedDigest (d_digest (t_desc n))]) @
     (if t_HasRef n then [WithRef (t_Ref n)] else [])"
  let ?c = "WithAppRef (WithBlobType ctx_background (t_type n)) (a_ref app)"
  note pr = checkNodeBlob_params [of n False]
  from assms(1) have "fetch_status_apps X w cfg (appStore_provider X w s) False apps
      \<lparr>fst_blobs = [], fst_missing = []\<rparr> = Ok st"
    by (simp add: CheckAppsFetchStatus_def split: option.splits)
  from fetch_apps_run [OF this assms(2)] assms(3,4) obtain bi where
    "checkNodeBlob X cfg app n (appStore_provider X w s) False = Ok bi" "bi_state bi = BlobOk" by blast
  then obtain e where cb: "CheckBlob X (appStore_provider X w s) ?c (d_digest (t_desc n)) ?o = Ok (BlobOk, e)"
    by (auto simp: checkNodeBlob_def Let_def rbind_Ok_iff split: option.splits)
  have dg: "rp_digest (GetSecureReadParams ?o) \<noteq> ''''" using pr(2) assms(5) by simp
  have c: "cx_app ?c = Some (a_ref app)" "cx_blob ?c = Some (t_type n)"
    by (simp_all add: WithAppRef_def WithBlobType_def)
  from CheckBlob_intact [OF cb c assms(6) pr(3) dg] pr(1,2) show ?thesis by simp
qed

section \<open>Installed\<close>

lemma check_images_missing:
  assumes "check_images L inst ns images missing = Ok (images', missing')"
  shows "missing' = [] \<longleftrightarrow> missing = [] \<and> (\<forall>n\<in>set ns. checkImageInstallation L inst (t_Ref n) = Ok True)"
  using assms
proof (induction ns arbitrary: images missing)
  case (Cons n ns)
  from Cons.prems obtain b where b: "checkImageInstallation L inst (t_Ref n) = Ok b"
    and rest: "check_images L inst ns (gm_put (d_digest (t_desc n)) b images)
         (if b then missing else gm_put (t_Ref n) () missing) = Ok (images', missing')"
    by (auto simp: rbind_Ok_iff)
  from Cons.IH [OF rest] b show ?case by (cases b) auto
qed auto

definition app_installed ::
  "('x, 'z) sys_scheme \<Rightarrow> 'x world \<Rightarrow> config \<Rightarrow> provider \<Rightarrow> installed_images \<Rightarrow> app_ctx \<Rightarrow> bool" where
  "app_installed X w cfg bp inst app \<longleftrightarrow>
     check_bundle X (w_fs w) cfg bp app = Ok [] \<and>
     (\<exists>root. GetComposeRoot app = Some root \<and>
        (\<forall>n\<in>set (t_children root). checkImageInstallation X inst (t_Ref n) = Ok True))"

lemma install_apps_run:
  assumes "install_status_apps X w cfg bp inst apps st = Ok st'"
  shows "ist_images st' = [] \<and> ist_compose st' = [] \<longleftrightarrow>
    ist_images st = [] \<and> ist_compose st = [] \<and> (\<forall>app\<in>set apps. app_installed X w cfg bp inst app)"
  using assms
proof (induction apps arbitrary: st)
  case (Cons app apps)
  from Cons.prems obtain errs root images missing where
    b: "check_bundle X (w_fs w) cfg bp app = Ok errs" and r: "GetComposeRoot app = Some root"
    and i: "check_images X inst (t_children root) [] (ist_images st) = Ok (images, missing)"
    and rest: "install_status_apps X w cfg bp inst apps
                (st\<lparr>ist_images := missing,
                    ist_apps := gm_put (a_Digest app) \<lparr>irp_images = images, irp_bundle = errs\<rparr> (ist_apps st),
                    ist_compose := (if errs = [] then ist_compose st
                                    else gm_put (a_Digest app) () (ist_compose st))\<rparr>) = Ok st'"
    by (auto simp: rbind_Ok_iff split: option.splits)
  from Cons.IH [OF rest] check_images_missing [OF i] b r show ?case
    by (auto simp: app_installed_def)
qed simp

section \<open>Running\<close>

definition service_up :: "service list \<Rightarrow> tree \<Rightarrow> bool" where
  "service_up found n \<longleftrightarrow>
     (\<exists>srv. services_find found n = Some srv \<and> (sv_state srv = ''running'' \<or> sv_health srv = ''healthy''))"

lemma app_running_iff:
  "fst (snd (app_running found ns)) \<longleftrightarrow> (\<forall>n\<in>set ns. service_up found n)"
  by (induction ns) (auto simp: service_up_def split: prod.splits option.splits)

lemma app_running_health:
  "snd (snd (app_running found ns)) =
     (if \<forall>n\<in>set ns. \<exists>srv. services_find found n = Some srv \<and> sv_health srv = ''healthy''
      then ''healthy'' else ''unhealthy'')"
proof (induction ns)
  case (Cons n ns)
  obtain services running health where a: "app_running found ns = (services, running, health)"
    by (metis prod_cases3)
  show ?case
    using Cons by (cases "services_find found n") (simp_all add: a)
qed simp

lemma running_apps_run:
  assumes "running_status_apps found apps st = Ok st'"
  shows "rst_not_running st' = [] \<longleftrightarrow> rst_not_running st = [] \<and>
    (\<forall>app\<in>set apps. \<exists>root. GetComposeRoot app = Some root \<and> (\<forall>n\<in>set (t_children root). service_up found n))"
  using assms
proof (induction apps arbitrary: st)
  case (Cons app apps)
  from Cons.prems obtain root where r: "GetComposeRoot app = Some root"
    by (auto split: option.splits)
  obtain services running health where a: "app_running found (t_children root) = (services, running, health)"
    by (metis prod_cases3)
  from Cons.prems r a have rest: "running_status_apps found apps
      (st\<lparr>rst_apps := gm_put (a_Digest app) \<lparr>rrp_services = services, rrp_health = health\<rparr> (rst_apps st),
          rst_not_running := (if running then rst_not_running st
                              else gm_put (a_Digest app) () (rst_not_running st))\<rparr>) = Ok st'" by simp
  from Cons.IH [OF rest] app_running_iff [of found "t_children root"] a r show ?case by auto
qed simp

section \<open>Which parts of a status are there\<close>

lemma CheckAppsStatus_OkD:
  assumes "CheckAppsStatus X w cfg appRefs options = Ok st"
  obtains opts s where
    "opts = fold apply_check_opt options
            \<lparr>ck_install = True, ck_running = True, ck_quick = False, ck_provider = None\<rparr>"
    "AppStoreFactory X cfg = Ok s"
    "CheckAppsFetchStatus X w cfg (appStore_provider X w s) (st_apps st) (ck_quick opts) = Ok (st_fetch st)"
    "if ck_install opts
     then \<exists>i. st_install st = Some i \<and> CheckAppsInstallStatus X w cfg (appStore_provider X w s) (st_apps st) = Ok i
     else st_install st = None"
    "if ck_running opts
     then \<exists>r. st_running st = Some r \<and> CheckAppsRunningStatus X w cfg (st_apps st) = Ok r
     else st_running st = None"
proof -
  define opts where "opts = fold apply_check_opt options
            \<lparr>ck_install = True, ck_running = True, ck_quick = False, ck_provider = None\<rparr>"
  from assms obtain s refs apps f i r where
    s: "AppStoreFactory X cfg = Ok s"
    and f: "wrap_err ''failed to check apps fetch status''
         (CheckAppsFetchStatus X w cfg (appStore_provider X w s) apps (ck_quick opts)) = Ok f"
    and i: "opt_check (ck_install opts) (wrap_err ''failed to check apps install status''
                       (CheckAppsInstallStatus X w cfg (appStore_provider X w s) apps)) = Ok i"
    and r: "opt_check (ck_running opts) (wrap_err ''failed to check apps running status''
                         (CheckAppsRunningStatus X w cfg apps)) = Ok r"
    and st: "st = \<lparr>st_apps = apps, st_fetch = f, st_install = i, st_running = r\<rparr>"
    unfolding CheckAppsStatus_def Let_def opts_def [symmetric] rbind_Ok_iff by auto
  show thesis
    by (rule that [OF opts_def s])
      (use f i r st in \<open>auto simp: wrap_err_def rcatch_Ok_iff opt_check_def rbind_Ok_iff split: if_splits\<close>)
qed

end
