(* ===== verification/ImageLoader.thy ===== *)
theory ImageLoader
  imports AppModel Fetch
begin

text \<open>
  Loading images into the Docker store, \<open>pkg/compose/image_loader.go\<close>: the load manifest of an
  image and of all images of an app, and the two state machines that turn the daemon's messages
  into progress.  The daemon is a parameter: what it answers is a list of messages, ended by the
  end of the stream or by an error.
\<close>

datatype image_load_state =
    ImageLoadStateImageWaiting
  | ImageLoadStateLayerLoading
  | ImageLoadStateLayerSyncing
  | ImageLoadStateLayerLoaded
  | ImageLoadStateImageLoading
  | ImageLoadStateImageLoaded
  | ImageLoadStateImageExist

record load_progress =
  lp_state :: image_load_state
  lp_image :: string
  lp_id :: string
  lp_current :: int
  lp_total :: int

text \<open>\<open>lo_reporter\<close>: whether a progress reporter was set (a non-nil interface value).\<close>

record load_options =
  lo_from_store :: bool
  lo_with_digest :: bool
  lo_reporter :: bool

datatype load_option = WithProgressReporting | WithBlobReadingFromStore | WithRefWithDigest

fun apply_load_option :: "load_option \<Rightarrow> load_options \<Rightarrow> load_options" where
  "apply_load_option WithProgressReporting opts = opts\<lparr>lo_reporter := True\<rparr>"
| "apply_load_option WithBlobReadingFromStore opts = opts\<lparr>lo_from_store := True\<rparr>"
| "apply_load_option WithRefWithDigest opts = opts\<lparr>lo_with_digest := True\<rparr>"

section \<open>The load manifest\<close>

text \<open>
  The walk from the root of an image to its manifest, with the references it collects.  An index
  must have exactly one manifest.
\<close>

function image_chain ::
  "'z lib_scheme \<Rightarrow> bool \<Rightarrow> tree \<Rightarrow> string list \<Rightarrow> (string list \<times> tree) res"
where
  "image_chain L withDigest imageRoot tags =
     rbind (ParseImageRef L (t_Ref imageRoot)) (\<lambda>imageRef.
       rbind (GetTagRef L imageRef) (\<lambda>tagRef.
         let tags' = tags @ [tagRef] @ (if withDigest then [t_Ref imageRoot] else []) in
         if t_type imageRoot = BlobTypeImageManifest then Ok (tags', imageRoot)
         else if t_type imageRoot \<notin> {BlobTypeImageIndex, BlobTypeSkopeoImageIndex}
         then Fail (Err (''invalid image type is specified: '' @ blob_type_str (t_type imageRoot)))
         else (case t_children imageRoot of
                 [c] \<Rightarrow> image_chain L withDigest c tags'
               | _ \<Rightarrow> Fail (Err (''the specified image index has more than one manifest: '' @
                        t_Ref imageRoot)))))"
  by pat_completeness auto

lemma size_child: "c \<in> set (t_children t) \<Longrightarrow> size c < size t"
  by (cases t) (auto simp: less_Suc_eq_le intro!: size_list_estimation' [of c])

termination image_chain
  by (relation "measure (\<lambda>(L, withDigest, t, tags). size t)") (auto intro!: size_child)

declare image_chain.simps [simp del]

text \<open>The last child that is a configuration counts.\<close>

definition config_child :: "tree list \<Rightarrow> tree option" where
  "config_child cs = (case filter (\<lambda>c. t_type c = BlobTypeImageConfig) cs of [] \<Rightarrow> None | c # cs \<Rightarrow> Some (last (c # cs)))"

definition generateImageLoadManifest ::
  "'z lib_scheme \<Rightarrow> fs \<Rightarrow> tree \<Rightarrow> path \<Rightarrow> load_options \<Rightarrow> (load_manifest \<times> digest list) res" where
  "generateImageLoadManifest L fs imageTree root opts =
     (let pv = NewStoreBlobProvider L fs root in
      rbind (image_chain L (lo_with_digest opts) imageTree []) (\<lambda>(tags, imageRoot).
        rbind (rcatch (ReadBlob L pv ctx_background (t_Ref imageRoot) (d_digest (t_desc imageRoot))
                         (d_size (t_desc imageRoot))) Ok
                 (\<lambda>e. Fail (Wrap ''failed to read image manifest blob'' e))) (\<lambda>b.
          rbind (rcatch (json_manifest L b) Ok
                   (\<lambda>e. Fail (Wrap ''failed to unmarshal image manifest'' e))) (\<lambda>imageManifest.
            rbind (map_res (\<lambda>c. dg_encoded L (d_digest (t_desc c)))
                     (filter (\<lambda>c. t_type c = BlobTypeImageConfig) (t_children imageRoot))) (\<lambda>configs.
              rbind (map_res (\<lambda>l. dg_encoded L (d_digest l)) (m_layers imageManifest)) (\<lambda>layers.
                let config = (if configs = [] then '''' else last configs) in
                if config = '''' then Fail (Err ''image config is not found'')
                else
                  (let configNode = the (config_child (t_children imageRoot)) in
                   rbind (rcatch (ReadBlob L pv ctx_background (t_Ref configNode)
                                    (d_digest (t_desc configNode)) (d_size (t_desc configNode))) Ok
                            (\<lambda>e. Fail (Wrap ''failed to read image config blob'' e))) (\<lambda>b.
                     rbind (rcatch (json_diff_ids L b) Ok
                              (\<lambda>e. Fail (Wrap ''failed to unmarshal image config'' e))) (\<lambda>diffIDs.
                       Ok (\<lparr>lm_Config = config, lm_RepoTags = tags, lm_Layers = layers,
                            lm_LayersRoot = (if lo_from_store opts then Some root else None)\<rparr>,
                           diffIDs))))))))))"

text \<open>
  The layers of one image: the first twelve characters of a diff id stand for the layer's blob; the
  layer list is only looked at for an id that is new.
\<close>

fun add_layers ::
  "'z lib_scheme \<Rightarrow> string list \<Rightarrow> nat \<Rightarrow> digest list \<Rightarrow> (string, string) gomap \<Rightarrow> (string, string) gomap res"
where
  "add_layers L layers i [] m = Ok m"
| "add_layers L layers i (d # ds) m =
     rbind (dg_encoded L d) (\<lambda>enc.
       rbind (slice_to 12 enc) (\<lambda>layerID.
         if gm_has m layerID then add_layers L layers (i + 1) ds m
         else if i < length layers then add_layers L layers (i + 1) ds (gm_put layerID (layers ! i) m)
         else Panic ''index out of range''))"

type_synonym image_uris = "(string \<times> int) list"

fun app_load_manifests ::
  "'z lib_scheme \<Rightarrow> fs \<Rightarrow> path \<Rightarrow> load_options \<Rightarrow> tree list \<Rightarrow>
   load_manifest list \<Rightarrow> image_uris \<Rightarrow> (string, string) gomap \<Rightarrow>
   (load_manifest list \<times> image_uris \<times> (string, string) gomap) res"
where
  "app_load_manifests L fs root opts [] ms uris m = Ok (ms, uris, m)"
| "app_load_manifests L fs root opts (t # ts) ms uris m =
     rbind (generateImageLoadManifest L fs t root opts) (\<lambda>(lm, diffIDs).
       rbind (add_layers L (lm_Layers lm) 0 diffIDs m) (\<lambda>m'.
         app_load_manifests L fs root opts ts (ms @ [lm])
           (uris @ [(t_Ref t, if lo_with_digest opts then 1 else int (length (lm_RepoTags lm)))]) m'))"

definition generateImageLoadingManifestForApp ::
  "'z lib_scheme \<Rightarrow> fs \<Rightarrow> app_ctx \<Rightarrow> path \<Rightarrow> load_options \<Rightarrow>
   (load_manifest list \<times> image_uris \<times> (string, string) gomap) res" where
  "generateImageLoadingManifestForApp L fs app root opts =
     (case GetComposeRoot app of
        None \<Rightarrow> Panic ''nil pointer dereference''
      | Some r \<Rightarrow> app_load_manifests L fs root opts (t_children r) [] [] [])"

section \<open>Progress from containerd's messages\<close>

definition getImageID :: "image_uris \<Rightarrow> nat \<Rightarrow> string" where
  "getImageID uris i = (if i < length uris then fst (uris ! i) else ''unknown'')"

definition image_event :: "image_load_state \<Rightarrow> string \<Rightarrow> load_progress" where
  "image_event st uri = \<lparr>lp_state = st, lp_image = uri, lp_id = '''', lp_current = 0, lp_total = 0\<rparr>"

text \<open>
  The image of a message: the first image with that URI is loaded and the next one is being
  loaded.  The reporter is used without a check for nil.
\<close>

fun ctrd_loaded :: "image_uris \<Rightarrow> string \<Rightarrow> load_progress list" where
  "ctrd_loaded [] ref = []"
| "ctrd_loaded ((uri, n) # rest) ref =
     (if uri = ref
      then image_event ImageLoadStateImageLoaded uri #
           (case rest of [] \<Rightarrow> [] | (next_uri, _) # _ \<Rightarrow> [image_event ImageLoadStateImageLoading next_uri])
      else ctrd_loaded rest ref)"

fun reportProgressIfContainerd ::
  "json_message list \<Rightarrow> error option \<Rightarrow> image_uris \<Rightarrow> bool \<Rightarrow> load_progress list \<times> unit res"
where
  "reportProgressIfContainerd [] err uris reporter =
     ([], case err of None \<Rightarrow> Ok () | Some e \<Rightarrow> Fail (Wrap ''failed to decode containerd response'' e))"
| "reportProgressIfContainerd (jm # jms) err uris reporter =
     (if prefix ''Error unpacking image'' (jm_stream jm)
      then ([], Fail (Err (''error unpacking image: '' @ jm_stream jm)))
      else if prefix ''Loaded image: '' (jm_stream jm) then
        (let imageRef = trim_suffix (trim_prefix (jm_stream jm) ''Loaded image: '') [CHR 0x0A];
             evs = ctrd_loaded uris imageRef
         in if evs \<noteq> [] \<and> \<not> reporter then ([], Panic ''nil pointer dereference'')
            else (let (evs', r) = reportProgressIfContainerd jms err uris reporter in (evs @ evs', r)))
      else reportProgressIfContainerd jms err uris reporter)"

section \<open>Progress from Docker's messages\<close>

record docker_state =
  ds_index :: nat
  ds_layer :: string
  ds_p :: load_progress
  ds_uris :: image_uris

definition layer_name :: "(string, string) gomap \<Rightarrow> string \<Rightarrow> string res" where
  "layer_name layersMap layerID =
     (case map_of layersMap layerID of Some l \<Rightarrow> slice_to 7 l | None \<Rightarrow> Ok ''unknown'')"

text \<open>
  One reference of the current image was loaded: its counter goes down, and at zero the image is
  finished, reported in state \<open>st\<close>, and the next one is waited for.
\<close>

definition image_done :: "image_load_state \<Rightarrow> docker_state \<Rightarrow> (load_progress list \<times> docker_state) res" where
  "image_done st d =
     (if length (ds_uris d) \<le> ds_index d then Panic ''index out of range''
      else
        (let (uri, n) = ds_uris d ! ds_index d;
             uris' = (ds_uris d)[ds_index d := (uri, i64 (n - 1))];
             d1 = d\<lparr>ds_uris := uris'\<rparr>
         in if i64 (n - 1) = 0
            then (let p = (ds_p d)\<lparr>lp_state := st\<rparr>;
                      i = Suc (ds_index d)
                  in Ok ([p], d1\<lparr>ds_index := i, ds_layer := '''',
                            ds_p := p\<lparr>lp_state := ImageLoadStateImageWaiting, lp_image := getImageID uris' i\<rparr>\<rparr>))
            else Ok ([], d1)))"

definition docker_waiting ::
  "(string, string) gomap \<Rightarrow> json_message \<Rightarrow> docker_state \<Rightarrow> (load_progress list \<times> docker_state) res" where
  "docker_waiting layersMap jm d =
     (case jm_progress jm of
        None \<Rightarrow> image_done ImageLoadStateImageExist d
      | Some (cur, tot) \<Rightarrow>
          rbind (layer_name layersMap (jm_id jm)) (\<lambda>name.
            let p = \<lparr>lp_state = ImageLoadStateLayerLoading, lp_image = getImageID (ds_uris d) (ds_index d),
                     lp_id = name, lp_current = cur, lp_total = tot\<rparr>
            in Ok ([p], d\<lparr>ds_layer := jm_id jm, ds_p := p\<rparr>)))"

definition docker_loading ::
  "json_message \<Rightarrow> docker_state \<Rightarrow> (load_progress list \<times> docker_state) res" where
  "docker_loading jm d =
     (case jm_progress jm of
        None \<Rightarrow> Panic ''nil pointer dereference''
      | Some (cur, tot) \<Rightarrow>
          (let p = (ds_p d)\<lparr>lp_current := cur, lp_total := tot\<rparr> in
           if cur = tot
           then (let q = p\<lparr>lp_state := ImageLoadStateLayerSyncing\<rparr> in Ok ([p, q], d\<lparr>ds_p := q\<rparr>))
           else Ok ([p], d\<lparr>ds_p := p\<rparr>)))"

definition docker_syncing ::
  "(string, string) gomap \<Rightarrow> json_message \<Rightarrow> docker_state \<Rightarrow> (load_progress list \<times> docker_state) res" where
  "docker_syncing layersMap jm d =
     (case jm_progress jm of
        None \<Rightarrow> image_done ImageLoadStateImageLoaded d
      | Some (cur, tot) \<Rightarrow>
          if ds_layer d \<noteq> jm_id jm then
            (let p = (ds_p d)\<lparr>lp_state := ImageLoadStateLayerLoaded\<rparr> in
             rbind (layer_name layersMap (jm_id jm)) (\<lambda>name.
               let q = p\<lparr>lp_id := name, lp_state := ImageLoadStateLayerLoading, lp_current := cur, lp_total := tot\<rparr>
               in Ok ([p, q], d\<lparr>ds_layer := jm_id jm, ds_p := q\<rparr>)))
          else Ok ([], d))"

definition docker_step ::
  "(string, string) gomap \<Rightarrow> json_message \<Rightarrow> docker_state \<Rightarrow> (load_progress list \<times> docker_state) res" where
  "docker_step layersMap jm d =
     (case lp_state (ds_p d) of
        ImageLoadStateImageWaiting \<Rightarrow> docker_waiting layersMap jm d
      | ImageLoadStateLayerLoading \<Rightarrow> docker_loading jm d
      | ImageLoadStateLayerSyncing \<Rightarrow> docker_syncing layersMap jm d
      | _ \<Rightarrow> Ok ([], d))"

fun docker_run ::
  "(string, string) gomap \<Rightarrow> json_message list \<Rightarrow> error option \<Rightarrow> docker_state \<Rightarrow> load_progress list \<times> unit res"
where
  "docker_run layersMap [] err d = ([], err_res err)"
| "docker_run layersMap (jm # jms) err d =
     (case jm_error jm of
        Some m \<Rightarrow> ([], Fail (Err (''dockerd err: '' @ m)))
      | None \<Rightarrow>
          (case docker_step layersMap jm d of
             Ok (evs, d') \<Rightarrow> (let (evs', r) = docker_run layersMap jms err d' in (evs @ evs', r))
           | Fail e \<Rightarrow> ([], Fail e)
           | Panic m \<Rightarrow> ([], Panic m)))"

definition docker_start :: "image_uris \<Rightarrow> docker_state" where
  "docker_start uris =
     \<lparr>ds_index = 0, ds_layer = '''', ds_p = image_event ImageLoadStateImageWaiting (getImageID uris 0),
      ds_uris = uris\<rparr>"

text \<open>The events are reported only if there is a reporter.\<close>

definition reportProgressIfDocker ::
  "json_message list \<Rightarrow> error option \<Rightarrow> image_uris \<Rightarrow> (string, string) gomap \<Rightarrow> bool \<Rightarrow>
   load_progress list \<times> unit res" where
  "reportProgressIfDocker jms err uris layersMap reporter =
     (if uris = [] then ([], Panic ''index out of range'')
      else (let (evs, r) = docker_run layersMap jms err (docker_start uris)
            in (if reporter then evs else [], r)))"

section \<open>Loading\<close>

definition isContainerd :: "('x, 'z) sys_scheme \<Rightarrow> 'x world \<Rightarrow> bool" where
  "isContainerd X w =
     (case dk_info X w of
        Ok (driver, (_, v) # _) \<Rightarrow> driver = ''overlayfs'' \<and> v = ''io.containerd.snapshotter.v1''
      | _ \<Rightarrow> False)"

definition adjustOptionsIfContainerd ::
  "('x, 'z) sys_scheme \<Rightarrow> 'x world \<Rightarrow> load_options \<Rightarrow> bool \<times> load_options" where
  "adjustOptionsIfContainerd X w opts =
     (if isContainerd X w then (True, opts\<lparr>lo_from_store := False\<rparr>) else (False, opts))"

definition blob_paths :: "path \<Rightarrow> load_manifest list \<Rightarrow> path list" where
  "blob_paths root ms =
     map fst (fold (\<lambda>p m. gm_put p True m)
       (concat (map (\<lambda>m. path_join root [lm_Config m] # map (\<lambda>l. path_join root [l]) (lm_Layers m)) ms)) [])"

definition LoadImages ::
  "('x, 'z) sys_scheme \<Rightarrow> app_ctx \<Rightarrow> path \<Rightarrow> load_option list \<Rightarrow> 'x world \<Rightarrow>
   'x world \<times> load_progress list \<times> unit res" where
  "LoadImages X app blobsRoot options w =
     (let (isCtrd, opts) = adjustOptionsIfContainerd X w
            (fold apply_load_option options \<lparr>lo_from_store = False, lo_with_digest = False, lo_reporter = False\<rparr>)
      in case generateImageLoadingManifestForApp X (w_fs w) app blobsRoot opts of
           Fail e \<Rightarrow> (w, [], Fail (Wrap ''failed to generate image load manifests'' e))
         | Panic m \<Rightarrow> (w, [], Panic m)
         | Ok (manifests, uris, layersMap) \<Rightarrow>
             (let blobPaths = (if lo_from_store opts then [] else blob_paths blobsRoot manifests);
                  first = (if isCtrd \<and> lo_reporter opts
                           then (case uris of [] \<Rightarrow> Panic ''index out of range''
                                 | (u, _) # _ \<Rightarrow> Ok [image_event ImageLoadStateImageLoading u])
                           else Ok [])
              in case first of
                   Fail e \<Rightarrow> (w, [], Fail e)
                 | Panic m \<Rightarrow> (w, [], Panic m)
                 | Ok evs0 \<Rightarrow>
                     (case dk_image_load X w manifests blobPaths of
                        (w', Fail e) \<Rightarrow> (w', evs0, Fail e)
                      | (w', Panic m) \<Rightarrow> (w', evs0, Panic m)
                      | (w', Ok (jms, err)) \<Rightarrow>
                          (let (evs, r) = (if isCtrd then reportProgressIfContainerd jms err uris (lo_reporter opts)
                                           else reportProgressIfDocker jms err uris layersMap (lo_reporter opts))
                           in (w', evs0 @ evs, r)))))"

section \<open>The images finish in order\<close>

definition terminal :: "load_progress \<Rightarrow> bool" where
  "terminal p \<longleftrightarrow> lp_state p = ImageLoadStateImageLoaded \<or> lp_state p = ImageLoadStateImageExist"

text \<open>The state between two messages.\<close>

definition docker_inv :: "docker_state \<Rightarrow> bool" where
  "docker_inv d \<longleftrightarrow> lp_image (ds_p d) = getImageID (ds_uris d) (ds_index d) \<and>
     lp_state (ds_p d) \<in> {ImageLoadStateImageWaiting, ImageLoadStateLayerLoading, ImageLoadStateLayerSyncing}"

lemma image_done_step:
  assumes "image_done st d = Ok (evs, d')" and "docker_inv d"
  shows "docker_inv d' \<and> map fst (ds_uris d') = map fst (ds_uris d) \<and>
    ((evs = [] \<and> ds_index d' = ds_index d) \<or>
     (ds_index d' = Suc (ds_index d) \<and> ds_index d < length (ds_uris d) \<and>
      (\<exists>p. evs = [p] \<and> lp_state p = st \<and> lp_image p = fst (ds_uris d ! ds_index d))))"
proof -
  obtain uri n where un: "ds_uris d ! ds_index d = (uri, n)" by force
  from assms(1) have lt: "ds_index d < length (ds_uris d)"
    by (auto simp: image_done_def split: if_splits)
  from assms(2) lt un have im: "lp_image (ds_p d) = uri"
    by (simp add: docker_inv_def getImageID_def)
  have m: "(map fst (ds_uris d))[ds_index d := uri] = map fst (ds_uris d)"
    using lt un by (metis fst_conv list_update_id nth_map)
  have g: "getImageID ((ds_uris d)[ds_index d := (uri, x)]) i = getImageID (ds_uris d) i" for x i
    using un by (cases "i = ds_index d") (auto simp: getImageID_def)
  show ?thesis
  proof (cases "i64 (n - 1) = 0")
    case True
    with assms(1) lt un have e: "evs = [(ds_p d)\<lparr>lp_state := st\<rparr>]"
      "ds_index d' = Suc (ds_index d)" "ds_uris d' = (ds_uris d)[ds_index d := (uri, 0)]"
      "lp_image (ds_p d') = getImageID (ds_uris d') (ds_index d')"
      "lp_state (ds_p d') = ImageLoadStateImageWaiting"
      by (auto simp: image_done_def Let_def)
    then show ?thesis using lt im un m by (simp add: docker_inv_def map_update)
  next
    case False
    with assms(1) lt un have e: "evs = []" "ds_index d' = ds_index d"
      "ds_uris d' = (ds_uris d)[ds_index d := (uri, i64 (n - 1))]" "ds_p d' = ds_p d"
      by (auto simp: image_done_def Let_def)
    then show ?thesis using assms(2) m g by (simp add: docker_inv_def map_update)
  qed
qed

lemma docker_step_inv:
  assumes "docker_step m jm d = Ok (evs, d')" and "docker_inv d"
  shows "docker_inv d' \<and> map fst (ds_uris d') = map fst (ds_uris d) \<and>
    map lp_image (filter terminal evs) = drop (ds_index d) (take (ds_index d') (map fst (ds_uris d))) \<and>
    ds_index d \<le> ds_index d' \<and> ds_index d' \<le> max (ds_index d) (length (ds_uris d))"
proof -
  have done_case: ?thesis if "image_done st d = Ok (evs, d')"
    "st = ImageLoadStateImageLoaded \<or> st = ImageLoadStateImageExist" for st
    using image_done_step [OF that(1) assms(2)] that(2)
    by (auto simp: terminal_def take_Suc_conv_app_nth)
  show ?thesis
  proof (cases "lp_state (ds_p d)")
    case ImageLoadStateImageWaiting
    show ?thesis
    proof (cases "jm_progress jm")
      case None
      with ImageLoadStateImageWaiting assms(1) show ?thesis
        by (intro done_case [of ImageLoadStateImageExist]) (simp_all add: docker_step_def docker_waiting_def)
    next
      case (Some ct)
      obtain cur tot where "ct = (cur, tot)" by force
      with Some ImageLoadStateImageWaiting assms show ?thesis
        by (auto simp: docker_step_def docker_waiting_def docker_inv_def terminal_def rbind_Ok_iff Let_def)
    qed
  next
    case ImageLoadStateLayerLoading
    with assms show ?thesis
      by (auto simp: docker_step_def docker_loading_def docker_inv_def terminal_def Let_def
          split: option.splits if_splits)
  next
    case ImageLoadStateLayerSyncing
    show ?thesis
    proof (cases "jm_progress jm")
      case None
      with ImageLoadStateLayerSyncing assms(1) show ?thesis
        by (intro done_case [of ImageLoadStateImageLoaded]) (simp_all add: docker_step_def docker_syncing_def)
    next
      case (Some ct)
      obtain cur tot where "ct = (cur, tot)" by force
      with Some ImageLoadStateLayerSyncing assms show ?thesis
        by (auto simp: docker_step_def docker_syncing_def docker_inv_def terminal_def rbind_Ok_iff Let_def
            split: if_splits)
    qed
  qed (use assms(2) in \<open>simp_all add: docker_inv_def\<close>)
qed

lemma docker_run_order:
  assumes "docker_run m jms err d = (evs, r)" and "docker_inv d"
  shows "\<exists>n. map lp_image (filter terminal evs) = drop (ds_index d) (take n (map fst (ds_uris d)))"
  using assms
proof (induction jms arbitrary: d evs r)
  case Nil
  then show ?case by (intro exI [of _ 0]) simp
next
  case (Cons jm jms)
  show ?case
  proof (cases "jm_error jm = None \<and> (\<exists>x. docker_step m jm d = Ok x)")
    case False
    with Cons.prems(1) have "evs = []" by (auto split: option.splits res.splits)
    then show ?thesis by (intro exI [of _ 0]) simp
  next
    case True
    then obtain evs1 d1 where st: "docker_step m jm d = Ok (evs1, d1)" by auto
    obtain evs2 r2 where rest: "docker_run m jms err d1 = (evs2, r2)" by force
    from Cons.prems(1) True st rest have evs: "evs = evs1 @ evs2" by simp
    note inv = docker_step_inv [OF st Cons.prems(2)]
    let ?us = "map fst (ds_uris d)"
    from Cons.IH [OF rest] inv obtain n where
      n: "map lp_image (filter terminal evs2) = drop (ds_index d1) (take n ?us)" by auto
    have "drop (ds_index d) (take (ds_index d1) ?us) @ drop (ds_index d1) (take n ?us) =
        drop (ds_index d) (take (max (ds_index d1) n) ?us)"
    proof (cases "ds_index d1 \<le> n")
      case True
      have "take n ?us = take (ds_index d1) ?us @ drop (ds_index d1) (take n ?us)"
        using True by (metis append_take_drop_id min.absorb1 take_take)
      moreover have "ds_index d \<le> length (take (ds_index d1) ?us) \<or> drop (ds_index d1) (take n ?us) = []"
        using inv by auto
      ultimately show ?thesis using True
        by (metis append_Nil2 drop_append diff_is_0_eq drop_0 max.absorb2)
    qed (simp add: max_def)
    with inv n evs show ?thesis by (intro exI [of _ "max (ds_index d1) n"]) simp
  qed
qed

text \<open>Images are reported as finished one after the other, each once, in the order of the app.\<close>

lemma docker_order_helper:
  assumes "reportProgressIfDocker jms err uris m reporter = (evs, r)"
  shows "prefix (map lp_image (filter terminal evs)) (map fst uris)"
proof (cases "uris = []")
  case True
  with assms show ?thesis by (simp add: reportProgressIfDocker_def)
next
  case False
  obtain evs1 r1 where run: "docker_run m jms err (docker_start uris) = (evs1, r1)" by force
  have "docker_inv (docker_start uris)" by (simp add: docker_inv_def docker_start_def image_event_def)
  from docker_run_order [OF run this] obtain n where
    "map lp_image (filter terminal evs1) = take n (map fst uris)" by (auto simp: docker_start_def)
  with assms run False show ?thesis by (auto simp: reportProgressIfDocker_def take_is_prefix)
qed

section \<open>containerd\<close>

lemma ctrd_loaded_images:
  "filter terminal (ctrd_loaded uris ref) =
     (if ref \<in> fst ` set uris then [image_event ImageLoadStateImageLoaded ref] else [])"
proof (induction uris)
  case (Cons u uris)
  then show ?case
    by (cases u; cases uris) (auto simp: terminal_def image_event_def)
qed simp

section \<open>The load manifest\<close>


end
