(* ===== verification/Lifecycle.thy ===== *)
theory Lifecycle
  imports Status ImageLoader
begin

text \<open>
  The life of an app on a device: \<open>install.go\<close>, \<open>start.go\<close>, \<open>stop.go\<close>, \<open>uninstall.go\<close>,
  \<open>remove.go\<close> and \<open>list.go\<close> of \<open>pkg/compose\<close>.  Each operation maps a world to the world it leaves
  and its result; the guards that refuse an operation are the ones of the code.
\<close>

section \<open>Install\<close>

definition InstallCompose ::
  "('x, 'z) sys_scheme \<Rightarrow> app_ctx \<Rightarrow> ('x world \<Rightarrow> provider) \<Rightarrow> path \<Rightarrow> 'x world \<Rightarrow> 'x world \<times> unit res" where
  "InstallCompose X app pv composeRoot w =
     (let dir = path_join composeRoot [a_Name app];
          (fs1, e) = os_mkdir_all X (w_fs w) dir;
          w1 = w\<lparr>w_fs := fs1\<rparr>
      in case e of
           Some err \<Rightarrow> (w1, Fail err)
         | None \<Rightarrow>
             (case GetComposeRoot app of
                None \<Rightarrow> (w1, Panic ''nil pointer dereference'')
              | Some root \<Rightarrow>
                  sbind (slift (pv_get (pv w1) (WithBlobType (WithAppRef ctx_background (a_ref app)) BlobTypeAppBundle)
                           [WithExpectedDigest (d_digest (t_desc root)), WithExpectedSize (d_size (t_desc root))]) w1)
                    (\<lambda>rc w.
                       let (fs2, e2) = untar_into X (w_fs w) rc dir
                       in serr (w\<lparr>w_fs := fs2\<rparr>, e2))))"

definition LoadImages_retry ::
  "('x, 'z) sys_scheme \<Rightarrow> app_ctx \<Rightarrow> path \<Rightarrow> load_option list \<Rightarrow> 'x world \<Rightarrow>
   'x world \<times> load_progress list \<times> unit res" where
  "LoadImages_retry X app root opts w =
     (case LoadImages X app root (opts @ [WithRefWithDigest, WithBlobReadingFromStore]) w of
        (w1, evs, Fail _) \<Rightarrow> (let (w2, evs2, r) = LoadImages X app root opts w1 in (w2, evs @ evs2, r))
      | (w1, evs, r) \<Rightarrow> (w1, evs, r))"

text \<open>What has to be there before the images are loaded: the store, the app and a Docker client.\<close>

definition Install_app ::
  "('x, 'z) sys_scheme \<Rightarrow> config \<Rightarrow> string \<Rightarrow> 'x world \<Rightarrow> (app_store \<times> app_ctx) res" where
  "Install_app X cfg appURI w =
     rbind (wrap_err ''failed to create app store instance'' (AppStoreFactory X cfg)) (\<lambda>cs.
       rbind (wrap_err ''failed to load app %!s(<nil>)'' (LoadAppTree X ctx_background (appStore_provider X w cs)
                (platform_match X (cf_platform cfg)) appURI)) (\<lambda>app.
         rbind (err_res (dk_client X (cf_docker_host cfg))) (\<lambda>_. Ok (cs, app))))"

definition Install_compose ::
  "('x, 'z) sys_scheme \<Rightarrow> config \<Rightarrow> app_store \<Rightarrow> app_ctx \<Rightarrow> 'x world \<Rightarrow> 'x world \<times> unit res" where
  "Install_compose X cfg cs app w =
     sbind (InstallCompose X app (\<lambda>w. appStore_provider X w cs) (cf_compose_root cfg) w) (\<lambda>_ w.
       sbind (slift (CheckComposeInstallation X ctx_background (appStore_provider X w cs) (w_fs w) app
                (GetAppComposeDir cfg (a_Name app))) w) (\<lambda>errs w.
         if errs \<noteq> [] then (w, Fail (Err ''app bundle is not installed completely''))
         else (w, Ok ())))"

text \<open>
  \<open>reporting\<close>: a progress handler or a set of loaded images was given.  The middle component is
  what the image loader reported, both attempts together.
\<close>

definition Install ::
  "('x, 'z) sys_scheme \<Rightarrow> config \<Rightarrow> string \<Rightarrow> bool \<Rightarrow> 'x world \<Rightarrow>
   'x world \<times> load_progress list \<times> unit res" where
  "Install X cfg appURI reporting w =
     (case Install_app X cfg appURI w of
        Fail e \<Rightarrow> (w, [], Fail e)
      | Panic m \<Rightarrow> (w, [], Panic m)
      | Ok (cs, app) \<Rightarrow>
          (case LoadImages_retry X app (GetBlobsRoot cfg) (if reporting then [WithProgressReporting] else []) w of
             (w1, evs, r) \<Rightarrow>
               (case sbind (w1, wrap_err (''failed to load images for app '' @ AppRef_String X (a_ref app)) r)
                       (\<lambda>_. Install_compose X cfg cs app) of
                  (w2, r2) \<Rightarrow> (w2, evs, r2))))"

section \<open>Start and stop\<close>

datatype start_status = AppStartStatusStarting | AppStartStatusStarted | AppStartStatusFailed

type_synonym start_event = "app_ref \<times> start_status"

text \<open>Loading all apps first; a URI that is given twice is one entry of the map.\<close>

fun load_start_apps ::
  "('x, 'z) sys_scheme \<Rightarrow> 'x world \<Rightarrow> config \<Rightarrow> app_store \<Rightarrow> string list \<Rightarrow> (string, app_ctx) gomap \<Rightarrow>
   (string, app_ctx) gomap res"
where
  "load_start_apps X w cfg cs [] apps = Ok apps"
| "load_start_apps X w cfg cs (u # us) apps =
     rbind (LoadAppTree X ctx_background (appStore_provider X w cs) (platform_match X (cf_platform cfg)) u)
       (\<lambda>app. load_start_apps X w cfg cs us (gm_put u app apps))"

fun start_loop ::
  "('x, 'z) sys_scheme \<Rightarrow> config \<Rightarrow> app_ctx list \<Rightarrow> 'x world \<Rightarrow> 'x world \<times> start_event list \<times> unit res"
where
  "start_loop X cfg [] w = (w, [], Ok ())"
| "start_loop X cfg (app # apps) w =
     (case sh_compose X w (GetAppComposeDir cfg (a_Name app)) [''up'', ''-d'', ''--remove-orphans''] of
        (w1, Some e) \<Rightarrow>
          (w1, [(a_ref app, AppStartStatusStarting), (a_ref app, AppStartStatusFailed)],
           Fail (Wrap ''failed to start'' e))
      | (w1, None) \<Rightarrow>
          (let (w2, evs, r) = start_loop X cfg apps w1
           in (w2, (a_ref app, AppStartStatusStarting) # (a_ref app, AppStartStatusStarted) # evs, r)))"

definition StartApps ::
  "('x, 'z) sys_scheme \<Rightarrow> config \<Rightarrow> string list \<Rightarrow> 'x world \<Rightarrow> 'x world \<times> start_event list \<times> unit res" where
  "StartApps X cfg appURIs w =
     (case rbind (AppStoreFactory X cfg) (\<lambda>cs. load_start_apps X w cfg cs appURIs []) of
        Fail e \<Rightarrow> (w, [], Fail e)
      | Panic m \<Rightarrow> (w, [], Panic m)
      | Ok apps \<Rightarrow> start_loop X cfg (map snd apps) w)"

definition stop_app ::
  "('x, 'z) sys_scheme \<Rightarrow> config \<Rightarrow> install_status \<Rightarrow> app_ctx \<Rightarrow> 'x world \<Rightarrow> 'x world \<times> unit res" where
  "stop_app X cfg st app w =
     (if gm_has (ist_compose st) (a_Digest app) then (w, Ok ())
      else serr (sh_compose X w (GetAppComposeDir cfg (a_Name app)) [''down'']))"

definition StopApps ::
  "('x, 'z) sys_scheme \<Rightarrow> config \<Rightarrow> string list \<Rightarrow> 'x world \<Rightarrow> 'x world \<times> unit res" where
  "StopApps X cfg appRefs w =
     sbind (slift (CheckAppsStatus X w cfg appRefs []) w) (\<lambda>status w.
       (case st_install status of
          None \<Rightarrow> if st_apps status = [] then (w, Ok ()) else (w, Panic ''nil pointer dereference'')
        | Some ist \<Rightarrow> sfor (stop_app X cfg ist) (st_apps status) w))"

section \<open>Uninstall\<close>

datatype prune_type = PruneTypeAllUnusedImages | PruneTypeOnlyAppImages

text \<open>How many versions of an app the store has.\<close>

definition app_versions :: "app_ref list \<Rightarrow> string \<Rightarrow> nat" where
  "app_versions refs name = length (filter (\<lambda>r. ar_name r = name) refs)"

definition uninstall_app ::
  "'z lib_scheme \<Rightarrow> config \<Rightarrow> app_ref list \<Rightarrow> install_status \<Rightarrow> app_ctx \<Rightarrow> 'x world \<Rightarrow> 'x world \<times> unit res" where
  "uninstall_app L cfg inStore ist app w =
     (if app_versions inStore (a_Name app) > 1 \<and> gm_has (ist_compose ist) (a_Digest app) then (w, Ok ())
      else (let (fs', e) = os_remove_all L (w_fs w) (GetAppComposeDir cfg (a_Name app))
            in serr (w\<lparr>w_fs := fs'\<rparr>, e)))"

text \<open>The first part: refused while the apps run; otherwise their compose directories go.\<close>

definition uninstall_compose ::
  "('x, 'z) sys_scheme \<Rightarrow> config \<Rightarrow> string list \<Rightarrow> 'x world \<Rightarrow> 'x world \<times> app_ctx list res" where
  "uninstall_compose X cfg appRefs w =
     (if appRefs = [] then (w, Ok [])
      else sbind (slift (CheckAppsStatus X w cfg appRefs []) w) (\<lambda>status w.
        sbind (slift (AreRunning status) w) (\<lambda>running w.
          if running then (w, Fail ErrUninstallRunningApps)
          else sbind (slift (AppStoreFactory X cfg) w) (\<lambda>store w.
            sbind (slift (ListApps X store (w_fs w)) w) (\<lambda>inStore w.
              (case st_install status of
                 None \<Rightarrow> (w, Panic ''nil pointer dereference'')
               | Some ist \<Rightarrow>
                   sbind (sfor (uninstall_app X cfg inStore ist) (st_apps status) w)
                     (\<lambda>_ w. (w, Ok (st_apps status)))))))))"

definition images_not_in_use :: "image_summary list \<Rightarrow> ctr list \<Rightarrow> (string, image_summary) gomap" where
  "images_not_in_use images ctrs =
     fold (\<lambda>c m. gm_del (ct_image_id c) m) ctrs (fold (\<lambda>im m. gm_put (im_id im) im m) images [])"

text \<open>The references of an image in all their spellings.\<close>

definition ref_variants :: "'z lib_scheme \<Rightarrow> string \<Rightarrow> string list" where
  "ref_variants L r =
     r # (case any_ref L r of
            Ok (full, familiar) \<Rightarrow> full # (if familiar \<noteq> '''' then [familiar] else [])
          | _ \<Rightarrow> [])"

definition image_refs_not_in_use :: "'z lib_scheme \<Rightarrow> (string, image_summary) gomap \<Rightarrow> string list" where
  "image_refs_not_in_use L notInUse =
     concat (map (\<lambda>(_, im). concat (map (ref_variants L) (im_digests im @ im_tags im))) notInUse)"

text \<open>The references an image tree may have been loaded under, down to its first manifest.\<close>

function prune_refs :: "'z lib_scheme \<Rightarrow> tree \<Rightarrow> string list res" where
  "prune_refs L t =
     rbind (case ParseImageRef L (t_Ref t) of
              Ok r \<Rightarrow> rbind (GetTagRef L r) (\<lambda>tag. Ok [t_Ref t, tag])
            | Fail e \<Rightarrow> Ok [t_Ref t]
            | Panic m \<Rightarrow> Panic m)
       (\<lambda>refs.
         if t_type t = BlobTypeImageManifest then Ok refs
         else (case t_children t of
                 [] \<Rightarrow> Ok refs
               | c # _ \<Rightarrow> rbind (prune_refs L c) (\<lambda>rest. Ok (refs @ rest))))"
  by pat_completeness auto
termination
  by (relation "measure (\<lambda>(L, t). size t)") (auto intro!: size_child)

declare prune_refs.simps [simp del]

definition app_prune_refs :: "'z lib_scheme \<Rightarrow> app_ctx \<Rightarrow> string list res" where
  "app_prune_refs L app =
     (case GetComposeRoot app of
        None \<Rightarrow> Panic ''nil pointer dereference''
      | Some root \<Rightarrow> rbind (map_res (prune_refs L) (t_children root)) (\<lambda>rs. Ok (concat rs)))"

definition removeAppImageRefs ::
  "('x, 'z) sys_scheme \<Rightarrow> app_ctx list \<Rightarrow> string list \<Rightarrow> 'x world \<Rightarrow> 'x world \<times> unit res" where
  "removeAppImageRefs X apps notInUse w =
     sbind (slift (map_res (app_prune_refs X) apps) w) (\<lambda>rs w.
       (fold (\<lambda>r w. if r \<in> set notInUse then fst (dk_image_remove X w r False True) else w) (concat rs) w, Ok ()))"

definition prune_images ::
  "('x, 'z) sys_scheme \<Rightarrow> config \<Rightarrow> prune_type \<Rightarrow> app_ctx list \<Rightarrow> 'x world \<Rightarrow> 'x world \<times> unit res" where
  "prune_images X cfg ty apps w =
     (case dk_client X (cf_docker_host cfg) of
        Some e \<Rightarrow> (w, Fail (Wrap ''failed to create docker client'' e))
      | None \<Rightarrow>
          sbind (slift (wrap_err ''failed to list images'' (dk_image_list X w)) w) (\<lambda>images w.
            sbind (slift (wrap_err ''failed to list containers'' (dk_container_list X w)) w) (\<lambda>ctrs w.
              let notInUse = images_not_in_use images ctrs in
              (case ty of
                 PruneTypeAllUnusedImages \<Rightarrow>
                   (fold (\<lambda>(i, _) w. fst (dk_image_remove X w i True True)) notInUse w, Ok ())
               | PruneTypeOnlyAppImages \<Rightarrow>
                   removeAppImageRefs X apps (image_refs_not_in_use X notInUse) w))))"

definition UninstallApps ::
  "('x, 'z) sys_scheme \<Rightarrow> config \<Rightarrow> string list \<Rightarrow> prune_type option \<Rightarrow> 'x world \<Rightarrow> 'x world \<times> unit res" where
  "UninstallApps X cfg appRefs prune w =
     (if appRefs = [] \<and> prune \<noteq> Some PruneTypeAllUnusedImages then (w, Ok ())
      else sbind (uninstall_compose X cfg appRefs w) (\<lambda>apps w.
        (case prune of
           None \<Rightarrow> (w, Ok ())
         | Some ty \<Rightarrow> prune_images X cfg ty apps w)))"

section \<open>Remove and list\<close>

definition RemoveApps ::
  "('x, 'z) sys_scheme \<Rightarrow> config \<Rightarrow> string list \<Rightarrow> bool \<Rightarrow> bool \<Rightarrow> 'x world \<Rightarrow> 'x world \<times> unit res" where
  "RemoveApps X cfg appRefs prune checkStatus w =
     (if appRefs = [] then (w, Ok ())
      else sbind
        (if checkStatus
         then sbind (slift (CheckAppsStatus X w cfg appRefs []) w) (\<lambda>st w.
           sbind (slift (AreRunning st) w) (\<lambda>running w.
             if running then (w, Fail (Err ''cannot remove running apps; stop and uinstall them before removing''))
             else sbind (slift (AreInstalled st) w) (\<lambda>installed w.
               if installed then (w, Fail (Err ''cannot remove installed apps; uinstall them before removing''))
               else if \<not> AreFetched st
               then (w, Fail (Err ''cannot remove not full fetched apps; run the 'prune' to remove unused blobs''))
               else (w, Ok ()))))
         else (w, Ok ()))
        (\<lambda>_ w.
          sbind (slift (AppStoreFactory X cfg) w) (\<lambda>store w.
            sbind (slift (map_res (ParseAppRef X) appRefs) w) (\<lambda>refs w.
              store_RemoveApps X store refs prune w))))"

text \<open>An app whose tree cannot be loaded is left out of the list.\<close>

fun loadable_apps ::
  "('x, 'z) sys_scheme \<Rightarrow> 'x world \<Rightarrow> config \<Rightarrow> app_store \<Rightarrow> app_ref list \<Rightarrow> app_ctx list res"
where
  "loadable_apps X w cfg store [] = Ok []"
| "loadable_apps X w cfg store (r # rs) =
     (case LoadAppTree X ctx_background (appStore_provider X w store) (platform_match X (cf_platform cfg))
             (AppRef_String X r) of
        Ok app \<Rightarrow> rbind (loadable_apps X w cfg store rs) (\<lambda>apps. Ok (app # apps))
      | Fail e \<Rightarrow> loadable_apps X w cfg store rs
      | Panic m \<Rightarrow> Panic m)"

definition compose_ListApps ::
  "('x, 'z) sys_scheme \<Rightarrow> config \<Rightarrow> 'x world \<Rightarrow> app_ctx list res" where
  "compose_ListApps X cfg w =
     rbind (AppStoreFactory X cfg) (\<lambda>store.
       rbind (ListApps X store (w_fs w)) (loadable_apps X w cfg store))"

section \<open>Guards and effects\<close>

text \<open>After an installation that succeeded the bundle check finds nothing wrong.\<close>

lemma Install_ok_helper:
  assumes "Install X cfg uri reporting w = (w', evs, Ok ())"
  shows "\<exists>cs app. AppStoreFactory X cfg = Ok cs \<and>
    LoadAppTree X ctx_background (appStore_provider X w cs) (platform_match X (cf_platform cfg)) uri = Ok app \<and>
    CheckComposeInstallation X ctx_background (appStore_provider X w' cs) (w_fs w') app
      (GetAppComposeDir cfg (a_Name app)) = Ok []"
proof -
  from assms obtain cs app where app: "Install_app X cfg uri w = Ok (cs, app)"
    by (auto simp: Install_def split: res.splits)
  with assms obtain w1 where "Install_compose X cfg cs app w1 = (w', Ok ())"
    by (auto simp: Install_def sbind_Ok_iff split: prod.splits)
  with app show ?thesis
    by (auto simp: Install_app_def Install_compose_def stmt_iffs rbind_Ok_iff wrap_err_def rcatch_Ok_iff
        split: if_splits)
qed

lemma images_not_in_use_iff:
  "gm_has (images_not_in_use images ctrs) i \<longleftrightarrow>
     i \<in> im_id ` set images \<and> i \<notin> ct_image_id ` set ctrs"
proof -
  have del: "gm_has (fold (\<lambda>c m. gm_del (ct_image_id c) m) ctrs m) i \<longleftrightarrow> gm_has m i \<and> i \<notin> ct_image_id ` set ctrs" for m
    by (induction ctrs arbitrary: m) auto
  have put: "gm_has (fold (\<lambda>im m. gm_put (im_id im) im m) images m) i \<longleftrightarrow> gm_has m i \<or> i \<in> im_id ` set images" for m
    by (induction images arbitrary: m) auto
  show ?thesis
    unfolding images_not_in_use_def del put by simp
qed

lemma uninstall_app_frame:
  assumes "\<not> prefix (GetAppComposeDir cfg (a_Name app)) p"
  shows "map_of (w_fs (fst (uninstall_app L cfg inStore ist app w))) p = map_of (w_fs w) p"
  using assms
  by (auto simp: uninstall_app_def serr_def os_remove_all_def split: option.splits
      simp: map_of_filter_key [where P = "\<lambda>q. \<not> prefix (GetAppComposeDir cfg (a_Name app)) q"])

lemma uninstall_apps_frame:
  assumes "\<And>app. app \<in> set apps \<Longrightarrow> \<not> prefix (GetAppComposeDir cfg (a_Name app)) p"
  shows "map_of (w_fs (fst (sfor (uninstall_app L cfg inStore ist) apps w))) p = map_of (w_fs w) p"
  using assms
proof (induction apps arbitrary: w)
  case (Cons a apps)
  obtain w1 r where one: "uninstall_app L cfg inStore ist a w = (w1, r)" by force
  have "map_of (w_fs w1) p = map_of (w_fs w) p"
    using uninstall_app_frame [of cfg a p L inStore ist w] Cons.prems one by simp
  then show ?case using Cons.IH [of w1] Cons.prems one by (cases r) auto
qed simp

lemma uninstall_app_removes:
  assumes "uninstall_app L cfg inStore ist app w = (w', Ok ())"
    and "\<not> (app_versions inStore (a_Name app) > 1 \<and> gm_has (ist_compose ist) (a_Digest app))"
    and "prefix (GetAppComposeDir cfg (a_Name app)) p"
  shows "map_of (w_fs w') p = None"
  using assms
  by (auto simp: uninstall_app_def serr_def os_remove_all_def split: option.splits if_splits
      simp: map_of_filter_key [where P = "\<lambda>q. \<not> prefix (GetAppComposeDir cfg (a_Name app)) q"])

lemma uninstall_app_keeps_none:
  assumes "map_of (w_fs w) p = None"
  shows "map_of (w_fs (fst (uninstall_app L cfg inStore ist app w))) p = None"
  using assms
  by (auto simp: uninstall_app_def serr_def os_remove_all_def split: option.splits
      simp: map_of_filter_key [where P = "\<lambda>q. \<not> prefix (GetAppComposeDir cfg (a_Name app)) q"])

lemma uninstall_apps_remove:
  assumes "sfor (uninstall_app L cfg inStore ist) apps w = (w', Ok ())" and "app \<in> set apps"
    and "\<not> (app_versions inStore (a_Name app) > 1 \<and> gm_has (ist_compose ist) (a_Digest app))"
    and "prefix (GetAppComposeDir cfg (a_Name app)) p"
  shows "map_of (w_fs w') p = None"
  using assms(1,2)
proof (induction apps arbitrary: w)
  case (Cons a apps)
  from Cons.prems(1) obtain w1 where one: "uninstall_app L cfg inStore ist a w = (w1, Ok ())"
    and rest: "sfor (uninstall_app L cfg inStore ist) apps w1 = (w', Ok ())"
    by (auto simp: sbind_Ok_iff)
  show ?case
  proof (cases "app \<in> set apps")
    case True
    with Cons.IH [OF rest] show ?thesis .
  next
    case False
    with Cons.prems(2) have "a = app" by simp
    with uninstall_app_removes [of L cfg inStore ist app w w1 p] one assms(3,4)
    have "map_of (w_fs w1) p = None" by simp
    then have "map_of (w_fs (fst (sfor (uninstall_app L cfg inStore ist) apps w1))) p = None"
      by (rule sfor_keeps [where P = "\<lambda>w. map_of (w_fs w) p = None", rotated])
        (rule uninstall_app_keeps_none)
    with rest show ?thesis by simp
  qed
qed simp

lemma uninstall_running_guard:
  assumes "appRefs \<noteq> []" and "CheckAppsStatus X w cfg appRefs [] = Ok st"
  shows "AreRunning st = Ok True \<Longrightarrow>
      UninstallApps X cfg appRefs prune w = (w, Fail ErrUninstallRunningApps)"
    and "UninstallApps X cfg appRefs None w = (w', Ok ()) \<Longrightarrow> AreRunning st = Ok False"
  using assms
  by (auto simp: UninstallApps_def uninstall_compose_def slift_def sbind_Ok_iff split: if_splits)

lemma RemoveApps_guard:
  assumes "RemoveApps X cfg appRefs prune True w = (w', Ok ())" and "appRefs \<noteq> []"
  shows "\<exists>st. CheckAppsStatus X w cfg appRefs [] = Ok st \<and> AreRunning st = Ok False \<and>
    AreInstalled st = Ok False \<and> AreFetched st"
  using assms unfolding RemoveApps_def
  by (auto simp: stmt_iffs split: if_splits)

text \<open>The events of a start: started apps in order, then the one that failed, if any.\<close>

lemma start_loop_events:
  assumes "start_loop X cfg apps w = (w', evs, r)"
  shows "\<exists>n\<le>length apps.
    let started = concat (map (\<lambda>a. [(a_ref a, AppStartStatusStarting), (a_ref a, AppStartStatusStarted)]) (take n apps))
    in (r = Ok () \<and> n = length apps \<and> evs = started) \<or>
       (\<exists>e. r = Fail e \<and> n < length apps \<and>
          evs = started @ [(a_ref (apps ! n), AppStartStatusStarting), (a_ref (apps ! n), AppStartStatusFailed)])"
  using assms
proof (induction apps arbitrary: w w' evs r)
  case (Cons a apps)
  obtain w1 e where c: "sh_compose X w (GetAppComposeDir cfg (a_Name a)) [''up'', ''-d'', ''--remove-orphans''] = (w1, e)"
    by force
  show ?case
  proof (cases e)
    case (Some x)
    with c Cons.prems show ?thesis by (intro exI [of _ 0]) auto
  next
    case None
    obtain w2 evs2 r2 where rest: "start_loop X cfg apps w1 = (w2, evs2, r2)" by (metis prod_cases3)
    with c None Cons.prems have res: "r = r2"
      "evs = (a_ref a, AppStartStatusStarting) # (a_ref a, AppStartStatusStarted) # evs2" by simp_all
    from Cons.IH [OF rest] obtain n where "n \<le> length apps"
      and "let started = concat (map (\<lambda>a. [(a_ref a, AppStartStatusStarting), (a_ref a, AppStartStatusStarted)]) (take n apps))
        in (r2 = Ok () \<and> n = length apps \<and> evs2 = started) \<or>
         (\<exists>e. r2 = Fail e \<and> n < length apps \<and>
          evs2 = started @ [(a_ref (apps ! n), AppStartStatusStarting), (a_ref (apps ! n), AppStartStatusFailed)])"
      by blast
    with res show ?thesis by (intro exI [of _ "Suc n"]) (auto simp: Let_def)
  qed
qed simp

end
