(* ===== verification/Runner.thy ===== *)
theory Runner
  imports UpdateStore Lifecycle
begin

text \<open>
  The runner of an update, \<open>pkg/update/update.go\<close> with \<open>init.go\<close>, \<open>fetch.go\<close>, \<open>install.go\<close>,
  \<open>start.go\<close>, \<open>cancel.go\<close> and \<open>complete.go\<close>.  A call maps the update in memory and the world to
  those it leaves and its result.  The deferred block of each call is a definition of its own;
  as in Go it also runs when the body panics, and then the error it looks at is nil.
\<close>

section \<open>Percentages in double precision\<close>

text \<open>
  \<open>int(float64(c)/float64(t)*100)\<close> for \<open>0 \<le> c\<close>, \<open>0 < t\<close> below \<open>2^53\<close>: the quotient and the product
  are rounded to 53 bits, to nearest and to even on a tie.  The quotient is scaled by a power of
  two first, \<open>scale c t\<close> being the least one that brings it to 1 or above.
\<close>

definition rne :: "nat \<Rightarrow> nat \<Rightarrow> nat" where
  "rne a b =
     (let q = a div b; r = a mod b
      in if 2 * r < b then q else if b < 2 * r then q + 1 else if even q then q else q + 1)"

fun bit_length :: "nat \<Rightarrow> nat" where
  "bit_length n = (if n = 0 then 0 else Suc (bit_length (n div 2)))"

declare bit_length.simps [simp del]

function scale :: "nat \<Rightarrow> nat \<Rightarrow> nat" where
  "scale c t = (if c = 0 \<or> t \<le> c then 0 else Suc (scale (2 * c) t))"
  by pat_completeness auto
termination by (relation "measure (\<lambda>(c, t). t - c)") auto

declare scale.simps [simp del]

definition float_percent :: "int \<Rightarrow> int \<Rightarrow> int" where
  "float_percent c t =
     (let k = scale (nat c) (nat t) + 52;
          m = rne (nat c * 2 ^ k) (nat t) * 100;
          r = bit_length m - 53
      in int (rne m (2 ^ r) * 2 ^ r div 2 ^ k))"

section \<open>Errors that leave an update where it is\<close>

definition interrupted :: "error \<Rightarrow> bool" where
  "interrupted e \<longleftrightarrow> errors_Is e CtxCanceled \<or> errors_Is e CtxDeadlineExceeded"

text \<open>A \<open>*net.DNSError\<close> in the chain decides; otherwise the first \<open>net.Error\<close>.\<close>

fun dns_timeout :: "error \<Rightarrow> bool option" where
  "dns_timeout (DNSError t m) = Some t"
| "dns_timeout e = None"

fun net_timeout :: "error \<Rightarrow> bool option" where
  "net_timeout (DNSError t m) = Some t"
| "net_timeout (NetError t m) = Some t"
| "net_timeout CtxDeadlineExceeded = Some True"
| "net_timeout e = None"

definition errors_As :: "(error \<Rightarrow> 'a option) \<Rightarrow> error \<Rightarrow> 'a option" where
  "errors_As f e = (case List.map_filter f (err_chain e) of [] \<Rightarrow> None | t # _ \<Rightarrow> Some t)"

definition isConnectionTimeout :: "error \<Rightarrow> bool" where
  "isConnectionTimeout err =
     (case errors_As dns_timeout err of
        Some t \<Rightarrow> t
      | None \<Rightarrow> (case errors_As net_timeout err of Some t \<Rightarrow> t | None \<Rightarrow> False))"

section \<open>The frame of a call\<close>

type_synonym 'x rstate = "update \<times> 'x world"

definition set_u :: "(update \<Rightarrow> update) \<Rightarrow> 'x rstate \<Rightarrow> 'x rstate" where
  "set_u f s = (f (fst s), snd s)"

text \<open>The error the deferred block sees: a panic of the body has not assigned it.\<close>

definition deferred_err :: "unit res \<Rightarrow> error option" where
  "deferred_err r = (case r of Fail e \<Rightarrow> Some e | _ \<Rightarrow> None)"

text \<open>The last write, whose error is only printed.\<close>

definition final_write :: "('x, 'z) usys_scheme \<Rightarrow> path \<Rightarrow> 'x rstate \<Rightarrow> 'x rstate \<times> unit res" where
  "final_write X dbf s =
     (case session_write X dbf s of
        (s', Panic m) \<Rightarrow> (s', Panic m)
      | (s', _) \<Rightarrow> (s', Ok ()))"

text \<open>
  The shape of every call: the update enters a state, the record is written, the body runs, the
  deferred block runs, and the result is the body's unless the deferred block panics.
\<close>

definition with_deferred ::
  "'x rstate \<times> unit res \<Rightarrow> (error option \<Rightarrow> 'x rstate \<Rightarrow> 'x rstate \<times> unit res) \<Rightarrow> 'x rstate \<times> unit res" where
  "with_deferred body deferred =
     (case deferred (deferred_err (snd body)) (fst body) of
        (s, Panic m) \<Rightarrow> (s, Panic m)
      | (s, _) \<Rightarrow> (s, snd body))"

definition state_error :: "string \<Rightarrow> ustate \<Rightarrow> error" where
  "state_error op st =
     Err (''cannot '' @ op @ '' update when it is in state '' @ [CHR 0x22] @ State_String st @ [CHR 0x22])"

section \<open>Init\<close>

text \<open>\<open>io_reporter\<close>: a progress reporter was given.\<close>

record init_options =
  in_reporter :: bool
  in_allow_empty :: bool
  in_check_status :: bool

datatype init_option =
    WithInitProgress
  | WithInitAllowEmptyAppList bool
  | WithInitCheckStatus bool

fun apply_init_option :: "init_option \<Rightarrow> init_options \<Rightarrow> init_options" where
  "apply_init_option WithInitProgress opts = opts\<lparr>in_reporter := True\<rparr>"
| "apply_init_option (WithInitAllowEmptyAppList b) opts = opts\<lparr>in_allow_empty := b\<rparr>"
| "apply_init_option (WithInitCheckStatus b) opts = opts\<lparr>in_check_status := b\<rparr>"

definition InitOptions :: "init_option list \<Rightarrow> init_options" where
  "InitOptions options =
     fold apply_init_option options \<lparr>in_reporter = False, in_allow_empty = False, in_check_status = False\<rparr>"

text \<open>
  The trees of the apps, by URI, and the number of their nodes.  The count is kept in the app,
  as \<open>NodeCount\<close> does.
\<close>

fun init_load_apps ::
  "('x, 'z) usys_scheme \<Rightarrow> 'x world \<Rightarrow> config \<Rightarrow> string list \<Rightarrow> (string, app_ctx) gomap \<Rightarrow> int \<Rightarrow>
   ((string, app_ctx) gomap \<times> int) res"
where
  "init_load_apps X w cfg [] apps blobCounter = Ok (apps, blobCounter)"
| "init_load_apps X w cfg (appURI # uris) apps blobCounter =
     rbind (LoadAppTree X ctx_background (newRemoteBlobProvider X w) (platform_match X (cf_platform cfg)) appURI)
       (\<lambda>app. rbind (a_NodeCount app) (\<lambda>(n, app').
         init_load_apps X w cfg uris (gm_put appURI app' apps) (blobCounter + n)))"

text \<open>
  What the walk carries: the update and the world, the bytes left to download, and how many
  nodes it has reported.  The other totals of the source are computed and never read.
\<close>

record 'x init_acc =
  ia_u :: update
  ia_w :: "'x world"
  ia_download :: int
  ia_current :: int

definition ia_state :: "('x, 'z) init_acc_scheme \<Rightarrow> 'x rstate" where
  "ia_state acc = (ia_u acc, ia_w acc)"

text \<open>A blob that is not in the store, or not as it should be, is added to the update.\<close>

definition init_add_blob ::
  "('x, 'z) usys_scheme \<Rightarrow> config \<Rightarrow> app_ctx \<Rightarrow> tree \<Rightarrow> blob_state \<Rightarrow> 'x init_acc \<Rightarrow>
   'x init_acc \<times> unit res" where
  "init_add_blob X cfg app node bs acc =
     (let desc = t_desc node in
      sbind (slift (AlignToBlockSize (d_size desc) (cf_block_size cfg)) acc) (\<lambda>blobStoreSize acc.
        sbind (slift (GetBlobRuntimeSize X app desc (p_arch (cf_platform cfg)) (cf_block_size cfg)) acc)
          (\<lambda>blobRuntimeSize acc.
            sbind (slift (case ls_status X (ia_w acc) (t_Ref node) of
                            Ok off \<Rightarrow> Ok (BlobFetching, off)
                          | Fail e \<Rightarrow> Ok (bs, 0)
                          | Panic m \<Rightarrow> Panic m) acc) (\<lambda>(state, bytesFetched) acc.
              (acc\<lparr>ia_u := (ia_u acc)\<lparr>u_Blobs := gm_put (d_digest desc)
                     (new_blob_fetch \<lparr>bi_desc = desc, bi_state = state, bi_type = t_type node,
                        bi_store_size = blobStoreSize, bi_runtime_size = blobRuntimeSize,
                        bi_bytes_fetched = bytesFetched\<rparr>) (u_Blobs (ia_u acc))\<rparr>,
                   ia_download := i64 (ia_download acc + i64 (d_size desc - bytesFetched))\<rparr>, Ok ())))))"

text \<open>The end of a visit: the totals and the progress go to the record, which is written.\<close>

definition init_report ::
  "('x, 'z) usys_scheme \<Rightarrow> path \<Rightarrow> bool \<Rightarrow> int \<Rightarrow> 'x init_acc \<Rightarrow> 'x init_acc \<times> unit res" where
  "init_report X dbf rep tot acc =
     (let cur = (if rep then ia_current acc + 1 else ia_current acc);
          u = (ia_u acc)\<lparr>u_TotalBlobsBytes := ia_download acc, u_Progress := float_percent cur tot\<rparr>
      in case session_write X dbf (u, ia_w acc) of
           ((u', w'), r) \<Rightarrow> (acc\<lparr>ia_u := u', ia_w := w', ia_current := cur\<rparr>, r))"

definition init_visit ::
  "('x, 'z) usys_scheme \<Rightarrow> config \<Rightarrow> app_store \<Rightarrow> bool \<Rightarrow> int \<Rightarrow> app_ctx \<Rightarrow> tree \<Rightarrow> 'x init_acc \<Rightarrow>
   'x init_acc \<times> unit res" where
  "init_visit X cfg store rep tot app node acc =
     (case ctx_err X (ia_w acc) of
        Some e \<Rightarrow> (acc, Fail e)
      | None \<Rightarrow>
          sbind (slift (CheckBlob X (appStore_provider X (ia_w acc) store)
                   (WithAppRef (WithBlobType ctx_background (t_type node)) (a_ref app))
                   (d_digest (t_desc node))
                   [WithExpectedSize (d_size (t_desc node)), WithExpectedDigest (d_digest (t_desc node)),
                    WithRef (t_Ref node)]) acc) (\<lambda>chk acc.
            (case snd chk of
               Some stateCheckErr \<Rightarrow> (acc, Fail stateCheckErr)
             | None \<Rightarrow>
                 sbind (if fst chk \<noteq> BlobOk \<and> \<not> gm_has (u_Blobs (ia_u acc)) (d_digest (t_desc node))
                        then init_add_blob X cfg app node (fst chk) acc
                        else (acc, Ok ()))
                   (\<lambda>_. init_report X (cf_db_file cfg) rep tot))))"

definition init_walk ::
  "('x, 'z) usys_scheme \<Rightarrow> config \<Rightarrow> app_store \<Rightarrow> bool \<Rightarrow> int \<Rightarrow> app_ctx \<Rightarrow> 'x init_acc \<Rightarrow>
   'x init_acc \<times> unit res" where
  "init_walk X cfg store rep tot app acc =
     prod.swap (Walk (a_tree app) (\<lambda>node depth acc. prod.swap (init_visit X cfg store rep tot app node acc)) acc)"

definition initUpdate ::
  "('x, 'z) usys_scheme \<Rightarrow> config \<Rightarrow> bool \<Rightarrow> 'x rstate \<Rightarrow> 'x rstate \<times> unit res" where
  "initUpdate X cfg rep s =
     sbind (slift (init_load_apps X (snd s) cfg (u_URIs (fst s)) [] 0) s) (\<lambda>(apps, blobCounter) s.
       sbind (slift (NewAppStore X (cf_store_root cfg) (cf_platform cfg) [False]) s) (\<lambda>appStore s.
         sbind (serr (s, ls_new X (cf_store_root cfg))) (\<lambda>_ s.
           let tot = (if rep then blobCounter else int (length (u_URIs (fst s))));
               res = sfor (init_walk X cfg appStore rep tot) (map snd apps)
                       \<lparr>ia_u = (fst s)\<lparr>u_Blobs := []\<rparr>, ia_w = snd s, ia_download = 0, ia_current = 0\<rparr>
           in (ia_state (fst res), snd res))))"

text \<open>The state that the status of the apps justifies; an error of the check is ignored.\<close>

definition status_state ::
  "('x, 'z) usys_scheme \<Rightarrow> config \<Rightarrow> 'x rstate \<Rightarrow> ustate res" where
  "status_state X cfg s =
     rcatch (CheckAppsStatus X (snd s) cfg (u_URIs (fst s)) [])
       (\<lambda>st.
         let s1 = (if AreFetched st then StateFetched else StateInitialized) in
         rbind (AreInstalled st) (\<lambda>installed.
           let s2 = (if installed then StateInstalled else s1) in
           rbind (AreRunning st) (\<lambda>running. Ok (if running then StateStarted else s2))))
       (\<lambda>_. Ok StateInitialized)"

definition init_deferred ::
  "('x, 'z) usys_scheme \<Rightarrow> config \<Rightarrow> bool \<Rightarrow> error option \<Rightarrow> 'x rstate \<Rightarrow> 'x rstate \<times> unit res" where
  "init_deferred X cfg checkStatus err s =
     (case err of
        None \<Rightarrow>
          (let s1 = set_u (\<lambda>u. u\<lparr>u_Progress := 100, u_State := StateInitialized\<rparr>) s in
           sbind (if checkStatus \<and> u_Blobs (fst s1) = [] \<and> u_TotalBlobsBytes (fst s1) = 0
                  then slift (status_state X cfg s1) s1
                  else (s1, Ok StateInitialized)) (\<lambda>st s.
             final_write X (cf_db_file cfg) (set_u (\<lambda>u. u\<lparr>u_State := st, u_InitTime := w_clock (snd s)\<rparr>) s)))
      | Some e \<Rightarrow>
          final_write X (cf_db_file cfg)
            (if \<not> interrupted e \<and> \<not> isConnectionTimeout e then set_u (\<lambda>u. u\<lparr>u_State := StateFailed\<rparr>) s else s))"

text \<open>The part of \<open>Init\<close> before the first write: what it refuses, and how it resets the record.\<close>

definition init_begin :: "bool \<Rightarrow> string list \<Rightarrow> update \<Rightarrow> update res" where
  "init_begin allowEmpty appURIs u =
     (if u_State u = StateCreated then
        (if appURIs = [] \<and> \<not> allowEmpty then Fail (Err ''no app URIs for an update are specified'')
         else Ok (u\<lparr>u_URIs := appURIs\<rparr>))
      else if IsOneOf (u_State u) [StateInitializing, StateInitialized, StateFetching, StateFetched] then
        (if appURIs \<noteq> [] then
           Fail (Err ''cannot reinitialize an existing update with new app URIs specified'')
         else Ok (u\<lparr>u_Blobs := [], u_TotalBlobsBytes := 0, u_FetchedBlobs := 0, u_FetchedBytes := 0,
                    u_Progress := 0\<rparr>))
      else Fail (Err (''cannot reinitialize an update when it is in state '' @ [CHR 0x27] @
             State_String (u_State u) @ [CHR 0x27])))"

definition Init ::
  "('x, 'z) usys_scheme \<Rightarrow> config \<Rightarrow> string list \<Rightarrow> init_option list \<Rightarrow> 'x rstate \<Rightarrow> 'x rstate \<times> unit res" where
  "Init X cfg appURIs options =
     (let opts = InitOptions options in
      lock X (cf_db_file cfg) (\<lambda>s.
        sbind (slift (init_begin (in_allow_empty opts) appURIs (fst s)) s) (\<lambda>u s.
          sbind (session_write X (cf_db_file cfg) (u\<lparr>u_State := StateInitializing\<rparr>, snd s)) (\<lambda>_ s.
            with_deferred
              (if u_URIs (fst s) \<noteq> [] then initUpdate X cfg (in_reporter opts) s else (s, Ok ()))
              (init_deferred X cfg (in_check_status opts))))))"

section \<open>Fetch\<close>

text \<open>
  The callback that the fetch reports to.  A blob of the report that the update does not have is
  a nil pointer; a blob that the update has as fetched is left alone.
\<close>

definition fetch_update_blob :: "digest \<times> blob_fetch \<Rightarrow> update \<Rightarrow> update \<times> unit res" where
  "fetch_update_blob e u =
     (case map_of (u_Blobs u) (fst e) of
        None \<Rightarrow> (u, Panic ''nil pointer dereference'')
      | Some b \<Rightarrow>
          if bf_state b = BlobOk then (u, Ok ())
          else (u\<lparr>u_Blobs := gm_put (fst e) (snd e) (u_Blobs u)\<rparr>, Ok ()))"

definition fetch_percent :: "int \<Rightarrow> int \<Rightarrow> int" where
  "fetch_percent cur all = (if all \<noteq> 0 then i64 (i64 (cur * 100) sdiv all) else 100)"

definition fetch_callback ::
  "('x, 'z) usys_scheme \<Rightarrow> path \<Rightarrow> fetch_progress \<Rightarrow> 'x rstate \<Rightarrow> 'x rstate \<times> unit res" where
  "fetch_callback X dbf p s =
     (case sfor fetch_update_blob (fp_blobs p) (fst s) of
        (u1, r) \<Rightarrow>
          sbind ((u1, snd s), r) (\<lambda>_ s.
            let pr = fetch_percent (fp_current p) (u_TotalBlobsBytes (fst s));
                s1 = set_u (\<lambda>u. u\<lparr>u_FetchedBytes := fp_current p, u_FetchedBlobs := fp_count p,
                       u_Progress := pr, u_State := (if pr = 100 then StateFetched else u_State u)\<rparr>) s
            in final_write X dbf s1))"

text \<open>
  \<open>reports\<close>: the progress values that the monitor of the fetch hands to the callback.  The callback
  writes the update and its database, the fetch reads neither, so the reports follow the fetch.
\<close>

definition fetch_blob_infos :: "update \<Rightarrow> (digest, blob_info) gomap" where
  "fetch_blob_infos u = map (\<lambda>(d, b). (d, bf_info b)) (u_Blobs u)"

definition runner_fetch ::
  "('x, 'z) usys_scheme \<Rightarrow> config \<Rightarrow> path option \<Rightarrow> fetch_progress list \<Rightarrow> 'x rstate \<Rightarrow>
   ('x rstate \<times> unit res) option" where
  "runner_fetch X cfg sourcePath reports s =
     (case FetchBlobs X cfg (fetch_blob_infos (fst s)) sourcePath (snd s) of
        None \<Rightarrow> None
      | Some (w, r) \<Rightarrow> Some (sbind (sfor (fetch_callback X (cf_db_file cfg)) reports (fst s, w)) (\<lambda>_ s. (s, r))))"

definition fetch_deferred ::
  "('x, 'z) usys_scheme \<Rightarrow> config \<Rightarrow> error option \<Rightarrow> 'x rstate \<Rightarrow> 'x rstate \<times> unit res" where
  "fetch_deferred X cfg err s =
     (case err of
        None \<Rightarrow>
          (let s1 = set_u (\<lambda>u. u\<lparr>u_Progress := 100, u_State := StateFetched, u_FetchTime := w_clock (snd s)\<rparr>) s in
           (case NewAppStore X (cf_store_root cfg) (cf_platform cfg) [False] of
              Ok appStore \<Rightarrow>
                (case AddApps X appStore (u_URIs (fst s1)) (w_fs (snd s1)) of
                   (fs', Panic m) \<Rightarrow> ((fst s1, (snd s1)\<lparr>w_fs := fs'\<rparr>), Panic m)
                 | (fs', _) \<Rightarrow> final_write X (cf_db_file cfg) (fst s1, (snd s1)\<lparr>w_fs := fs'\<rparr>))
            | Fail e \<Rightarrow> final_write X (cf_db_file cfg) s1
            | Panic m \<Rightarrow> (s1, Panic m)))
      | Some e \<Rightarrow>
          final_write X (cf_db_file cfg)
            (if \<not> interrupted e \<and> \<not> isConnectionTimeout e then set_u (\<lambda>u. u\<lparr>u_State := StateFailed\<rparr>) s else s))"

text \<open>Entering a state, common to the calls below: the progress starts again and the record is written.\<close>

definition enter ::
  "('x, 'z) usys_scheme \<Rightarrow> path \<Rightarrow> string \<Rightarrow> ustate list \<Rightarrow> ustate \<Rightarrow> 'x rstate \<Rightarrow> 'x rstate \<times> unit res" where
  "enter X dbf op from_states st =
     lock X dbf (\<lambda>s.
       if \<not> IsOneOf (u_State (fst s)) from_states then (s, Fail (state_error op (u_State (fst s))))
       else session_write X dbf (set_u (\<lambda>u. u\<lparr>u_State := st, u_Progress := 0\<rparr>) s))"

text \<open>\<open>None\<close>: the fetch does not return.\<close>

definition Fetch ::
  "('x, 'z) usys_scheme \<Rightarrow> config \<Rightarrow> path option \<Rightarrow> fetch_progress list \<Rightarrow> 'x rstate \<Rightarrow>
   ('x rstate \<times> unit res) option" where
  "Fetch X cfg sourcePath reports s =
     (case enter X (cf_db_file cfg) ''fetch'' [StateInitialized, StateFetching, StateFetched] StateFetching s of
        (s1, Ok _) \<Rightarrow>
          (if u_Blobs (fst s1) \<noteq> []
           then map_option (\<lambda>body. with_deferred body (fetch_deferred X cfg))
                  (runner_fetch X cfg sourcePath reports s1)
           else Some (with_deferred (s1, Ok ()) (fetch_deferred X cfg)))
      | r \<Rightarrow> Some r)"

section \<open>Install\<close>

text \<open>
  \<open>sched\<close> is what the reporter of the image loader delivers of what it was given: its buffer is
  bounded, so events can be dropped.  Each delivered event of a loaded image is recorded.
\<close>

definition record_loaded :: "load_progress list \<Rightarrow> string list \<Rightarrow> string list" where
  "record_loaded evs li =
     fold (\<lambda>p li. if lp_state p = ImageLoadStateImageLoaded then List.insert (lp_image p) li else li) evs li"

definition install_one ::
  "('x, 'z) usys_scheme \<Rightarrow> config \<Rightarrow> (load_progress list \<Rightarrow> load_progress list) \<Rightarrow> string \<Rightarrow> 'x rstate \<Rightarrow>
   'x rstate \<times> unit res" where
  "install_one X cfg sched appURI s =
     (case Install X cfg appURI True (snd s) of
        (w, evs, r) \<Rightarrow>
          (set_u (\<lambda>u. u\<lparr>u_LoadedImages := map_option (record_loaded (sched evs)) (u_LoadedImages u)\<rparr>) (fst s, w), r))"

definition runner_install ::
  "('x, 'z) usys_scheme \<Rightarrow> config \<Rightarrow> (load_progress list \<Rightarrow> load_progress list) \<Rightarrow> 'x rstate \<Rightarrow>
   'x rstate \<times> unit res" where
  "runner_install X cfg sched s =
     (let s1 = set_u (\<lambda>u. u\<lparr>u_LoadedImages :=
                 (case u_LoadedImages u of None \<Rightarrow> Some [] | Some li \<Rightarrow> Some li)\<rparr>) s
      in sbind (sfor (install_one X cfg sched) (u_URIs (fst s1)) s1) (\<lambda>_ s.
           (set_u (\<lambda>u. u\<lparr>u_Progress := 100\<rparr>) s, Ok ())))"

definition finish_state ::
  "('x, 'z) usys_scheme \<Rightarrow> path \<Rightarrow> (update \<Rightarrow> update) \<Rightarrow> error option \<Rightarrow> 'x rstate \<Rightarrow> 'x rstate \<times> unit res" where
  "finish_state X dbf done_u err s =
     (case err of
        None \<Rightarrow> final_write X dbf (set_u done_u s)
      | Some e \<Rightarrow>
          final_write X dbf (if \<not> interrupted e then set_u (\<lambda>u. u\<lparr>u_State := StateFailed\<rparr>) s else s))"

definition runner_Install ::
  "('x, 'z) usys_scheme \<Rightarrow> config \<Rightarrow> (load_progress list \<Rightarrow> load_progress list) \<Rightarrow> 'x rstate \<Rightarrow>
   'x rstate \<times> unit res" where
  "runner_Install X cfg sched s =
     sbind (enter X (cf_db_file cfg) ''install'' [StateFetched, StateInstalling, StateInstalled] StateInstalling s) (\<lambda>_ s.
       with_deferred (runner_install X cfg sched s)
         (finish_state X (cf_db_file cfg) (\<lambda>u. u\<lparr>u_State := StateInstalled\<rparr>)))"

section \<open>Start\<close>

definition start_progress_of :: "int \<Rightarrow> start_event list \<Rightarrow> int \<Rightarrow> int" where
  "start_progress_of step evs p =
     p + step * int (length (filter (\<lambda>e. snd e = AppStartStatusStarted \<or> snd e = AppStartStatusFailed) evs))"

definition runner_start ::
  "('x, 'z) usys_scheme \<Rightarrow> config \<Rightarrow> 'x rstate \<Rightarrow> 'x rstate \<times> unit res" where
  "runner_start X cfg s =
     (let progressStep = 100 div int (length (u_URIs (fst s)))
      in case StartApps X cfg (u_URIs (fst s)) (snd s) of
           (w, evs, r) \<Rightarrow>
             (set_u (\<lambda>u. u\<lparr>u_Progress := start_progress_of progressStep evs (u_Progress u)\<rparr>) (fst s, w), r))"

definition runner_Start ::
  "('x, 'z) usys_scheme \<Rightarrow> config \<Rightarrow> 'x rstate \<Rightarrow> 'x rstate \<times> unit res" where
  "runner_Start X cfg s =
     sbind (enter X (cf_db_file cfg) ''start'' [StateInstalled, StateStarting, StateStarted] StateStarting s) (\<lambda>_ s.
       with_deferred
         (if u_URIs (fst s) \<noteq> [] then runner_start X cfg s else (s, Ok ()))
         (finish_state X (cf_db_file cfg) (\<lambda>u. u\<lparr>u_Progress := 100, u_State := StateStarted\<rparr>)))"

section \<open>Cancel\<close>

definition removeLoadedImages ::
  "('x, 'z) usys_scheme \<Rightarrow> string list \<Rightarrow> 'x world \<Rightarrow> 'x world \<times> unit res" where
  "removeLoadedImages X imageTags w =
     sbind (slift (dk_image_list X w) w) (\<lambda>images w.
       sfor (\<lambda>im. sfor (\<lambda>imageTag w.
               if imageTag \<in> set imageTags then serr (dk_image_remove X w (im_id im) True False)
               else (w, Ok ())) (im_tags im)) images w)"

text \<open>The tags of the loaded images; what does not parse as an image reference is skipped.\<close>

definition loaded_tags :: "'z lib_scheme \<Rightarrow> string list \<Rightarrow> string list res" where
  "loaded_tags L uris =
     rbind (map_res (\<lambda>u. case ParseImageRef L u of
                           Ok r \<Rightarrow> rbind (GetTagRef L r) (\<lambda>t. Ok [t])
                         | Fail e \<Rightarrow> Ok []
                         | Panic m \<Rightarrow> Panic m) uris) (\<lambda>ts. Ok (concat ts))"

text \<open>
  \<open>int(math.Round(100 / float64(n)))\<close>, halves away from zero; the quotient is a half only where it
  is exact.
\<close>

definition cancel_step :: "nat \<Rightarrow> int" where
  "cancel_step n = (200 + int n) div (2 * int n)"

text \<open>One blob: its file is removed, a missing one is fine, and the progress moves up to 100.\<close>

definition cancel_blob ::
  "('x, 'z) usys_scheme \<Rightarrow> config \<Rightarrow> int \<Rightarrow> blob_fetch \<Rightarrow> 'x rstate \<times> nat \<Rightarrow> ('x rstate \<times> nat) \<times> unit res" where
  "cancel_blob X cfg progressStep b sn =
     sbind (slift (dg_encoded X (d_digest (bi_desc (bf_info b)))) sn) (\<lambda>enc sn.
       (case os_remove X (w_fs (snd (fst sn))) (path_join (GetBlobsRoot cfg) [enc]) of
          (fs', e) \<Rightarrow>
            (let failed = (case e of None \<Rightarrow> False | Some x \<Rightarrow> \<not> os_IsNotExist x);
                 s = (fst (fst sn), (snd (fst sn))\<lparr>w_fs := fs'\<rparr>)
             in ((set_u (\<lambda>u. if u_Progress u < 100
                             then u\<lparr>u_Progress := min 100 (u_Progress u + progressStep)\<rparr> else u) s,
                  if failed then Suc (snd sn) else snd sn), Ok ()))))"

definition runner_cancel ::
  "('x, 'z) usys_scheme \<Rightarrow> config \<Rightarrow> 'x rstate \<Rightarrow> 'x rstate \<times> unit res" where
  "runner_cancel X cfg s =
     sbind (case u_LoadedImages (fst s) of
              Some (i # is') \<Rightarrow>
                sbind (serr (s, dk_client X (cf_docker_host cfg))) (\<lambda>_ s.
                  sbind (slift (loaded_tags X (i # is')) s) (\<lambda>imageTags s.
                    (case removeLoadedImages X imageTags (snd s) of (w, r) \<Rightarrow> ((fst s, w), r))))
            | _ \<Rightarrow> (s, Ok ()))
       (\<lambda>_ s.
         (case sfor (cancel_blob X cfg (cancel_step (length (u_Blobs (fst s))))) (map snd (u_Blobs (fst s))) (s, 0) of
            ((s', n), r) \<Rightarrow>
              (s', rbind r (\<lambda>_. if n > 0 then Fail (Err (''failed to remove blobs; number: '' @ show_nat n))
                                 else Ok ()))))"

definition Cancel ::
  "('x, 'z) usys_scheme \<Rightarrow> config \<Rightarrow> 'x rstate \<Rightarrow> 'x rstate \<times> unit res" where
  "Cancel X cfg s =
     sbind (enter X (cf_db_file cfg) ''cancel'' [StateCreated, StateInitializing, StateInitialized, StateFetching, StateFetched,
              StateInstalling, StateInstalled] StateCancelling s) (\<lambda>_ s.
       with_deferred (runner_cancel X cfg s) (finish_state X (cf_db_file cfg) (\<lambda>u. u\<lparr>u_State := StateCanceled\<rparr>)))"

section \<open>Complete\<close>

record complete_opts =
  co_prune :: bool
  co_prune_type :: prune_type
  co_force :: bool

datatype complete_opt = CompleteWithPruning "prune_type list" | CompleteWithForce

text \<open>The prune type is an optional argument, by default the images of the apps.\<close>

fun apply_complete_opt :: "complete_opt \<Rightarrow> complete_opts \<Rightarrow> complete_opts" where
  "apply_complete_opt (CompleteWithPruning ty) opts =
     opts\<lparr>co_prune := True,
          co_prune_type := (case ty of [] \<Rightarrow> PruneTypeOnlyAppImages | t # _ \<Rightarrow> t)\<rparr>"
| "apply_complete_opt CompleteWithForce opts = opts\<lparr>co_force := True\<rparr>"

definition CompleteOpts :: "complete_opt list \<Rightarrow> complete_opts" where
  "CompleteOpts options =
     fold apply_complete_opt options
       \<lparr>co_prune = False, co_prune_type = PruneTypeOnlyAppImages, co_force = False\<rparr>"

text \<open>A blob of an app: what is not in the store as it should be is recorded as missing.\<close>

definition complete_visit ::
  "('x, 'z) usys_scheme \<Rightarrow> 'x world \<Rightarrow> app_store \<Rightarrow> app_ctx \<Rightarrow> (string, string) gomap processor" where
  "complete_visit X w cs app node depth missing =
     (case d_urls (t_desc node) of
        [] \<Rightarrow> (Panic ''index out of range'', missing)
      | blobURI # _ \<Rightarrow>
          (case CheckBlob X (appStore_provider X w cs)
                  (WithAppRef (WithBlobType ctx_background (t_type node)) (a_ref app)) (d_digest (t_desc node))
                  [WithExpectedSize (d_size (t_desc node)), WithExpectedDigest (d_digest (t_desc node)),
                   WithRef blobURI] of
             Fail e \<Rightarrow> (Fail e, missing)
           | Panic m \<Rightarrow> (Panic m, missing)
           | Ok (bs, err) \<Rightarrow>
               (case err of
                  Some e \<Rightarrow> (Fail e, missing)
                | None \<Rightarrow>
                    (case dg_encoded X (d_digest (t_desc node)) of
                       Fail e \<Rightarrow> (Fail e, missing)
                     | Panic m \<Rightarrow> (Panic m, missing)
                     | Ok enc \<Rightarrow>
                         (Ok (), if bs \<noteq> BlobOk then gm_put blobURI enc missing else missing)))))"

fun complete_check ::
  "('x, 'z) usys_scheme \<Rightarrow> 'x world \<Rightarrow> app_store \<Rightarrow> app_ctx list \<Rightarrow> (string, string) gomap \<Rightarrow>
   (string, string) gomap res"
where
  "complete_check X w cs [] missing = Ok missing"
| "complete_check X w cs (app # apps) missing =
     (case Walk (a_tree app) (complete_visit X w cs app) missing of
        (Ok _, missing') \<Rightarrow> complete_check X w cs apps missing'
      | (Fail e, _) \<Rightarrow> Fail (Wrap ''failed to check if all app blobs are present in the app store'' e)
      | (Panic m, _) \<Rightarrow> Panic m)"

text \<open>The apps of the store that are not apps of the update are uninstalled and removed.\<close>

definition apps_to_prune :: "'z lib_scheme \<Rightarrow> (string, app_ctx) gomap \<Rightarrow> app_ctx list \<Rightarrow> string list" where
  "apps_to_prune L updateApps currentApps =
     filter (\<lambda>r. \<not> gm_has updateApps r) (map (\<lambda>a. AppRef_String L (a_ref a)) currentApps)"

definition complete_prune ::
  "('x, 'z) usys_scheme \<Rightarrow> config \<Rightarrow> prune_type \<Rightarrow> (string, app_ctx) gomap \<Rightarrow> 'x world \<Rightarrow> 'x world \<times> unit res" where
  "complete_prune X cfg ty updateApps w =
     sbind (slift (compose_ListApps X cfg w) w) (\<lambda>currentApps w.
       let appsToPrune = apps_to_prune X updateApps currentApps in
       sbind (UninstallApps X cfg appsToPrune (Some ty) w) (\<lambda>_ w.
         if appsToPrune \<noteq> [] then RemoveApps X cfg appsToPrune True False w else (w, Ok ())))"

definition runner_complete ::
  "('x, 'z) usys_scheme \<Rightarrow> config \<Rightarrow> complete_opts \<Rightarrow> string list \<Rightarrow> 'x world \<Rightarrow> 'x world \<times> unit res" where
  "runner_complete X cfg opts uris w =
     sbind (slift (NewAppStore X (cf_store_root cfg) (cf_platform cfg) [False]) w) (\<lambda>cs w.
       sbind (slift (load_start_apps X w cfg cs uris []) w) (\<lambda>updateApps w.
         sbind (slift (complete_check X w cs (map snd updateApps) []) w) (\<lambda>missing w.
           if missing \<noteq> [] then
             (w, Fail (Err (''update cannot be completed; missing blobs are found: '' @ show_nat (length missing))))
           else
             sbind (if co_prune opts then complete_prune X cfg (co_prune_type opts) updateApps w else (w, Ok ()))
               (\<lambda>_ w.
                 sbind (slift (AppStoreFactory X cfg) w) (\<lambda>store w.
                   (case Prune X store w of (w', r) \<Rightarrow> (w', rbind r (\<lambda>_. Ok ()))))))))"

definition complete_deferred ::
  "('x, 'z) usys_scheme \<Rightarrow> path \<Rightarrow> bool \<Rightarrow> error option \<Rightarrow> 'x rstate \<Rightarrow> 'x rstate \<times> unit res" where
  "complete_deferred X dbf force err s =
     final_write X dbf
       (if (case err of None \<Rightarrow> True | Some e \<Rightarrow> force \<and> \<not> interrupted e)
        then set_u (\<lambda>u. u\<lparr>u_Progress := 100, u_State := StateCompleted\<rparr>) s else s)"

definition Complete ::
  "('x, 'z) usys_scheme \<Rightarrow> config \<Rightarrow> complete_opt list \<Rightarrow> 'x rstate \<Rightarrow> 'x rstate \<times> unit res" where
  "Complete X cfg options s =
     sbind (enter X (cf_db_file cfg) ''complete'' [StateStarted, StateCompleting] StateCompleting s) (\<lambda>_ s.
       let opts = CompleteOpts options in
       with_deferred
         (case runner_complete X cfg opts (u_URIs (fst s)) (snd s) of (w, r) \<Rightarrow> ((fst s, w), r))
         (complete_deferred X (cf_db_file cfg) (co_force opts)))"

section \<open>Errors of the network\<close>

lemma errors_As_wrap: "f (Wrap m e) = None \<Longrightarrow> errors_As f (Wrap m e) = errors_As f e"
  by (simp add: errors_As_def List.map_filter_simps)

lemma isConnectionTimeout_wrap [simp]: "isConnectionTimeout (Wrap m e) = isConnectionTimeout e"
  by (simp add: isConnectionTimeout_def errors_As_wrap split: option.splits)

lemma interrupted_wrap [simp]: "interrupted (Wrap m e) = interrupted e"
  by (simp add: interrupted_def errors_Is_def)


section \<open>What a completion has checked\<close>

definition blob_present :: "('x, 'z) usys_scheme \<Rightarrow> 'x world \<Rightarrow> app_store \<Rightarrow> app_ctx \<Rightarrow> tree \<Rightarrow> bool" where
  "blob_present X w cs app n \<longleftrightarrow>
     (\<exists>uri rest. d_urls (t_desc n) = uri # rest \<and>
        CheckBlob X (appStore_provider X w cs)
          (WithAppRef (WithBlobType ctx_background (t_type n)) (a_ref app)) (d_digest (t_desc n))
          [WithExpectedSize (d_size (t_desc n)), WithExpectedDigest (d_digest (t_desc n)), WithRef uri] =
        Ok (BlobOk, None))"

lemma complete_visits_run:
  assumes "run_visits (complete_visit X w cs app) vs m = (Ok u, [])"
  shows "None \<notin> set vs \<and> m = [] \<and> (\<forall>n k. Some (n, k) \<in> set vs \<longrightarrow> blob_present X w cs app n)"
  using assms
proof (induction vs arbitrary: m)
  case (Cons v vs)
  then obtain n k where v: "v = Some (n, k)" by (cases v) auto
  with Cons.prems obtain m1 where one: "complete_visit X w cs app n k m = (Ok (), m1)"
    and rest: "run_visits (complete_visit X w cs app) vs m1 = (Ok u, [])"
    by (auto split: prod.splits res.splits)
  from Cons.IH [OF rest] have "m1 = []" by simp
  with one have "m = [] \<and> blob_present X w cs app n"
    by (auto simp: complete_visit_def blob_present_def split: res.splits prod.splits if_splits list.splits option.splits)
  with Cons.IH [OF rest] v show ?case by auto
qed simp

lemma complete_check_run:
  assumes "complete_check X w cs apps m = Ok []"
  shows "m = [] \<and> (\<forall>app\<in>set apps. \<forall>(n, k)\<in>set (nodes 0 (a_tree app)). blob_present X w cs app n)"
  using assms
proof (induction apps arbitrary: m)
  case (Cons app apps)
  then obtain m1 where wk: "Walk (a_tree app) (complete_visit X w cs app) m = (Ok (), m1)"
    and rest: "complete_check X w cs apps m1 = Ok []" by (auto split: res.splits prod.splits)
  from Cons.IH [OF rest] have "m1 = []" by simp
  with wk have run: "run_visits (complete_visit X w cs app) (visits 0 (a_tree app)) m = (Ok (), [])"
    by (simp add: Walk_def walk_run_visits)
  note v = complete_visits_run [OF run]
  with visits_deep [of "a_tree app" 0] have "height (a_tree app) \<le> MaxMerkleTreeDepth" by force
  then have "visits 0 (a_tree app) = map Some (nodes 0 (a_tree app))" by (simp add: visits_shallow)
  then have "Some (n, k) \<in> set (visits 0 (a_tree app)) \<longleftrightarrow> (n, k) \<in> set (nodes 0 (a_tree app))" for n k
    by auto
  with v Cons.IH [OF rest] show ?case by auto
qed simp

lemma load_start_apps_map:
  assumes "load_start_apps X w cfg cs us apps = Ok apps'"
  shows "(\<forall>u\<in>set us. \<exists>a. LoadAppTree X ctx_background (appStore_provider X w cs) (platform_match X (cf_platform cfg)) u = Ok a \<and>
      map_of apps' u = Some a) \<and> (\<forall>u. u \<notin> set us \<longrightarrow> map_of apps' u = map_of apps u)"
  using assms
proof (induction us arbitrary: apps)
  case (Cons u us)
  then obtain a where a: "LoadAppTree X ctx_background (appStore_provider X w cs) (platform_match X (cf_platform cfg)) u = Ok a"
    and rest: "load_start_apps X w cfg cs us (gm_put u a apps) = Ok apps'"
    by (auto simp: rbind_Ok_iff)
  from Cons.IH [OF rest] a show ?case by (cases "u \<in> set us") (auto simp: update_conv)
qed simp

lemma blob_present_intact:
  assumes "blob_present X w cs app n" and "\<not> as_skopeo cs" and "d_digest (t_desc n) \<noteq> ''''"
  shows "\<exists>ra b. ls_reader_at X w (d_digest (t_desc n)) = Ok ra \<and> prefix b (src_content ra) \<and>
    dg_hash X b = d_digest (t_desc n) \<and> (0 < d_size (t_desc n) \<longrightarrow> int (length b) = d_size (t_desc n))"
proof -
  from assms(1) obtain uri where c: "CheckBlob X (appStore_provider X w cs)
      (WithAppRef (WithBlobType ctx_background (t_type n)) (a_ref app)) (d_digest (t_desc n))
      [WithExpectedSize (d_size (t_desc n)), WithExpectedDigest (d_digest (t_desc n)), WithRef uri] = Ok (BlobOk, None)"
    by (auto simp: blob_present_def)
  have x: "cx_app (WithAppRef (WithBlobType ctx_background (t_type n)) (a_ref app)) = Some (a_ref app)"
    "cx_blob (WithAppRef (WithBlobType ctx_background (t_type n)) (a_ref app)) = Some (t_type n)"
    by (simp_all add: WithAppRef_def WithBlobType_def)
  from CheckBlob_intact [OF c x] assms(2,3) show ?thesis by (simp add: GetSecureReadParams_def store_source_def)
qed

lemma runner_complete_checks:
  assumes "runner_complete X cfg opts uris w = (w', Ok ())"
  obtains cs where "\<not> as_skopeo cs" "as_root cs = cf_store_root cfg"
    "\<forall>uri\<in>set uris. \<exists>app. LoadAppTree X ctx_background (appStore_provider X w cs) (platform_match X (cf_platform cfg)) uri = Ok app \<and>
       (\<forall>(n, k)\<in>set (nodes 0 (a_tree app)). blob_present X w cs app n)"
proof -
  from assms obtain cs apps where cs: "NewAppStore X (cf_store_root cfg) (cf_platform cfg) [False] = Ok cs"
    and apps: "load_start_apps X w cfg cs uris [] = Ok apps"
    and chk: "complete_check X w cs (map snd apps) [] = Ok []"
    by (auto simp: runner_complete_def stmt_iffs split: if_splits)
  have "\<not> as_skopeo cs" "as_root cs = cf_store_root cfg"
    using cs by (auto simp: NewAppStore_def split: option.splits)
  moreover have "\<exists>app. LoadAppTree X ctx_background (appStore_provider X w cs) (platform_match X (cf_platform cfg)) uri = Ok app \<and>
       (\<forall>(n, k)\<in>set (nodes 0 (a_tree app)). blob_present X w cs app n)" if "uri \<in> set uris" for uri
  proof -
    from load_start_apps_map [OF apps] that obtain a where a: "LoadAppTree X ctx_background (appStore_provider X w cs)
        (platform_match X (cf_platform cfg)) uri = Ok a" "map_of apps uri = Some a" by blast
    then have "a \<in> set (map snd apps)" by (force dest: map_of_SomeD)
    with complete_check_run [OF chk] a(1) show ?thesis by blast
  qed
  ultimately show thesis using that by blast
qed

end
