(* ===== verification/Progress.thy ===== *)
theory Progress
  imports Prelude
begin

text \<open>
  The progress reporter of \<open>internal/progress/reporter.go\<close>: a bounded channel, the goroutines
  that \<open>Start\<close> launches, and a stop that either drains the channel or not.  The reporter is a
  state machine whose steps are the calls of its methods and the steps of its workers, so that
  every interleaving of them is a run.  \<open>r_accepted\<close> and \<open>r_handled\<close> record which values were
  queued and which the handler was given; no step depends on them.
\<close>

section \<open>State and operations\<close>

text \<open>A worker waits in its \<open>select\<close>, runs the handler on a value, or has returned.\<close>

datatype 'a worker = WIdle | WBusy 'a | WExit

record 'a reporter =
  r_cap :: nat
  r_ch :: "'a list"
  r_closed :: bool
  r_done :: bool
  r_once :: bool
  r_workers :: "'a worker list"
  r_accepted :: "'a list"
  r_handled :: "'a list"

definition NewReporter :: "nat \<Rightarrow> 'a reporter" where
  "NewReporter bufferSize =
     \<lparr>r_cap = bufferSize, r_ch = [], r_closed = False, r_done = False, r_once = False,
      r_workers = [], r_accepted = [], r_handled = []\<rparr>"

text \<open>The handler is given to \<open>Start\<close>; a nil handler is \<open>False\<close>.\<close>

definition Reporter_Start :: "bool \<Rightarrow> 'a reporter \<Rightarrow> 'a reporter res" where
  "Reporter_Start has_handler r =
     (if \<not> has_handler
      then Panic ''progressHandler specified in the Start method is nil; it should be a non-nil function''
      else Ok (r\<lparr>r_workers := r_workers r @ [WIdle]\<rparr>))"

text \<open>
  A send that does not block: it is accepted when the buffer has room, or when a worker is
  already waiting to receive (\<open>waiting\<close> is that worker's number); on a closed channel it panics.
\<close>

definition Reporter_Update :: "nat option \<Rightarrow> 'a \<Rightarrow> 'a reporter \<Rightarrow> ('a reporter \<times> bool) res" where
  "Reporter_Update waiting x r =
     (if r_closed r then Panic ''send on closed channel''
      else case waiting of
        Some i \<Rightarrow>
          (if i < length (r_workers r) \<and> r_workers r ! i = WIdle \<and> r_ch r = []
           then Ok (r\<lparr>r_workers := (r_workers r)[i := WBusy x], r_accepted := r_accepted r @ [x]\<rparr>, True)
           else Ok (r, False))
      | None \<Rightarrow>
          (if length (r_ch r) < r_cap r
           then Ok (r\<lparr>r_ch := r_ch r @ [x], r_accepted := r_accepted r @ [x]\<rparr>, True)
           else Ok (r, False)))"

text \<open>\<open>Stop\<close> up to its \<open>wg.Wait()\<close>, which is over when every worker has returned.\<close>

definition Reporter_Stop :: "bool \<Rightarrow> 'a reporter \<Rightarrow> 'a reporter" where
  "Reporter_Stop drainChannel r =
     (if r_once r then r
      else r\<lparr>r_once := True, r_closed := True, r_done := r_done r \<or> \<not> drainChannel\<rparr>)"

definition Reporter_Stop_returned :: "'a reporter \<Rightarrow> bool" where
  "Reporter_Stop_returned r \<longleftrightarrow> r_once r \<and> list_all (\<lambda>wk. wk = WExit) (r_workers r)"

text \<open>
  The loop of a worker: receive a value, run the handler on it, or return, which it does when
  the channel is closed and empty or when \<open>doneCh\<close> is closed.  When both cases of the
  \<open>select\<close> are ready either may be taken.
\<close>

definition worker_recv :: "nat \<Rightarrow> 'a reporter \<Rightarrow> 'a reporter option" where
  "worker_recv i r =
     (if i < length (r_workers r) \<and> r_workers r ! i = WIdle then
        (case r_ch r of [] \<Rightarrow> None
         | x # xs \<Rightarrow> Some (r\<lparr>r_ch := xs, r_workers := (r_workers r)[i := WBusy x]\<rparr>))
      else None)"

definition worker_handle :: "nat \<Rightarrow> 'a reporter \<Rightarrow> 'a reporter option" where
  "worker_handle i r =
     (if i < length (r_workers r) then
        (case r_workers r ! i of
           WBusy x \<Rightarrow> Some (r\<lparr>r_workers := (r_workers r)[i := WIdle], r_handled := r_handled r @ [x]\<rparr>)
         | _ \<Rightarrow> None)
      else None)"

definition worker_exit :: "nat \<Rightarrow> 'a reporter \<Rightarrow> 'a reporter option" where
  "worker_exit i r =
     (if i < length (r_workers r) \<and> r_workers r ! i = WIdle \<and>
         (r_closed r \<and> r_ch r = [] \<or> r_done r)
      then Some (r\<lparr>r_workers := (r_workers r)[i := WExit]\<rparr>)
      else None)"

inductive worker_step :: "'a reporter \<Rightarrow> 'a reporter \<Rightarrow> bool" where
  Recv: "worker_recv i r = Some r' \<Longrightarrow> worker_step r r'"
| Handle: "worker_handle i r = Some r' \<Longrightarrow> worker_step r r'"
| Leave: "worker_exit i r = Some r' \<Longrightarrow> worker_step r r'"

inductive reporter_step :: "'a reporter \<Rightarrow> 'a reporter \<Rightarrow> bool" where
  Started: "Reporter_Start True r = Ok r' \<Longrightarrow> reporter_step r r'"
| Updated: "Reporter_Update waiting x r = Ok (r', queued) \<Longrightarrow> reporter_step r r'"
| Stopped: "reporter_step r (Reporter_Stop drain r)"
| Worker: "worker_step r r' \<Longrightarrow> reporter_step r r'"

inductive reporter_run :: "nat \<Rightarrow> 'a reporter \<Rightarrow> bool" for n where
  New: "reporter_run n (NewReporter n)"
| Step: "reporter_run n r \<Longrightarrow> reporter_step r r' \<Longrightarrow> reporter_run n r'"

inductive_cases worker_stepE [consumes 1, case_names Recv Handle Leave]: "worker_step r r'"
inductive_cases reporter_stepE [consumes 1, case_names Started Updated Stopped Worker]: "reporter_step r r'"

section \<open>Nothing is lost or duplicated\<close>

fun busy_values :: "'a worker list \<Rightarrow> 'a list" where
  "busy_values [] = []"
| "busy_values (WBusy x # wks) = x # busy_values wks"
| "busy_values (_ # wks) = busy_values wks"

lemma busy_values_append [simp]: "busy_values (xs @ ys) = busy_values xs @ busy_values ys"
  by (induction xs rule: busy_values.induct) auto

lemma busy_values_Cons: "busy_values (wk # wks) = busy_values [wk] @ busy_values wks"
  by (cases wk) auto

lemma mset_busy_update:
  assumes "i < length wks"
  shows "mset (busy_values (wks[i := wk])) + mset (busy_values [wks ! i]) =
    mset (busy_values wks) + mset (busy_values [wk])"
proof -
  have "wks = take i wks @ (wks ! i) # drop (Suc i) wks"
    using assms by (simp add: id_take_nth_drop)
  then have old: "busy_values wks =
      busy_values (take i wks) @ busy_values [wks ! i] @ busy_values (drop (Suc i) wks)"
    by (metis busy_values_append busy_values_Cons)
  have new: "busy_values (wks[i := wk]) =
      busy_values (take i wks) @ busy_values [wk] @ busy_values (drop (Suc i) wks)"
    using assms by (simp add: upd_conv_take_nth_drop busy_values_Cons [of wk "drop (Suc i) wks"])
  show ?thesis by (simp add: old new)
qed

definition r_inv :: "nat \<Rightarrow> 'a reporter \<Rightarrow> bool" where
  "r_inv n r \<longleftrightarrow>
     r_cap r = n \<and> length (r_ch r) \<le> n \<and> (r_once r \<longleftrightarrow> r_closed r) \<and> (r_done r \<longrightarrow> r_once r) \<and>
     mset (r_accepted r) = mset (r_handled r) + mset (busy_values (r_workers r)) + mset (r_ch r) \<and>
     (length (r_workers r) \<le> 1 \<longrightarrow>
        r_accepted r = r_handled r @ busy_values (r_workers r) @ r_ch r) \<and>
     (r_closed r \<and> \<not> r_done r \<and> WExit \<in> set (r_workers r) \<longrightarrow> r_ch r = []) \<and>
     (\<not> r_closed r \<longrightarrow> WExit \<notin> set (r_workers r))"

lemma busy_single:
  assumes "i < length wks"
  shows "length wks \<le> Suc 0 \<longrightarrow>
    busy_values wks = busy_values [wks ! i] \<and> busy_values (wks[i := wk]) = busy_values [wk]"
  using assms by (cases wks) auto

lemma exited_update:
  assumes "wk \<noteq> WExit" and "WExit \<in> set (wks[i := wk])"
  shows "WExit \<in> set wks"
  using set_update_subset_insert [of wks i wk] assms by auto

lemma worker_step_inv:
  assumes "r_inv n r" and "worker_step r r'"
  shows "r_inv n r'"
  using assms(2)
proof (cases rule: worker_stepE)
  case (Recv i)
  then obtain x xs where at: "i < length (r_workers r)" "r_workers r ! i = WIdle"
    and ch: "r_ch r = x # xs"
    and r': "r' = r\<lparr>r_ch := xs, r_workers := (r_workers r)[i := WBusy x]\<rparr>"
    by (auto simp: worker_recv_def split: if_splits list.splits)
  show ?thesis
    using assms(1) at mset_busy_update [OF at(1), of "WBusy x"] busy_single [OF at(1), of "WBusy x"]
    by (auto simp: r_inv_def r' ch dest: exited_update [rotated])
next
  case (Handle i)
  then obtain x where at: "i < length (r_workers r)" "r_workers r ! i = WBusy x"
    and r': "r' = r\<lparr>r_workers := (r_workers r)[i := WIdle], r_handled := r_handled r @ [x]\<rparr>"
    by (auto simp: worker_handle_def split: if_splits worker.splits)
  show ?thesis
    using assms(1) at mset_busy_update [OF at(1), of "WIdle"] busy_single [OF at(1), of WIdle]
    by (auto simp: r_inv_def r' dest: exited_update [rotated])
next
  case (Leave i)
  then have at: "i < length (r_workers r)" "r_workers r ! i = WIdle"
    and ready: "r_closed r \<and> r_ch r = [] \<or> r_done r"
    and r': "r' = r\<lparr>r_workers := (r_workers r)[i := WExit]\<rparr>"
    by (auto simp: worker_exit_def split: if_splits)
  show ?thesis
    using assms(1) at ready mset_busy_update [OF at(1), of "WExit"] busy_single [OF at(1), of WExit]
    by (auto simp: r_inv_def r')
qed

lemma Reporter_Update_inv:
  assumes "r_inv n r" and "Reporter_Update waiting x r = Ok (r', queued)"
  shows "r_inv n r'"
proof (cases waiting)
  case None
  with assms show ?thesis by (auto simp: Reporter_Update_def r_inv_def split: if_splits)
next
  case (Some i)
  show ?thesis
  proof (cases "i < length (r_workers r) \<and> r_workers r ! i = WIdle \<and> r_ch r = []")
    case True
    with assms(2) Some have r': "r' = r\<lparr>r_workers := (r_workers r)[i := WBusy x], r_accepted := r_accepted r @ [x]\<rparr>"
      and "\<not> r_closed r"
      by (auto simp: Reporter_Update_def split: if_splits)
    then show ?thesis
      using assms(1) True mset_busy_update [of i "r_workers r" "WBusy x"]
        busy_single [of i "r_workers r" "WBusy x"]
      by (auto simp: r_inv_def dest: exited_update [rotated])
  next
    case False
    with assms Some show ?thesis by (auto simp: Reporter_Update_def split: if_splits)
  qed
qed

lemma reporter_step_inv:
  assumes "r_inv n r" and "reporter_step r r'"
  shows "r_inv n r'"
  using assms(2)
proof (cases rule: reporter_stepE)
  case Started
  with assms show ?thesis by (auto simp: Reporter_Start_def r_inv_def)
next
  case (Updated waiting x queued)
  show ?thesis by (rule Reporter_Update_inv [OF assms(1) Updated])
next
  case (Stopped drain)
  with assms(1) show ?thesis by (auto simp: Reporter_Stop_def r_inv_def)
next
  case Worker
  with assms(1) worker_step_inv show ?thesis by blast
qed

lemma reporter_run_inv: "reporter_run n r \<Longrightarrow> r_inv n r"
proof (induction rule: reporter_run.induct)
  case New
  show ?case by (simp add: r_inv_def NewReporter_def)
next
  case (Step r r')
  from Step.IH Step.hyps(2) show ?case by (rule reporter_step_inv)
qed

lemma all_exited_busy: "list_all (\<lambda>wk. wk = WExit) wks \<Longrightarrow> busy_values wks = []"
  by (induction wks rule: busy_values.induct) auto

text \<open>A stop that drains the channel returns only when every accepted value was handled.\<close>

lemma drained_helper:
  assumes "reporter_run n r" and "Reporter_Stop_returned r" and "r_workers r \<noteq> []" and "\<not> r_done r"
  shows "mset (r_handled r) = mset (r_accepted r)"
    and "length (r_workers r) = 1 \<Longrightarrow> r_handled r = r_accepted r"
proof -
  from assms(2,3) have "WExit \<in> set (r_workers r)"
    by (cases "r_workers r") (auto simp: Reporter_Stop_returned_def)
  with reporter_run_inv [OF assms(1)] assms(2,4) have "r_ch r = []" "busy_values (r_workers r) = []"
    by (auto simp: r_inv_def Reporter_Stop_returned_def all_exited_busy)
  with reporter_run_inv [OF assms(1)] show "mset (r_handled r) = mset (r_accepted r)"
    and "length (r_workers r) = 1 \<Longrightarrow> r_handled r = r_accepted r"
    by (auto simp: r_inv_def)
qed

section \<open>A stop returns\<close>

fun worker_rank :: "'a worker \<Rightarrow> nat" where
  "worker_rank WIdle = 1"
| "worker_rank (WBusy x) = 2"
| "worker_rank WExit = 0"

definition reporter_rank :: "'a reporter \<Rightarrow> nat" where
  "reporter_rank r = 3 * length (r_ch r) + sum_list (map worker_rank (r_workers r))"

lemma sum_rank_update:
  "i < length wks \<Longrightarrow>
    sum_list (map worker_rank (wks[i := wk])) + worker_rank (wks ! i) =
    sum_list (map worker_rank wks) + worker_rank wk"
proof (induction wks arbitrary: i)
  case (Cons w wks)
  then show ?case by (cases i) auto
qed simp

lemma worker_step_decreases:
  assumes "worker_step r r'"
  shows "reporter_rank r' < reporter_rank r"
  using assms
proof (cases rule: worker_stepE)
  case (Recv i)
  then obtain x xs where "i < length (r_workers r)" "r_workers r ! i = WIdle" "r_ch r = x # xs"
    "r' = r\<lparr>r_ch := xs, r_workers := (r_workers r)[i := WBusy x]\<rparr>"
    by (auto simp: worker_recv_def split: if_splits list.splits)
  then show ?thesis
    using sum_rank_update [of i "r_workers r" "WBusy x"] by (simp add: reporter_rank_def)
next
  case (Handle i)
  then obtain x where "i < length (r_workers r)" "r_workers r ! i = WBusy x"
    "r' = r\<lparr>r_workers := (r_workers r)[i := WIdle], r_handled := r_handled r @ [x]\<rparr>"
    by (auto simp: worker_handle_def split: if_splits worker.splits)
  then show ?thesis
    using sum_rank_update [of i "r_workers r" WIdle] by (simp add: reporter_rank_def)
next
  case (Leave i)
  then have "i < length (r_workers r)" "r_workers r ! i = WIdle"
    "r' = r\<lparr>r_workers := (r_workers r)[i := WExit]\<rparr>"
    by (auto simp: worker_exit_def split: if_splits)
  then show ?thesis
    using sum_rank_update [of i "r_workers r" WExit] by (simp add: reporter_rank_def)
qed

lemma worker_can_step:
  assumes "r_closed r" and "\<not> list_all (\<lambda>wk. wk = WExit) (r_workers r)"
  shows "\<exists>r'. worker_step r r'"
proof -
  from assms(2) obtain i where i: "i < length (r_workers r)" "r_workers r ! i \<noteq> WExit"
    by (auto simp: list_all_length)
  show ?thesis
  proof (cases "r_workers r ! i")
    case WIdle
    show ?thesis
    proof (cases "r_ch r")
      case Nil
      with i WIdle assms(1) show ?thesis
        by (intro exI, intro worker_step.Leave [of i]) (simp add: worker_exit_def)
    next
      case (Cons x xs)
      with i WIdle show ?thesis
        by (intro exI, intro worker_step.Recv [of i]) (simp add: worker_recv_def)
    qed
  next
    case (WBusy x)
    with i show ?thesis
      by (intro exI, intro worker_step.Handle [of i]) (simp add: worker_handle_def)
  qed (use i in simp)
qed

lemma worker_step_keeps_flags:
  "worker_step r r' \<Longrightarrow> r_once r' = r_once r \<and> r_closed r' = r_closed r \<and> r_done r' = r_done r \<and>
     r_accepted r' = r_accepted r"
  by (erule worker_stepE)
    (auto simp: worker_recv_def worker_handle_def worker_exit_def split: if_splits list.splits worker.splits)

lemma stop_returns_helper:
  assumes "r_closed r" and "r_once r"
  shows "\<exists>k r'. k \<le> reporter_rank r \<and> (worker_step ^^ k) r r' \<and> Reporter_Stop_returned r'"
  using assms
proof (induction "reporter_rank r" arbitrary: r rule: less_induct)
  case less
  show ?case
  proof (cases "list_all (\<lambda>wk. wk = WExit) (r_workers r)")
    case True
    with less.prems show ?thesis by (intro exI [of _ 0]) (auto simp: Reporter_Stop_returned_def)
  next
    case False
    with less.prems worker_can_step obtain r1 where one: "worker_step r r1" by blast
    with worker_step_decreases worker_step_keeps_flags less.prems
    have "reporter_rank r1 < reporter_rank r" "r_closed r1" "r_once r1" by auto
    with less.hyps obtain k r' where k: "k \<le> reporter_rank r1" "(worker_step ^^ k) r1 r'" "Reporter_Stop_returned r'"
      by blast
    with one have "(worker_step ^^ Suc k) r r'" by (rule_tac relpowp_Suc_I2)
    moreover from k(1) \<open>reporter_rank r1 < reporter_rank r\<close> have "Suc k \<le> reporter_rank r" by simp
    ultimately show ?thesis using k(3) by blast
  qed
qed

end
