(* ===== verification/Samples.thy ===== *)
theory Samples
  imports Runner Progress StatFS "HOL-Library.Code_Target_Nat"
begin

text \<open>
  A small concrete system on which the hypotheses of the properties hold: a content store kept in
  the blob directory of the file system, a registry with the blobs of one app, a Docker daemon
  and an update database.  The digest of some bytes is the bytes themselves, and the names of
  the blob files are digests with a suffix, so that every definition evaluates on it.
\<close>

section \<open>Library functions\<close>

fun cut_at :: "char \<Rightarrow> string \<Rightarrow> string \<times> string" where
  "cut_at c [] = ([], [])"
| "cut_at c (x # xs) = (if x = c then ([], xs) else (case cut_at c xs of (a, b) \<Rightarrow> (x # a, b)))"

definition sample_ref :: "string \<Rightarrow> refspec res" where
  "sample_ref s =
     (case cut_at (CHR ''@'') s of
        (l, d) \<Rightarrow> if l = '''' then Fail (Err ''invalid reference'') else Ok \<lparr>rs_locator = l, rs_object = d\<rparr>)"

definition sample_enc :: "digest \<Rightarrow> string res" where
  "sample_enc d = (if d = '''' then Panic ''no separator'' else Ok (d @ ''-0123456789ab''))"

definition blob_desc :: "string \<Rightarrow> string \<Rightarrow> descriptor" where
  "blob_desc media d =
     \<lparr>d_media = media, d_digest = d, d_size = int (length d), d_urls = [], d_annot = None, d_platform = None\<rparr>"

definition sample_platform :: platform where
  "sample_platform = \<lparr>p_arch = ''arm64'', p_os = ''linux'', p_variant = ''''\<rparr>"

text \<open>The manifest \<open>A\<close> of the app, its bundle \<open>B\<close>, its image \<open>I\<close> with configuration \<open>C\<close> and layer \<open>L\<close>.\<close>

definition sample_manifest :: "bytes \<Rightarrow> manifest res" where
  "sample_manifest b =
     (if b = ''A'' then
        Ok \<lparr>m_media = AppManifestMediaType, m_config = blob_desc '''' ''E'',
            m_layers = [blob_desc AppLayerMediaType ''B'']\<rparr>
      else if b = ''I'' then
        Ok \<lparr>m_media = ''mm'', m_config = blob_desc ''cc'' ''C'', m_layers = [blob_desc ''ll'' ''L'']\<rparr>
      else Fail (Err ''invalid manifest''))"

definition sample_image_root :: "bytes \<Rightarrow> image_root res" where
  "sample_image_root b =
     (if b = ''I'' then
        Ok \<lparr>ir_schema = 2, ir_media = ''mm'', ir_config = ''c'', ir_layers = ''l'', ir_manifests = '''',
            ir_fslayers = ''''\<rparr>
      else Fail (Err ''invalid image root''))"

definition sample_entries :: "bytes \<Rightarrow> tar_entry list" where
  "sample_entries b =
     (if b = ''B'' then
        [\<lparr>te_name = ''docker-compose.yml'', te_regular = True, te_dir = False, te_size = 1, te_data = ''P''\<rparr>]
      else [])"

definition sample_services :: "string \<Rightarrow> bytes \<Rightarrow> service_config list res" where
  "sample_services name b =
     (if b = ''P'' then
        Ok [\<lparr>sc_name = ''svc'', sc_image = ''h/i@I'', sc_labels = Some [(AppServiceHashLabelKey, ''hash'')]\<rparr>]
      else Fail (Err ''invalid compose project''))"

definition sample_lib0 :: lib where
  "sample_lib0 =
     \<lparr>dg_hash = (\<lambda>b. b), dg_encoded = sample_enc, dg_parse = Ok, ref_parse = sample_ref,
      ref_hostname = (\<lambda>s. fst (cut_at (CHR ''/'') (rs_locator s))), ref_digest = rs_object,
      ref_split_object = (\<lambda>s. ('''', s)), ref_string = (\<lambda>s. rs_locator s @ ''@'' @ rs_object s),
      any_ref = (\<lambda>s. Ok (s, s)), is_index_type = (\<lambda>t. t = ''ii''), is_manifest_type = (\<lambda>t. t = ''mm''),
      is_config_type = (\<lambda>t. t = ''cc''), is_layer_type = (\<lambda>t. t = ''ll''), platform_match = (=),
      json_manifest = sample_manifest, json_image_root = sample_image_root,
      json_desc = (\<lambda>b. Ok (blob_desc ''cc'' ''C'')), json_descs = (\<lambda>b. Ok [blob_desc ''ll'' ''L'']),
      json_diff_ids = (\<lambda>b. Ok [''D'']), json_layers_meta = (\<lambda>b. (None, None)),
      json_bundle_index = (\<lambda>b. Ok []), json_index = (\<lambda>ds. Ok ''X''),
      untar = (\<lambda>rc. Ok ([], None)), untar_into = (\<lambda>fs rc p. (fs, None)),
      load_project = sample_services, atoi = (\<lambda>s. None), io_bufsz = (\<lambda>n. 7),
      io_fault = (\<lambda>op p. None), io_partial = (\<lambda>p. 0)\<rparr>"

text \<open>Reading an archive: the whole stream is read, with its checks.\<close>

definition sample_untar :: "read_closer \<Rightarrow> (tar_entry list \<times> error option) res" where
  "sample_untar rc = rcatch (io_ReadAll sample_lib0 rc) (\<lambda>b. Ok (sample_entries b, None)) (\<lambda>e. Ok ([], Some e))"

definition sample_untar_into :: "fs \<Rightarrow> read_closer \<Rightarrow> path \<Rightarrow> fs \<times> error option" where
  "sample_untar_into fs rc p =
     (case io_ReadAll sample_lib0 rc of
        Ok b \<Rightarrow> (fold (\<lambda>e fs. gm_put (p @ [te_name e]) (FFile (te_data e)) fs) (sample_entries b) fs, None)
      | Fail e \<Rightarrow> (fs, Some e)
      | Panic m \<Rightarrow> (fs, Some (Err m)))"

section \<open>The store, the registry and the daemon\<close>

record daemon =
  dm_images :: "image_summary list"
  dm_ctrs :: "ctr list"
  dm_ctx :: "error option"

definition sample_root :: path where "sample_root = [''s'']"

definition sample_blob_file :: "digest \<Rightarrow> path" where
  "sample_blob_file d = [''s'', ''blobs'', ''sha256'', d @ ''-0123456789ab'']"

definition store_get :: "daemon world \<Rightarrow> digest \<Rightarrow> bytes res" where
  "store_get w d =
     (case map_of (w_fs w) (sample_blob_file d) of
        Some (FFile b) \<Rightarrow> Ok b
      | _ \<Rightarrow> Fail (ErrdefsNotFound d))"

definition store_copy ::
  "daemon world \<Rightarrow> string \<Rightarrow> descriptor \<Rightarrow> read_closer \<Rightarrow> daemon world \<times> error option" where
  "store_copy w ref desc rc =
     (case io_ReadAll sample_lib0 rc of
        Ok b \<Rightarrow>
          (if b = d_digest desc \<and> int (length b) = d_size desc
           then (w\<lparr>w_fs := gm_put (sample_blob_file b) (FFile b) (w_fs w)\<rparr>, None)
           else (w, Some (Err ''unexpected commit digest'')))
      | Fail e \<Rightarrow> (w, Some e)
      | Panic m \<Rightarrow> (w, Some (Err m)))"

definition registry :: "string list" where
  "registry = [''A'', ''B'', ''I'', ''C'', ''L'']"

definition registry_blob :: "digest \<Rightarrow> src res" where
  "registry_blob d = (if d \<in> set registry then Ok [(d, None)] else Fail (ErrdefsNotFound d))"

definition sample_load :: "daemon world \<Rightarrow> load_manifest list \<Rightarrow> path list \<Rightarrow>
   daemon world \<times> (json_message list \<times> error option) res" where
  "sample_load w ms blobs =
     (w\<lparr>w_ext := (w_ext w)\<lparr>dm_images := dm_images (w_ext w) @
          map (\<lambda>m. \<lparr>im_id = lm_Config m, im_digests = [], im_tags = lm_RepoTags m\<rparr>) ms\<rparr>\<rparr>,
      Ok (concat (map (\<lambda>m. [\<lparr>jm_stream = '''', jm_error = None, jm_id = ''D-0123456789'', jm_progress = Some (1, 2)\<rparr>,
            \<lparr>jm_stream = '''', jm_error = None, jm_id = ''D-0123456789'', jm_progress = Some (2, 2)\<rparr>,
            \<lparr>jm_stream = '''', jm_error = None, jm_id = '''', jm_progress = None\<rparr>]) ms), None))"

definition sample_sys0 :: "daemon sys" where
  "sample_sys0 =
     lib.extend (sample_lib0\<lparr>untar := sample_untar, untar_into := sample_untar_into\<rparr>)
      (sys.fields (\<lambda>p. None) (\<lambda>w ref. Fail (ErrdefsNotFound ref))
        (\<lambda>w d. rbind (store_get w d) (\<lambda>b. Ok (int (length b))))
        (\<lambda>w d. rbind (store_get w d) (\<lambda>b. Ok [(b, None)]))
        (\<lambda>w ref desc. (w, if is_ok (store_get w (d_digest desc)) then Some (ErrdefsAlreadyExists ref) else None))
        (\<lambda>w d. (w\<lparr>w_fs := gm_del (sample_blob_file d) (w_fs w)\<rparr>, None))
        store_copy
        (\<lambda>w ref. rbind (sample_ref ref) (\<lambda>s. Ok (blob_desc '''' (rs_object s))))
        (\<lambda>w ref. None)
        (\<lambda>w ref desc. registry_blob (d_digest desc))
        (\<lambda>rc. True) (\<lambda>h. None) (\<lambda>w. Ok (''overlay2'', [])) sample_load
        (\<lambda>w. Ok (dm_images (w_ext w))) (\<lambda>w i f p. (w, None))
        (\<lambda>w. Ok (dm_ctrs (w_ext w))) (\<lambda>w c. Ok (Some \<lparr>cs_health = None, cs_status = ''running'', cs_exit = 0\<rparr>))
        (\<lambda>w d args. (w, None)) (\<lambda>w. dm_ctx (w_ext w)))"

section \<open>The update database\<close>

text \<open>Records are encoded by their place in a table of the records of a run.\<close>

definition table_enc :: "update list \<Rightarrow> update \<Rightarrow> bytes res" where
  "table_enc tbl u =
     (case filter (\<lambda>i. tbl ! i = u) [0..<length tbl] of
        [] \<Rightarrow> Fail (Err ''unknown record'')
      | i # _ \<Rightarrow> Ok (replicate i (CHR ''u'')))"

definition table_dec :: "update list \<Rightarrow> bytes \<Rightarrow> update res" where
  "table_dec tbl d = (if length d < length tbl then Ok (tbl ! length d) else Fail (Err ''invalid record''))"

definition sample_usys :: "update list \<Rightarrow> daemon usys" where
  "sample_usys tbl =
     sys.extend sample_sys0
       (usys.fields (\<lambda>w p ro. None) (\<lambda>w p. None) (table_enc tbl) (table_dec tbl) (\<lambda>w. Ok ''02''))"

definition sample_sys :: "daemon usys" where
  "sample_sys = sample_usys []"

lemma table_round_trip: "table_enc tbl u = Ok d \<Longrightarrow> table_dec tbl d = Ok u"
proof -
  assume "table_enc tbl u = Ok d"
  then obtain i is' where f: "filter (\<lambda>i. tbl ! i = u) [0..<length tbl] = i # is'" "d = replicate i (CHR ''u'')"
    by (auto simp: table_enc_def split: list.splits)
  have "i \<in> set (filter (\<lambda>i. tbl ! i = u) [0..<length tbl])"
    by (simp only: f(1) list.set_intros)
  then have "i < length tbl" "tbl ! i = u" by auto
  with f(2) show ?thesis by (simp add: table_dec_def)
qed

section \<open>Worlds\<close>

definition dirs :: "path list \<Rightarrow> fs" where "dirs ps = map (\<lambda>p. (p, FDir)) ps"

definition store_files :: "string list \<Rightarrow> fs" where
  "store_files ds = map (\<lambda>d. (sample_blob_file d, FFile d)) ds"

text \<open>The store without apps, with the blobs of \<open>ds\<close> and a blob \<open>Z\<close> that no app uses.\<close>

definition base_fs :: "string list \<Rightarrow> fs" where
  "base_fs ds =
     dirs [[], [''s''], [''s'', ''apps''], [''s'', ''blobs''], [''s'', ''blobs'', ''sha256''], [''c'']] @
     store_files (ds @ [''Z''])"

text \<open>The app in the store, and its bundle in the compose directory.\<close>

definition app_files :: fs where
  "app_files = dirs [[''s'', ''apps'', ''n''], [''s'', ''apps'', ''n'', ''A-0123456789ab'']] @
     [([''s'', ''apps'', ''n'', ''A-0123456789ab'', ''uri''], FFile ''h/n@A'')]"

definition bundle_files :: fs where
  "bundle_files = dirs [[''c'', ''n'']] @ [([''c'', ''n'', ''docker-compose.yml''], FFile ''P'')]"

definition no_daemon :: daemon where "no_daemon = \<lparr>dm_images = [], dm_ctrs = [], dm_ctx = None\<rparr>"

definition sample_world :: "fs \<Rightarrow> daemon world" where
  "sample_world fs = \<lparr>w_fs = fs, w_db = (\<lambda>p. None), w_clock = 0, w_ext = no_daemon\<rparr>"

text \<open>A world with one database of updates.\<close>

definition with_db :: "path \<Rightarrow> (bytes, bytes) gomap \<Rightarrow> 'x world \<Rightarrow> 'x world" where
  "with_db p b w = w\<lparr>w_db := (w_db w)(p := Some b)\<rparr>"

lemma with_db_simps [simp]:
  "w_db (with_db p b w) p = Some b" "q \<noteq> p \<Longrightarrow> w_db (with_db p b w) q = w_db w q"
  by (simp_all add: with_db_def)

definition empty_world :: "daemon world" where "empty_world = sample_world (base_fs [])"

definition fetched_world :: "daemon world" where "fetched_world = sample_world (base_fs registry @ app_files)"

definition installed_daemon :: "string \<Rightarrow> daemon" where
  "installed_daemon st =
     \<lparr>dm_images = [\<lparr>im_id = ''C'', im_digests = [''h/i@I''], im_tags = []\<rparr>,
                   \<lparr>im_id = ''U'', im_digests = [''h/u@U''], im_tags = []\<rparr>],
      dm_ctrs = [\<lparr>ct_id = ''k'', ct_image = ''h/i@I'', ct_image_id = ''C'',
                  ct_labels = [(AppServiceHashLabelKey, ''hash''), (ServiceLabel, ''svc'')],
                  ct_state = st, ct_status = ''''\<rparr>],
      dm_ctx = None\<rparr>"

definition running_world :: "daemon world" where
  "running_world = \<lparr>w_fs = base_fs registry @ app_files @ bundle_files, w_db = (\<lambda>p. None), w_clock = 0,
     w_ext = installed_daemon ''running''\<rparr>"

definition sample_config :: config where
  "sample_config = \<lparr>cf_store_root = [''s''], cf_compose_root = [''c''], cf_docker_host = '''',
     cf_platform = sample_platform, cf_connect_timeout = 0, cf_read_timeout = 0, cf_skopeo = False,
     cf_block_size = 4096, cf_db_file = [''s'', ''updates.db''], cf_proxy = None\<rparr>"

definition sample_store :: app_store where
  "sample_store = \<lparr>as_root = [''s''], as_apps_root = [''s'', ''apps''],
     as_blobs_root = [''s'', ''blobs'', ''sha256''], as_platform = sample_platform, as_skopeo = False\<rparr>"

lemma sample_store_ok: "AppStoreFactory sample_sys sample_config = Ok sample_store"
  by code_simp

definition sample_pv :: "daemon world \<Rightarrow> provider" where
  "sample_pv w = appStore_provider sample_sys w sample_store"

definition sample_app :: app_ctx where
  "sample_app =
     (case LoadAppTree sample_sys ctx_background (sample_pv fetched_world) ((=) sample_platform) ''h/n@A'' of
        Ok a \<Rightarrow> a)"

lemma sample_app_tree:
  "tree_size (a_tree sample_app) = 5 \<and> a_Name sample_app = ''n'' \<and> a_Digest sample_app = ''A''"
  by code_simp


text \<open>A call that succeeds with a value of which something holds, evaluated once.\<close>

definition succeeds_with :: "('a \<Rightarrow> bool) \<Rightarrow> 'a res \<Rightarrow> bool" where
  "succeeds_with P r = (case r of Ok v \<Rightarrow> P v | _ \<Rightarrow> False)"

lemma succeeds_withE:
  assumes "succeeds_with P r"
  obtains v where "r = Ok v" "P v"
  using assms by (cases r) (auto simp: succeeds_with_def)

end
