(* ===== verification/BlobProps.thy ===== *)
theory BlobProps
  imports Samples
begin

text \<open>
  The properties of blobs: what the secure reader and the providers guarantee of the bytes they
  deliver, and what fetching does to the store and to the progress it reports.
\<close>

section \<open>Reading\<close>

text \<open>C1: The bytes that the secure reader delivers to the end without an error are a prefix of the source and
  hash to the expected digest; they have the expected size when one is set, and no more than the
  read limit.  This holds for every way in which the source may deliver its bytes, with short reads and errors.\<close>
theorem secure_read_sound:
  assumes "secure_read_all L bsz s opts = Ok (b, None)"
  shows "prefix b (src_content s) \<and> dg_hash L b = rp_digest (GetSecureReadParams opts) \<and>
    (0 < rp_size (GetSecureReadParams opts) \<longrightarrow> int (length b) = rp_size (GetSecureReadParams opts)) \<and>
    (0 < rp_limit (GetSecureReadParams opts) \<longrightarrow> int (length b) \<le> rp_limit (GetSecureReadParams opts))"
proof -
  from assms obtain rc where rc: "NewSecureReadCloser s opts = Ok rc"
    and all: "read_all L bsz rc [] = Ok (b, None)"
    by (auto simp: secure_read_all_def rbind_iffs)
  from NewSecureReadCloser_OkD [OF rc] have "rc_src rc = s" by (metis rc_src.simps(1))
  with read_all_content [OF all] secure_read_all_sound [OF assms] show ?thesis by simp
qed

theorem secure_read_sound_witness:
  "prefix ''AB'' (src_content [(''A'', None), (''BC'', None)]) \<and> dg_hash sample_sys ''AB'' = ''AB''"
proof -
  have "secure_read_all sample_sys (\<lambda>n. 0) [(''A'', None), (''B'', None)]
      [WithExpectedDigest ''AB'', WithExpectedSize 2] = Ok (''AB'', None)" by code_simp
  from secure_read_sound [OF this] show ?thesis
    by (simp add: GetSecureReadParams_def src_content_def)
qed

text \<open>C?: For a source that does not fail, the loop over the secure reader computes a function of the content alone,
  however the source cuts it into reads and whatever buffers the caller uses: \<open>secure_spec\<close> says for every
  size, limit and digest whether the result is the content, a size, digest or limit error, or the
  panic for more bytes than expected.\<close>
theorem secure_read_refines:
  assumes "src_clean s"
  shows "secure_read_all L bsz s opts =
    rbind (effective_limit (GetSecureReadParams opts)) (\<lambda>p.
      if rp_limit p = 0
      then Fail (Err ''neither `SecureReadParams.ReadLimit` not `SecureReadParams.ExpectedSize` is set'')
      else secure_spec L p (src_content s))"
  using assms by (rule secure_read_all_spec)

theorem secure_read_refines_witness:
  "secure_read_all sample_sys (\<lambda>n. n) [(''A'', None), ('''', None), (''B'', None)]
     [WithExpectedDigest ''AB'', WithExpectedSize 3] = Ok (''AB'', Some (ErrBlobSizeMismatch 3 2))"
proof -
  have "src_clean [(''A'', None), ('''', None), (''B'', None)]" by (simp add: src_clean_def)
  from secure_read_refines [OF this, of sample_sys "\<lambda>n. n" "[WithExpectedDigest ''AB'', WithExpectedSize 3]"]
  show ?thesis
    by (simp add: GetSecureReadParams_def effective_limit_def secure_spec_def src_content_def)
qed

text \<open>C?: A reader that asks for more bytes than its limit allows past the expected size, and gets them, ends in the
  panic of \<open>Read\<close>: a blob longer than its descriptor says, read with a larger limit, stops the program
  instead of giving the size error.\<close>
theorem secure_read_long_panics:
  assumes "src_clean s" and "0 < n" and "n < l" and "n < int (length (src_content s))"
  shows "\<exists>m. secure_read_all L bsz s [WithExpectedDigest d, WithExpectedSize n, WithReadLimit l] = Panic m"
proof -
  have "int (length (take (nat l) (src_content s))) > n"
    using assms(3,4) by (simp add: min_def)
  with assms(2,3) show ?thesis
    by (simp add: secure_read_all_spec [OF assms(1)] GetSecureReadParams_def effective_limit_def
        secure_spec_def Let_def)
qed

theorem secure_read_long_panics_witness:
  "\<exists>m. secure_read_all sample_sys (\<lambda>n. n) [(''ABC'', None)]
     [WithExpectedDigest ''AB'', WithExpectedSize 2, WithReadLimit 8] = Panic m"
proof -
  have "src_clean [(''ABC'', None)]" by (simp add: src_clean_def)
  from secure_read_long_panics [OF this, of 2 8 sample_sys "\<lambda>n. n" "''AB''"]
  show ?thesis by (simp add: src_content_def)
qed


definition sample_opts :: "string \<Rightarrow> read_opt list" where
  "sample_opts d = [WithExpectedSize 1, WithExpectedDigest d]"

definition read_closer_of :: "read_closer res \<Rightarrow> read_closer" where
  "read_closer_of r = (case r of Ok rc \<Rightarrow> rc | _ \<Rightarrow> Plain [])"

lemma sample_opts_params:
  "\<not> rp_insecure (GetSecureReadParams (sample_opts d))" "rp_digest (GetSecureReadParams (sample_opts d)) = d"
  by (simp_all add: sample_opts_def GetSecureReadParams_def)


text \<open>So it is for the provider of an app store, for every kind of blob but the image indexes that
  skopeo keeps beside the blobs, which are not checked.\<close>
theorem appstore_checked:
  assumes "appStore_GetReadCloser X w s c opts = Ok rc" and "read_all L bsz rc [] = Ok (b, None)"
    and "cx_blob c \<notin> {Some BlobTypeImageIndex, Some BlobTypeSkopeoImageIndex}"
    and "\<not> rp_insecure (GetSecureReadParams opts)" and "rp_digest (GetSecureReadParams opts) \<noteq> ''''"
  shows "dg_hash L b = rp_digest (GetSecureReadParams opts) \<and>
    (0 < rp_size (GetSecureReadParams opts) \<longrightarrow> int (length b) = rp_size (GetSecureReadParams opts))"
  by (rule guards_read_to_end [OF appStore_guards [OF assms(1,3,4)] assms(2,5)])

theorem appstore_checked_witness: "dg_hash sample_sys ''I'' = ''I''"
proof -
  let ?get = "appStore_GetReadCloser sample_sys fetched_world sample_store (WithBlobType ctx_background BlobTypeImageManifest)"
  let ?rc = "read_closer_of (?get (sample_opts ''I''))"
  have get: "?get (sample_opts ''I'') = Ok ?rc" by code_simp
  have all: "read_all sample_sys (\<lambda>n. 0) ?rc [] = Ok (''I'', None)" by code_simp
  have "cx_blob (WithBlobType ctx_background BlobTypeImageManifest) \<notin>
      {Some BlobTypeImageIndex, Some BlobTypeSkopeoImageIndex}" by (simp add: WithBlobType_def)
  from appstore_checked [OF get all this sample_opts_params(1)] show ?thesis
    by (simp add: sample_opts_params(2))
qed


section \<open>Fetching\<close>

text \<open>
  The sample store keeps the laws: a blob file is named by its digest, so that the operations of
  one blob leave the others alone.
\<close>

lemma sample_blob_file_inj [simp]: "sample_blob_file d = sample_blob_file d' \<longleftrightarrow> d = d'"
  by (simp add: sample_blob_file_def)

lemma sample_ls [simp]:
  "ls_info (sample_usys tbl) = (\<lambda>w d. rbind (store_get w d) (\<lambda>b. Ok (int (length b))))"
  "ls_copy (sample_usys tbl) = store_copy"
  "ls_open_writer (sample_usys tbl) = (\<lambda>w ref desc. (w, if is_ok (store_get w (d_digest desc))
     then Some (ErrdefsAlreadyExists ref) else None))"
  "ls_delete (sample_usys tbl) = (\<lambda>w d. (w\<lparr>w_fs := gm_del (sample_blob_file d) (w_fs w)\<rparr>, None))"
  by (simp_all add: sample_usys_def sample_sys0_def sys.defs lib.defs usys.defs)

lemma store_get_simps [simp]:
  "store_get (w\<lparr>w_fs := gm_put (sample_blob_file b) (FFile v) (w_fs w)\<rparr>) d =
     (if d = b then Ok v else store_get w d)"
  "store_get (w\<lparr>w_fs := gm_del (sample_blob_file b) (w_fs w)\<rparr>) d =
     (if d = b then Fail (ErrdefsNotFound d) else store_get w d)"
  by (auto simp: store_get_def update_conv AList.delete_conv')




text \<open>The blobs of the sample app as an update lists them, the layer first.\<close>

definition sample_info :: "blob_type \<Rightarrow> digest \<Rightarrow> blob_info" where
  "sample_info ty d =
     \<lparr>bi_desc = (blob_desc '''' d)\<lparr>d_urls := [''h/n@'' @ d]\<rparr>, bi_state = BlobMissing, bi_type = ty,
      bi_store_size = 0, bi_runtime_size = 0, bi_bytes_fetched = 0\<rparr>"

definition sample_blobs :: "(digest, blob_info) gomap" where
  "sample_blobs =
     [(''L'', sample_info BlobTypeImageLayer ''L''), (''A'', sample_info BlobTypeAppManifest ''A''),
      (''I'', (sample_info BlobTypeImageManifest ''I'')\<lparr>bi_state := BlobFetching\<rparr>)]"








text \<open>The order of fetching: every blob that is not in the store yet is fetched exactly once, first the
  metadata whose ingestion had begun, then the other metadata, then the layers that had begun, then the others.\<close>
theorem fetch_order:
  shows "mset (getOrderedBlobsToFetch blobs) = mset (filter (\<lambda>b. bf_state b \<noteq> BlobOk) (map snd blobs)) \<and>
    sorted (map fetch_rank (getOrderedBlobsToFetch blobs))"
  using ordered_mset [of blobs] ordered_sorted [of blobs] by (simp add: mset_filter)

text \<open>C19: Whenever and however often the store is polled beside the fetch, the counters of the progress record say of
  its blobs, modulo 2^64, how many bytes were fetched since the start, how many blobs are complete
  and how many bytes were missing at the start.\<close>
theorem fetch_accounting:
  assumes "fetch_reach X blobs fp" and "distinct (map fst blobs)"
  shows "fp_current fp = i64 (\<Sum>(d, b)\<leftarrow>fp_blobs fp. bf_fetched b - bi_bytes_fetched (bf_info b)) \<and>
    fp_count fp = i64 (\<Sum>(d, b)\<leftarrow>fp_blobs fp. if bf_state b = BlobOk then 1 else 0) \<and>
    fp_total fp = i64 (\<Sum>(d, bi)\<leftarrow>blobs. d_size (bi_desc bi) - bi_bytes_fetched bi)"
proof -
  have "map (\<lambda>(d, b). d_size (bi_desc (bf_info b)) - bi_bytes_fetched (bf_info b)) (fp_blobs fp) =
      map (\<lambda>(d, desc, n). d_size desc - n) (fp_static fp)"
    by (simp add: fp_static_def case_prod_beta)
  also have "\<dots> = map (\<lambda>(d, bi). d_size (bi_desc bi) - bi_bytes_fetched bi) blobs"
    by (simp add: fetch_reach_static [OF assms] case_prod_beta)
  finally show ?thesis using fetch_reach_inv [OF assms] by (simp add: fp_inv_def)
qed

theorem fetch_accounting_witness:
  "fp_total (checkAndUpdateBlobStatus sample_sys (\<lambda>d. (fetched_world, fetched_world)) (start_progress sample_blobs)) = 3"
proof -
  have r: "fetch_reach sample_sys sample_blobs
      (checkAndUpdateBlobStatus sample_sys (\<lambda>d. (fetched_world, fetched_world)) (start_progress sample_blobs))"
    by (intro fetch_reach.intros)
  have "distinct (map fst sample_blobs)" by (simp add: sample_blobs_def)
  from fetch_accounting [OF r this] show ?thesis
    by (simp add: sample_blobs_def sample_info_def blob_desc_def i64_id in_i64_def)
qed

text \<open>When the polls have found every blob in the store, the counters show the fetch as complete: as many bytes
  as were missing, as many blobs as there are.\<close>
theorem fetch_completion:
  assumes "fetch_reach X blobs fp" and "distinct (map fst blobs)" and "info_sizes X blobs"
    and "\<forall>(d, b)\<in>set (fp_blobs fp). bf_state b = BlobOk"
  shows "fp_current fp = fp_total fp \<and> fp_count fp = i64 (int (length blobs))"
  using assms by (rule fetch_complete_helper)

definition one_blob :: "(digest, blob_info) gomap" where
  "one_blob = [(''A'', (sample_info BlobTypeAppManifest ''A'')\<lparr>bi_state := BlobOk\<rparr>)]"

definition const_store :: "daemon usys" where
  "const_store = sample_sys\<lparr>ls_info := \<lambda>w d. if d = ''A'' then Ok 1 else Fail (ErrdefsNotFound d)\<rparr>"

theorem fetch_completion_witness:
  "fp_current (start_progress one_blob) = fp_total (start_progress one_blob) \<and> fp_count (start_progress one_blob) = 1"
proof -
  have r: "fetch_reach const_store one_blob (start_progress one_blob)" by (rule fetch_reach.start)
  have d: "distinct (map fst one_blob)" by (simp add: one_blob_def)
  have i: "info_sizes const_store one_blob"
    by (simp add: info_sizes_def one_blob_def const_store_def sample_info_def blob_desc_def)
  have "\<forall>(d, b)\<in>set (fp_blobs (start_progress one_blob)). bf_state b = BlobOk"
    by (simp add: start_progress_inv(2) [OF d]) (simp add: one_blob_def)
  from fetch_completion [OF r d i this] show ?thesis
    by (simp add: one_blob_def i64_id in_i64_def)
qed

text \<open>C?: The window of samples from which the current speed of a fetch is computed is an end of the samples that
  arrived, has at most \<open>maxSamples\<close> of them, and when they came in order none that ended more than
  \<open>windowSize\<close> before the calculation.\<close>
theorem monitor_window:
  assumes "sorted (map rs_end win)"
  shows "suffix (trim_window now win) win \<and> length (trim_window now win) \<le> maxSamples \<and>
    (\<forall>s\<in>set (trim_window now win). now - windowSize < rs_end s)"
  using trim_window_suffix trim_window_length trim_window_recent [OF assms] by blast

theorem monitor_window_witness:
  "trim_window (10 ^ 10) [\<lparr>rs_bytes = 1, rs_start = 0, rs_end = 1\<rparr>] = []"
proof -
  let ?w = "[\<lparr>rs_bytes = 1, rs_start = 0, rs_end = (1::int)\<rparr>]"
  from monitor_window [of ?w "10 ^ 10"]
  have "suffix (trim_window (10 ^ 10) ?w) ?w" "\<forall>s\<in>set (trim_window (10 ^ 10) ?w). 10 ^ 10 - windowSize < rs_end s"
    by simp_all
  then show ?thesis by (auto simp: suffix_def Cons_eq_append_conv windowSize_def)
qed

end
