(* ===== verification/AppProps.thy ===== *)
theory AppProps
  imports Samples
begin

text \<open>
  The properties of apps and of the store of apps: the shape of the tree of an app, the checks of its
  installed files, adding, removing and listing apps, and pruning blobs.
\<close>

section \<open>The tree of an app\<close>

text \<open>C21: The tree of a loaded app is well formed: a manifest over at most one metadata and one index blob and the
  bundle, whose children are the images, each an image manifest with a configuration and distinct
  layers or an index of such manifests; and every node has a reference.\<close>
theorem app_tree_shape:
  assumes "LoadAppTree L c pv pm ref = Ok a"
  shows "app_tree_ok (a_tree a) \<and> (\<forall>(n, k)\<in>set (nodes 0 (a_tree a)). t_HasRef n)"
  using LoadAppTree_shape [OF assms] all_have_ref_nodes by blast

lemma sample_app_loads:
  "LoadAppTree sample_sys ctx_background (sample_pv fetched_world) ((=) sample_platform) ''h/n@A'' = Ok sample_app"
  by code_simp

theorem app_tree_shape_witness: "app_tree_ok (a_tree sample_app)"
  using app_tree_shape [OF sample_app_loads] by simp

text \<open>C?: Counting the nodes of a loaded app never panics and gives their number: the walk is bounded by
  \<open>MaxMerkleTreeDepth\<close>, and no app tree is deep enough to reach the bound.\<close>
theorem node_count_total:
  assumes "LoadAppTree L c pv pm ref = Ok a"
  shows "NodeCount (a_tree a) = Ok (int (tree_size (a_tree a)))"
proof -
  from LoadAppTree_shape [OF assms] have "height (a_tree a) \<le> 4" by (auto intro: app_tree_height)
  then show ?thesis by (simp add: NodeCount_eq MaxMerkleTreeDepth_def)
qed

theorem node_count_total_witness: "NodeCount (a_tree sample_app) = Ok 5"
  using node_count_total [OF sample_app_loads] sample_app_tree by simp

text \<open>A service without the label of its configuration hash cannot be loaded: the image of the service is loaded
  first, and then the annotation goes to a nil map, which panics.  With the label it is loaded with both annotations.\<close>
theorem service_needs_hash:
  assumes "LoadImageTree L (WithAppRef c r) pv pm (sc_image s) = Ok t"
  shows "load_service_image L c pv pm r s =
    (case sc_labels s of
       None \<Rightarrow> Panic ''assignment to entry in nil map''
     | Some labels \<Rightarrow>
         (case map_of labels AppServiceHashLabelKey of
            None \<Rightarrow> Panic ''assignment to entry in nil map''
          | Some h \<Rightarrow> Ok (Node ((t_desc t)\<lparr>d_annot := Some [(AppServiceHashLabelKey, h),
                      (AnnotationKeyAppServiceName, sc_name s)]\<rparr>) (t_type t) (t_children t))))"
  using annotate_image_fresh [of t s] LoadImageTree_shape [OF assms]
  by (simp add: load_service_image_def assms)

definition bare_service :: service_config where
  "bare_service = \<lparr>sc_name = ''svc'', sc_image = ''h/i@I'', sc_labels = Some []\<rparr>"

definition sample_image :: tree where
  "sample_image = (case LoadImageTree sample_sys (WithAppRef ctx_background (a_ref sample_app)) (sample_pv fetched_world)
     ((=) sample_platform) ''h/i@I'' of Ok t \<Rightarrow> t)"

theorem service_needs_hash_witness:
  "load_service_image sample_sys ctx_background (sample_pv fetched_world) ((=) sample_platform) (a_ref sample_app)
     bare_service = Panic ''assignment to entry in nil map''"
proof -
  have "LoadImageTree sample_sys (WithAppRef ctx_background (a_ref sample_app)) (sample_pv fetched_world)
      ((=) sample_platform) (sc_image bare_service) = Ok sample_image" by code_simp
  from service_needs_hash [OF this] show ?thesis by (simp add: bare_service_def)
qed

section \<open>Sizes\<close>

text \<open>C?: For a positive block size, rounding a size that is not negative gives the least multiple of the block size
  that is not less, as long as the next block does not overflow an \<open>int64\<close>.\<close>
theorem align_least_multiple:
  assumes "0 < b" and "0 \<le> v" and "v + b \<le> 2 ^ 63 - 1"
  shows "\<exists>n. AlignToBlockSize v b = Ok n \<and> v \<le> n \<and> b dvd n \<and> (\<forall>m. b dvd m \<longrightarrow> v \<le> m \<longrightarrow> n \<le> m)"
proof (cases "v mod b = 0")
  case True
  then show ?thesis using AlignToBlockSize_pos [OF assms] by (auto simp: mod_eq_0_iff_dvd)
next
  case False
  have "v \<le> v + (b - v mod b)" using assms(1) by (simp add: less_imp_le)
  with next_multiple [OF assms(1) False] AlignToBlockSize_pos [OF assms] False show ?thesis by auto
qed

theorem align_least_multiple_witness: "AlignToBlockSize 4097 4096 = Ok 8192"
proof -
  from align_least_multiple [of 4096 4097] obtain n where n: "AlignToBlockSize 4097 4096 = Ok n" "4097 \<le> n"
    "\<forall>m. 4096 dvd m \<longrightarrow> 4097 \<le> m \<longrightarrow> n \<le> m" "4096 dvd n" by auto
  have "4096 dvd (8192::int)" by simp
  with n(3) have "n \<le> 8192" by simp
  moreover from n(4) obtain k where "n = 4096 * k" by (elim dvdE)
  ultimately have "k = 2" using n(2) by linarith
  with \<open>n = 4096 * k\<close> n(1) show ?thesis by simp
qed

section \<open>The installed files of an app\<close>

text \<open>The check of an installed file against the index of the bundle passes exactly when the file can be read,
  has the digest of the index and is smaller than the largest size of a bundle file.\<close>
theorem index_check_iff:
  shows "check_index_file L fs root (f, d) = Ok None \<longleftrightarrow>
     (\<exists>b. file_at L fs (path_join root [f]) b \<and> dg_hash L b = d \<and> int (length b) < AppBundleFileMaxSize)"
  by (rule check_index_file_ok_iff)


section \<open>The store of apps\<close>

text \<open>C22: Writing a file of the store replaces its content or leaves it alone: after an error the file is what it was
  (at worst a temporary file is left), and no other file is touched.\<close>
theorem write_atomic:
  assumes "writeAndSync L p data fs = (fs', r)"
  shows "(r = Ok () \<and> map_of fs' p = Some (FFile data) \<and> map_of fs' (tmp_of p) = None \<or>
      (\<exists>e. r = Fail e) \<and> map_of fs' p = map_of fs p) \<and>
    (\<forall>q. q \<noteq> p \<longrightarrow> q \<noteq> tmp_of p \<longrightarrow> map_of fs' q = map_of fs q)"
  using assms by (rule writeAndSync_result)

definition rename_fails :: "daemon usys" where
  "rename_fails = sample_sys\<lparr>io_fault := \<lambda>op p. if op = ''rename'' then Some (PathError ''disk full'') else None\<rparr>"

theorem write_atomic_witness:
  "map_of (fst (writeAndSync rename_fails [''f''] ''new'' [([], FDir), ([''f''], FFile ''old'')])) [''f''] = Some (FFile ''old'')"
proof -
  obtain fs' r where w: "writeAndSync rename_fails [''f''] ''new'' [([], FDir), ([''f''], FFile ''old'')] = (fs', r)"
    by (metis surj_pair)
  have "\<not> is_ok (snd (writeAndSync rename_fails [''f''] ''new'' [([], FDir), ([''f''], FFile ''old'')]))"
    by code_simp
  with w have "r \<noteq> Ok ()" by auto
  with write_atomic [OF w] w show ?thesis by simp
qed

lemma fs_wfI:
  assumes "distinct (map fst fs)"
    and "list_all (\<lambda>(p, n). n = FDir \<or> list_all (\<lambda>(q, m). \<not> strict_prefix p q) fs) fs"
  shows "fs_wf fs"
proof -
  have "map_of fs q = None" if p: "map_of fs p = Some (FFile b)" "strict_prefix p q" for p q b
  proof (rule ccontr)
    assume "map_of fs q \<noteq> None"
    then obtain m where "(q, m) \<in> set fs" by (auto dest: map_of_SomeD)
    with assms(2) p show False by (fastforce simp: list_all_iff dest: map_of_SomeD)
  qed
  with assms(1) show ?thesis by (auto simp: fs_wf_def)
qed

lemma fetched_world_wf: "fs_wf (w_fs fetched_world)"
  by (rule fs_wfI) code_simp+


lemma fetched_world_root: "map_of (w_fs fetched_world) (as_blobs_root sample_store) = Some FDir"
  by code_simp

lemma no_fault: "io_fault sample_sys op p = None"
  by (simp add: sample_sys_def sample_usys_def sample_sys0_def sample_lib0_def sys.defs lib.defs usys.defs)

text \<open>C?: An app that was added is listed: after a successful \<open>AddApps\<close> a listing returns the reference of every URI that
  was added, provided the URI can be parsed back, no other URI of the call shares its directory, and the
  directory of the apps can be read.\<close>
theorem added_is_listed:
  assumes "AddApps L s uris fs = (fs', Ok ())" and "ListApps L s fs' = Ok rs"
    and "u \<in> set uris" and "ParseAppRef L u = Ok r" and "app_dir L s r = Ok d"
    and "ParseAppRef L (AppRef_String L r) = Ok r"
    and "\<forall>u'\<in>set uris. \<forall>r'. ParseAppRef L u' = Ok r' \<longrightarrow> app_dir L s r' = app_dir L s r \<longrightarrow>
           AppRef_String L r' = AppRef_String L r"
    and "\<forall>u'\<in>set uris. \<forall>r' d'. ParseAppRef L u' = Ok r' \<longrightarrow> app_dir L s r' = Ok d' \<longrightarrow>
           prefix (as_apps_root s) d'"
    and "\<forall>q. io_fault L ''walk'' q = None"
  shows "r \<in> set rs"
  using added_is_listed_helper [OF assms(1-6)] assms(7-9) by blast

definition sample_app_ref :: app_ref where
  "sample_app_ref = (case ParseAppRef sample_sys ''h/n@A'' of Ok r \<Rightarrow> r)"

definition added_fs :: fs where
  "added_fs = fst (AddApps sample_sys sample_store [''h/n@A''] (w_fs empty_world))"

definition added_apps :: "app_ref list" where
  "added_apps = (case ListApps sample_sys sample_store added_fs of Ok rs \<Rightarrow> rs)"

theorem added_is_listed_witness: "sample_app_ref \<in> set added_apps"
proof -
  let ?d = "[''s'', ''apps'', ''n'', ''A-0123456789ab'']"
  have add: "AddApps sample_sys sample_store [''h/n@A''] (w_fs empty_world) = (added_fs, Ok ())" by code_simp
  have l: "ListApps sample_sys sample_store added_fs = Ok added_apps" by code_simp
  have p: "ParseAppRef sample_sys ''h/n@A'' = Ok sample_app_ref" by code_simp
  have d: "app_dir sample_sys sample_store sample_app_ref = Ok ?d" by code_simp
  have s: "ParseAppRef sample_sys (AppRef_String sample_sys sample_app_ref) = Ok sample_app_ref" by code_simp
  have m: "''h/n@A'' \<in> set [''h/n@A'']" by simp
  have uniq: "\<forall>u'\<in>set [''h/n@A'']. \<forall>r'. ParseAppRef sample_sys u' = Ok r' \<longrightarrow>
      app_dir sample_sys sample_store r' = app_dir sample_sys sample_store sample_app_ref \<longrightarrow>
      AppRef_String sample_sys r' = AppRef_String sample_sys sample_app_ref" using p by simp
  have root: "\<forall>u'\<in>set [''h/n@A'']. \<forall>r' d'. ParseAppRef sample_sys u' = Ok r' \<longrightarrow>
      app_dir sample_sys sample_store r' = Ok d' \<longrightarrow> prefix (as_apps_root sample_store) d'"
    using p d by (simp add: sample_store_def)
  from added_is_listed [OF add l m p d s uniq root] no_fault show ?thesis by blast
qed

section \<open>Pruning\<close>

text \<open>C4: Pruning removes exactly the files of the blob directory whose names are not digests of nodes of the apps in
  the store, and nothing else, when the listed apps can be loaded and the directory can be walked.\<close>
theorem prune_exact:
  assumes "Prune X s w = (w', Ok ps)" and "fs_wf (w_fs w)"
    and "map_of (w_fs w) (as_blobs_root s) = Some FDir" and "\<forall>q. io_fault X ''walk'' q = None"
  shows "\<exists>apps. ListApps X s (w_fs w) = Ok apps \<and>
    (\<forall>r\<in>set apps. \<exists>a. store_tree X w s r = Ok a) \<and>
    (\<forall>p. map_of (w_fs w') p =
       (if prefix (as_blobs_root s) p \<and> (\<exists>b. map_of (w_fs w) p = Some (FFile b)) \<and>
           path_base p \<notin> referenced X w s apps
        then None else map_of (w_fs w) p))"
  using Prune_effect [OF assms(1-3)] assms(4) by blast

definition pruned_world :: "daemon world" where
  "pruned_world = fst (Prune sample_sys sample_store fetched_world)"

definition pruned_paths :: "path list" where
  "pruned_paths = (case snd (Prune sample_sys sample_store fetched_world) of Ok ps \<Rightarrow> ps)"

lemma sample_prune: "Prune sample_sys sample_store fetched_world = (pruned_world, Ok pruned_paths)"
proof -
  have "snd (Prune sample_sys sample_store fetched_world) = Ok pruned_paths" by code_simp
  then show ?thesis by (simp add: pruned_world_def prod_eq_iff)
qed

theorem prune_exact_witness:
  "\<exists>apps. ListApps sample_sys sample_store (w_fs fetched_world) = Ok apps \<and>
     (''Z-0123456789ab'' \<in> referenced sample_sys fetched_world sample_store apps \<or>
      map_of (w_fs pruned_world) (sample_blob_file ''Z'') = None)"
proof -
  from prune_exact [OF sample_prune fetched_world_wf fetched_world_root] no_fault
  obtain apps where a: "ListApps sample_sys sample_store (w_fs fetched_world) = Ok apps"
    "\<forall>p. map_of (w_fs pruned_world) p =
       (if prefix (as_blobs_root sample_store) p \<and> (\<exists>b. map_of (w_fs fetched_world) p = Some (FFile b)) \<and>
           path_base p \<notin> referenced sample_sys fetched_world sample_store apps
        then None else map_of (w_fs fetched_world) p)" by blast
  have "map_of (w_fs fetched_world) (sample_blob_file ''Z'') = Some (FFile ''Z'')" by code_simp
  with a show ?thesis
    by (auto simp: sample_blob_file_def sample_store_def path_base_def)
qed

text \<open>Pruning never removes a blob that an app of the store needs: the file of every node of every app that the
  store lists is as it was.\<close>
theorem prune_keeps_referenced:
  assumes "Prune X s w = (w', Ok ps)" and "fs_wf (w_fs w)"
    and "map_of (w_fs w) (as_blobs_root s) = Some FDir"
    and "ListApps X s (w_fs w) = Ok apps" and "r \<in> set apps"
    and "store_tree X w s r = Ok a" and "(n, k) \<in> set (nodes 0 (a_tree a))"
  shows "\<exists>enc. dg_encoded X (d_digest (t_desc n)) = Ok enc \<and>
    map_of (w_fs w') (as_blobs_root s @ [enc]) = map_of (w_fs w) (as_blobs_root s @ [enc])"
  using assms by (rule Prune_keeps_helper)

definition listed_apps :: "app_ref list" where
  "listed_apps = (case ListApps sample_sys sample_store (w_fs fetched_world) of Ok rs \<Rightarrow> rs)"

definition listed_app :: app_ctx where
  "listed_app = (case store_tree sample_sys fetched_world sample_store (hd listed_apps) of Ok a \<Rightarrow> a)"

theorem prune_keeps_referenced_witness:
  "\<exists>enc. dg_encoded sample_sys (d_digest (t_desc (a_tree listed_app))) = Ok enc \<and>
     map_of (w_fs pruned_world) (as_blobs_root sample_store @ [enc]) =
     map_of (w_fs fetched_world) (as_blobs_root sample_store @ [enc])"
proof -
  have l: "ListApps sample_sys sample_store (w_fs fetched_world) = Ok listed_apps" by code_simp
  have h: "hd listed_apps \<in> set listed_apps" by code_simp
  have a: "store_tree sample_sys fetched_world sample_store (hd listed_apps) = Ok listed_app" by code_simp
  have "(a_tree listed_app, 0) \<in> set (nodes 0 (a_tree listed_app))" by (cases "a_tree listed_app") simp
  from prune_keeps_referenced [OF sample_prune fetched_world_wf fetched_world_root l h a this] show ?thesis .
qed


section \<open>Removing an app\<close>

text \<open>C23: Removing a version of an app from the store removes its directory, and leaves everything outside the
  directory of the app alone; while the app has another version, everything outside the directory of
  the removed version stays.\<close>
theorem remove_app_effect:
  assumes "app_dir L s a = Ok d" and "remove_app L s a fs = (fs', Ok ())"
    and "prefix (path_join (as_apps_root s) [ar_name a]) d" and "fs_wf fs"
    and "\<forall>op p. io_fault L op p = None" and "\<forall>p q. prefix p q \<longrightarrow> gm_has fs q \<longrightarrow> gm_has fs p"
  shows "(\<forall>q. prefix d q \<longrightarrow> map_of fs' q = None) \<and>
    (\<forall>q. \<not> prefix (path_join (as_apps_root s) [ar_name a]) q \<longrightarrow> map_of fs' q = map_of fs q) \<and>
    ((\<exists>p. gm_has fs p \<and> strict_prefix (path_join (as_apps_root s) [ar_name a]) p \<and> \<not> prefix d p) \<longrightarrow>
      (\<forall>q. \<not> prefix d q \<longrightarrow> map_of fs' q = map_of fs q))"
proof (intro conjI allI impI)
  fix q
  show "prefix d q \<Longrightarrow> map_of fs' q = None"
    using remove_app_gone [OF assms(1,2) _ assms(4), of q] assms(5,6) by (meson prefix_order.trans)
  show "\<not> prefix (path_join (as_apps_root s) [ar_name a]) q \<Longrightarrow> map_of fs' q = map_of fs q"
    using remove_app_frame [OF assms(1) _ assms(3), of q fs] assms(2) by simp
  assume "\<exists>p. gm_has fs p \<and> strict_prefix (path_join (as_apps_root s) [ar_name a]) p \<and> \<not> prefix d p"
    and q: "\<not> prefix d q"
  then obtain p where p: "gm_has fs p" "strict_prefix (path_join (as_apps_root s) [ar_name a]) p" "\<not> prefix d p"
    by blast
  then have "gm_has fs (path_join (as_apps_root s) [ar_name a])" using assms(6) by (auto simp: strict_prefix_def)
  with remove_app_others [OF assms(1,2) _ _ p q] assms(5) show "map_of fs' q = map_of fs q" by blast
qed

definition removed_fs :: fs where
  "removed_fs = fst (remove_app sample_sys sample_store sample_app_ref (w_fs fetched_world))"

lemma gm_has_closed:
  assumes "list_all (\<lambda>(q, _). list_all (gm_has fs) (prefixes q)) fs"
  shows "\<forall>p q. prefix p q \<longrightarrow> gm_has fs q \<longrightarrow> gm_has fs p"
  using assms by (fastforce simp: list_all_iff gm_has_def dest: map_of_SomeD)

theorem remove_app_effect_witness:
  "map_of removed_fs [''s'', ''apps'', ''n'', ''A-0123456789ab'', ''uri''] = None \<and>
   map_of removed_fs (sample_blob_file ''Z'') = Some (FFile ''Z'')"
proof -
  let ?d = "[''s'', ''apps'', ''n'', ''A-0123456789ab'']"
  have d: "app_dir sample_sys sample_store sample_app_ref = Ok ?d" by code_simp
  have r: "remove_app sample_sys sample_store sample_app_ref (w_fs fetched_world) = (removed_fs, Ok ())" by code_simp
  have n: "path_join (as_apps_root sample_store) [ar_name sample_app_ref] = [''s'', ''apps'', ''n'']" by code_simp
  have closed: "\<forall>p q. prefix p q \<longrightarrow> gm_has (w_fs fetched_world) q \<longrightarrow> gm_has (w_fs fetched_world) p"
    by (rule gm_has_closed) code_simp
  have z: "map_of (w_fs fetched_world) (sample_blob_file ''Z'') = Some (FFile ''Z'')" by code_simp
  have "\<forall>op p. io_fault sample_sys op p = None" by (simp add: no_fault)
  from remove_app_effect [OF d r _ fetched_world_wf this closed] n z show ?thesis
    by (auto simp: sample_blob_file_def)
qed

end
