(* ===== verification/LifeProps.thy ===== *)
theory LifeProps
  imports Samples
begin

text \<open>
  The properties of the life of an app on a device: its status, installing, starting, uninstalling and
  removing it, and the progress that is reported on the way.
\<close>

section \<open>Status\<close>





text \<open>The app of the running world is installed and running.\<close>

lemma running_status:
  "succeeds_with (\<lambda>st. AreInstalled st = Ok True \<and> AreRunning st = Ok True)
     (CheckAppsStatus sample_sys running_world sample_config [''h/n@A''] [])"
  by code_simp

text \<open>C14: The status says that the apps are installed exactly when, for each of them, the files of its bundle are in its
  compose directory as they should be and the image of each of its services is known to the Docker daemon.\<close>
theorem installed_iff:
  assumes "CheckAppsStatus X w cfg appRefs [] = Ok st"
  shows "\<exists>s inst. AppStoreFactory X cfg = Ok s \<and> GetInstalledImages X w cfg = Ok inst \<and>
    (AreInstalled st = Ok True \<longleftrightarrow>
     (\<forall>app\<in>set (st_apps st). app_installed X w cfg (appStore_provider X w s) inst app))"
proof -
  from CheckAppsStatus_OkD [OF assms] obtain s i where s: "AppStoreFactory X cfg = Ok s"
    "st_install st = Some i" "CheckAppsInstallStatus X w cfg (appStore_provider X w s) (st_apps st) = Ok i"
    by (metis (no_types, lifting) fold_simps(1) id_apply check_opts.select_convs(1))
  from s(3) obtain inst where i: "GetInstalledImages X w cfg = Ok inst"
    "install_status_apps X w cfg (appStore_provider X w s) inst (st_apps st)
       \<lparr>ist_apps = [], ist_images = [], ist_compose = []\<rparr> = Ok i"
    by (auto simp: CheckAppsInstallStatus_def rbind_Ok_iff)
  from install_apps_run [OF i(2)] s(1,2) i(1) show ?thesis by (auto simp: AreInstalled_def)
qed

theorem installed_iff_witness:
  "\<exists>st s inst. CheckAppsStatus sample_sys running_world sample_config [''h/n@A''] [] = Ok st \<and>
     (\<forall>app\<in>set (st_apps st). app_installed sample_sys running_world sample_config
        (appStore_provider sample_sys running_world s) inst app)"
proof -
  from running_status obtain st where st: "CheckAppsStatus sample_sys running_world sample_config [''h/n@A''] [] = Ok st"
    "AreInstalled st = Ok True" by (rule succeeds_withE) blast
  with installed_iff [OF st(1)] show ?thesis by blast
qed



section \<open>Uninstalling and removing\<close>

text \<open>Apps that are running are not uninstalled: the call fails with its own error and changes nothing.\<close>
theorem uninstall_refuses_running:
  assumes "appRefs \<noteq> []" and "CheckAppsStatus X w cfg appRefs [] = Ok st" and "AreRunning st = Ok True"
  shows "UninstallApps X cfg appRefs prune w = (w, Fail ErrUninstallRunningApps)"
  using uninstall_running_guard(1) [OF assms] .

theorem uninstall_refuses_running_witness:
  "UninstallApps sample_sys sample_config [''h/n@A''] None running_world =
     (running_world, Fail ErrUninstallRunningApps)"
proof -
  from running_status obtain st where st: "CheckAppsStatus sample_sys running_world sample_config [''h/n@A''] [] = Ok st"
    "AreRunning st = Ok True" by (rule succeeds_withE) blast
  from uninstall_refuses_running [OF _ st] show ?thesis by simp
qed







text \<open>The images that pruning may remove are exactly those that no container of the daemon was made from.\<close>
theorem images_in_use_kept:
  shows "gm_has (images_not_in_use images ctrs) i \<longleftrightarrow>
     i \<in> im_id ` set images \<and> i \<notin> ct_image_id ` set ctrs"
  by (rule images_not_in_use_iff)

text \<open>Apps are removed from the store with a check of their status only if they are fetched completely, are not
  installed and do not run.\<close>
theorem remove_guard:
  assumes "RemoveApps X cfg appRefs prune True w = (w', Ok ())" and "appRefs \<noteq> []"
  shows "\<exists>st. CheckAppsStatus X w cfg appRefs [] = Ok st \<and> AreRunning st = Ok False \<and>
    AreInstalled st = Ok False \<and> AreFetched st"
  using assms by (rule RemoveApps_guard)

lemma sample_removes:
  "succeeds_with (\<lambda>u. True) (snd (RemoveApps sample_sys sample_config [''h/n@A''] False True fetched_world))"
  by code_simp

theorem remove_guard_witness:
  "\<exists>st. CheckAppsStatus sample_sys fetched_world sample_config [''h/n@A''] [] = Ok st \<and> AreFetched st"
proof -
  obtain w' r where u: "RemoveApps sample_sys sample_config [''h/n@A''] False True fetched_world = (w', r)"
    by (metis surj_pair)
  with sample_removes have r: "r = Ok ()" by (auto elim: succeeds_withE)
  from remove_guard [OF u [unfolded r]] show ?thesis by auto
qed

section \<open>Installing and starting\<close>

text \<open>C25: When an install succeeds, the app could be loaded from the store, and the files of its bundle are in its compose
  directory as the check of the installation wants them.\<close>
theorem install_ok:
  assumes "Install X cfg uri reporting w = (w', evs, Ok ())"
  shows "\<exists>cs app. AppStoreFactory X cfg = Ok cs \<and>
    LoadAppTree X ctx_background (appStore_provider X w cs) (platform_match X (cf_platform cfg)) uri = Ok app \<and>
    CheckComposeInstallation X ctx_background (appStore_provider X w' cs) (w_fs w') app
      (GetAppComposeDir cfg (a_Name app)) = Ok []"
  using assms by (rule Install_ok_helper)

lemma sample_installs:
  "succeeds_with (\<lambda>u. True) (snd (snd (Install sample_sys sample_config ''h/n@A'' True fetched_world)))"
  by code_simp

theorem install_ok_witness:
  "\<exists>w' cs app. CheckComposeInstallation sample_sys ctx_background (appStore_provider sample_sys w' cs) (w_fs w') app
     (GetAppComposeDir sample_config (a_Name app)) = Ok []"
proof -
  obtain w' evs r where u: "Install sample_sys sample_config ''h/n@A'' True fetched_world = (w', evs, r)"
    by (metis surj_pair)
  with sample_installs have r: "r = Ok ()" by (auto elim: succeeds_withE)
  from install_ok [OF u [unfolded r]] show ?thesis by blast
qed

text \<open>Starting apps announces each of them as starting and then as started or failed, in the order in which they are
  started; the first that fails ends the loop, and it is the only one announced as failed.\<close>
theorem start_events:
  assumes "start_loop X cfg apps w = (w', evs, r)"
  shows "\<exists>n\<le>length apps.
    let started = concat (map (\<lambda>a. [(a_ref a, AppStartStatusStarting), (a_ref a, AppStartStatusStarted)]) (take n apps))
    in (r = Ok () \<and> n = length apps \<and> evs = started) \<or>
       (\<exists>e. r = Fail e \<and> n < length apps \<and>
          evs = started @ [(a_ref (apps ! n), AppStartStatusStarting), (a_ref (apps ! n), AppStartStatusFailed)])"
  using assms by (rule start_loop_events)

theorem start_events_witness:
  "fst (snd (start_loop sample_sys sample_config [sample_app] fetched_world)) =
     [(a_ref sample_app, AppStartStatusStarting), (a_ref sample_app, AppStartStatusStarted)]"
proof -
  obtain w' evs r where u: "start_loop sample_sys sample_config [sample_app] fetched_world = (w', evs, r)"
    by (metis surj_pair)
  have "succeeds_with (\<lambda>u. True) (snd (snd (start_loop sample_sys sample_config [sample_app] fetched_world)))"
    by code_simp
  with u have "r = Ok ()" by (auto elim: succeeds_withE)
  with start_events [OF u] u show ?thesis by (auto simp: Let_def)
qed

section \<open>Progress\<close>

text \<open>The events of a load by the Docker daemon announce the images as loaded or existing one by one, in the order in
  which they were given to it, each at most once, whatever messages the daemon sends.\<close>
theorem docker_images_in_order:
  assumes "reportProgressIfDocker jms err uris m reporter = (evs, r)"
  shows "prefix (map lp_image (filter terminal evs)) (map fst uris)"
  using assms by (rule docker_order_helper)

definition docker_messages :: "json_message list" where
  "docker_messages =
     [\<lparr>jm_stream = '''', jm_error = None, jm_id = ''D-0123456789'', jm_progress = Some (1, 2)\<rparr>,
      \<lparr>jm_stream = '''', jm_error = None, jm_id = ''D-0123456789'', jm_progress = Some (2, 2)\<rparr>,
      \<lparr>jm_stream = '''', jm_error = None, jm_id = '''', jm_progress = None\<rparr>]"

theorem docker_images_in_order_witness:
  "\<exists>evs r. reportProgressIfDocker docker_messages None [(''i'', 0)] [(''D-0123456789'', ''L'')] True = (evs, r) \<and>
     prefix (map lp_image (filter terminal evs)) [''i'']"
proof -
  obtain evs r where u: "reportProgressIfDocker docker_messages None [(''i'', 0)] [(''D-0123456789'', ''L'')] True = (evs, r)"
    by (metis surj_pair)
  from docker_images_in_order [OF u] u show ?thesis by simp
qed







end
