(* ===== verification/RunnerMachine.thy ===== *)
theory RunnerMachine
  imports Runner
begin

text \<open>
  The runner as a state machine.  \<open>update_step\<close> is the machine the states of an update are meant
  to follow; every call of the runner, whatever its result, moves the update along it.
\<close>

section \<open>Writes\<close>

lemma set_u_simps [simp]: "fst (set_u f s) = f (fst s)" "snd (set_u f s) = snd s"
  by (simp_all add: set_u_def)

lemma session_write_parts:
  assumes "session_write X dbf s = (s', r)"
  shows "fst s' = (fst s)\<lparr>u_UpdateTime := w_clock (snd s)\<rparr>"
    and "snd s' = (snd s)\<lparr>w_db := w_db (snd s')\<rparr>"
proof -
  have "session_write X dbf (fst s, snd s) = ((fst s', snd s'), r)" using assms by simp
  then show "fst s' = (fst s)\<lparr>u_UpdateTime := w_clock (snd s)\<rparr>" "snd s' = (snd s)\<lparr>w_db := w_db (snd s')\<rparr>"
    by (rule session_write_db(1), rule session_write_db(2))
qed

lemma session_write_State [simp]: "u_State (fst (fst (session_write X dbf s))) = u_State (fst s)"
  using session_write_parts(1) [of X dbf s "fst (session_write X dbf s)" "snd (session_write X dbf s)"] by simp

lemma final_write_parts:
  assumes "final_write X dbf s = (s', r)"
  shows "fst s' = (fst s)\<lparr>u_UpdateTime := w_clock (snd s)\<rparr>"
    and "snd s' = (snd s)\<lparr>w_db := w_db (snd s')\<rparr>"
    and "r = Ok () \<or> (\<exists>m. r = Panic m)"
proof -
  obtain s1 r1 where w: "session_write X dbf s = (s1, r1)" by (metis surj_pair)
  with assms have "s' = s1" "r = Ok () \<or> (\<exists>m. r = Panic m)"
    by (auto simp: final_write_def split: res.splits)
  with session_write_parts [OF w] show "fst s' = (fst s)\<lparr>u_UpdateTime := w_clock (snd s)\<rparr>"
    "snd s' = (snd s)\<lparr>w_db := w_db (snd s')\<rparr>" "r = Ok () \<or> (\<exists>m. r = Panic m)" by auto
qed

lemma final_write_State [simp]:
  "u_State (fst (fst (final_write X dbf s))) = u_State (fst s)"
  "u_Progress (fst (fst (final_write X dbf s))) = u_Progress (fst s)"
  using final_write_parts(1) [of X dbf s "fst (final_write X dbf s)" "snd (final_write X dbf s)"] by simp_all

lemma with_deferred_state:
  "fst (with_deferred body deferred) = fst (deferred (deferred_err (snd body)) (fst body))"
  by (auto simp: with_deferred_def split: res.splits prod.splits)

lemma with_deferred_Ok:
  "snd (with_deferred body deferred) = Ok u \<Longrightarrow> snd body = Ok u"
  by (auto simp: with_deferred_def split: res.splits prod.splits)

lemma with_deferred_Fail:
  "snd (with_deferred body deferred) = Fail e \<Longrightarrow> snd body = Fail e"
  by (auto simp: with_deferred_def split: res.splits prod.splits)

section \<open>Entering a state\<close>

lemma enter_refuses:
  assumes "db_open_err X (snd s) dbf False = None" and "u_State (fst s) \<notin> set from_states"
  shows "enter X dbf op from_states st s = (s, Fail (state_error op (u_State (fst s))))"
  using assms by (simp add: enter_def lock_def)

lemma enter_cases:
  assumes "enter X dbf op from_states st s = (s1, r)"
  obtains "s1 = s" "\<exists>e. r = Fail e"
  | "u_State (fst s) \<in> set from_states" "session_write X dbf (set_u (\<lambda>u. u\<lparr>u_State := st, u_Progress := 0\<rparr>) s) = (s1, r)"
  using assms by (auto simp: enter_def lock_def split: option.splits if_splits)

lemma enter_State:
  assumes "enter X dbf op from_states st s = (s1, r)"
  shows "s1 = s \<and> (\<exists>e. r = Fail e) \<or>
    u_State (fst s) \<in> set from_states \<and> u_State (fst s1) = st \<and> u_Progress (fst s1) = 0 \<and>
      u_URIs (fst s1) = u_URIs (fst s) \<and> u_Blobs (fst s1) = u_Blobs (fst s) \<and>
      snd s1 = (snd s)\<lparr>w_db := w_db (snd s1)\<rparr>"
  using assms
proof (cases rule: enter_cases)
  case 2
  from session_write_parts [OF 2(2)] 2(1) show ?thesis by simp
qed simp

text \<open>A call of the shape: enter, then a body under the deferred block.\<close>

lemma entered_cases:
  assumes "sbind (enter X dbf op from_states st s) (\<lambda>_. f) = (s', r)"
  shows "s' = s \<and> (\<exists>e. r = Fail e) \<or>
    u_State (fst s) \<in> set from_states \<and>
      (u_State (fst s') = st \<and> r \<noteq> Ok () \<or>
       (\<exists>s1. u_State (fst s1) = st \<and> u_Progress (fst s1) = 0 \<and> u_URIs (fst s1) = u_URIs (fst s) \<and>
          snd s1 = (snd s)\<lparr>w_db := w_db (snd s1)\<rparr> \<and>
          enter X dbf op from_states st s = (s1, Ok ()) \<and> f s1 = (s', r)))"
proof -
  obtain s1 r1 where e: "enter X dbf op from_states st s = (s1, r1)" by (metis surj_pair)
  show ?thesis
  proof (cases r1)
    case (Ok u)
    with e assms have f: "f s1 = (s', r)" by simp
    from e Ok have e': "enter X dbf op from_states st s = (s1, Ok ())" by simp
    from enter_State [OF e] Ok have "u_State (fst s) \<in> set from_states" "u_State (fst s1) = st"
      "u_Progress (fst s1) = 0" "u_URIs (fst s1) = u_URIs (fst s)" "snd s1 = (snd s)\<lparr>w_db := w_db (snd s1)\<rparr>"
      by simp_all
    with f e' show ?thesis by (intro disjI2 conjI exI [of _ s1]) simp_all
  next
    case (Fail err)
    with e assms have "s' = s1" "r = Fail err" by simp_all
    moreover from enter_State [OF e] have "s1 = s \<or> u_State (fst s) \<in> set from_states \<and> u_State (fst s1) = st"
      by (elim disjE) simp_all
    ultimately show ?thesis by (elim disjE) simp_all
  next
    case (Panic m)
    with e assms have "s' = s1" "r = Panic m" by simp_all
    moreover from enter_State [OF e] Panic have "u_State (fst s) \<in> set from_states \<and> u_State (fst s1) = st"
      by (elim disjE) simp_all
    ultimately show ?thesis by simp
  qed
qed

section \<open>The state each call leaves\<close>

lemma finish_state_State [simp]:
  "u_State (fst (fst (finish_state X dbf f err s))) =
     (case err of None \<Rightarrow> u_State (f (fst s))
      | Some e \<Rightarrow> if interrupted e then u_State (fst s) else StateFailed)"
  by (simp add: finish_state_def split: option.splits)

lemma sfor_State:
  assumes "\<And>x s. P (fst (f x s)) = P s"
  shows "P (fst (sfor f xs s)) = P s"
proof (induction xs arbitrary: s)
  case (Cons x xs)
  obtain s1 r where "f x s = (s1, r)" by (metis surj_pair)
  with Cons assms [of x s] show ?case by (cases r) simp_all
qed simp

lemma install_one_State: "u_State (fst (fst (install_one X cfg sched uri s))) = u_State (fst s)"
  by (simp add: install_one_def split: prod.splits)

lemma runner_install_State: "u_State (fst (fst (runner_install X cfg sched s))) = u_State (fst s)"
proof -
  define s1 where "s1 = set_u (\<lambda>u. u\<lparr>u_LoadedImages := (case u_LoadedImages u of None \<Rightarrow> Some [] | Some li \<Rightarrow> Some li)\<rparr>) s"
  obtain s2 r where loop: "sfor (install_one X cfg sched) (u_URIs (fst s1)) s1 = (s2, r)" by (metis surj_pair)
  from sfor_State [where P = "\<lambda>s. u_State (fst s)" and f = "install_one X cfg sched", OF install_one_State,
      of "u_URIs (fst s1)" s1] loop
  have "u_State (fst s2) = u_State (fst s)" by (simp add: s1_def)
  with loop show ?thesis
    by (cases r) (simp_all add: runner_install_def s1_def [symmetric])
qed

lemma runner_start_State: "u_State (fst (fst (runner_start X cfg s))) = u_State (fst s)"
  by (simp add: runner_start_def Let_def split: prod.splits)

lemma cancel_blob_State:
  "u_State (fst (fst (fst (cancel_blob X cfg step b sn)))) = u_State (fst (fst sn))"
proof (cases "dg_encoded X (d_digest (bi_desc (bf_info b)))")
  case (Ok enc)
  then show ?thesis by (simp add: cancel_blob_def slift_def Let_def split: prod.splits)
qed (simp_all add: cancel_blob_def slift_def)


lemma runner_cancel_State: "u_State (fst (fst (runner_cancel X cfg s))) = u_State (fst s)"
proof -
  have loop: "u_State (fst (fst (fst (sfor (cancel_blob X cfg n) bs sn)))) = u_State (fst (fst sn))" for n bs sn
    by (rule sfor_State [where P = "\<lambda>sn. u_State (fst (fst sn))"]) (rule cancel_blob_State)
  have images: "u_State (fst (fst (sbind (serr (s, e)) (\<lambda>_ s.
      sbind (slift l s) (\<lambda>imageTags s.
        (case removeLoadedImages X imageTags (snd s) of (w, r) \<Rightarrow> ((fst s, w), r))))))) = u_State (fst s)"
    for s :: "'a rstate" and e l
    by (cases e; cases l) (simp_all add: serr_def slift_def split: prod.splits)
  have tail: "u_State (fst (fst (case sfor (cancel_blob X cfg n) bs (s, 0) of
      ((s', n), r) \<Rightarrow> (s', f n r)))) = u_State (fst s)" for s :: "'a rstate" and n bs and f :: "nat \<Rightarrow> unit res \<Rightarrow> unit res"
    using loop [of n bs "(s, 0)"] by (auto split: prod.splits)
  show ?thesis
    unfolding runner_cancel_def
    by (rule sbind_keeps [where P = "\<lambda>s'. u_State (fst s') = u_State (fst s)"])
       (auto simp: images tail split: option.splits list.splits)
qed

lemma complete_deferred_State [simp]:
  "u_State (fst (fst (complete_deferred X dbf force err s))) =
     (case err of None \<Rightarrow> StateCompleted
      | Some e \<Rightarrow> if force \<and> \<not> interrupted e then StateCompleted else u_State (fst s))"
  by (simp add: complete_deferred_def split: option.splits)


section \<open>The machine\<close>

text \<open>
  What a call may do to the state: it is refused outside its entry states, and then nothing
  changes; otherwise it leaves one of the states listed for it.  The state of the work is what
  an interrupted call, a panic, or a failed first write leaves.
\<close>

datatype call_kind = KInit | KFetch | KInstall | KStart | KCancel | KComplete

fun entry_states :: "call_kind \<Rightarrow> ustate list" where
  "entry_states KInit = [StateCreated, StateInitializing, StateInitialized, StateFetching, StateFetched]"
| "entry_states KFetch = [StateInitialized, StateFetching, StateFetched]"
| "entry_states KInstall = [StateFetched, StateInstalling, StateInstalled]"
| "entry_states KStart = [StateInstalled, StateStarting, StateStarted]"
| "entry_states KCancel =
     [StateCreated, StateInitializing, StateInitialized, StateFetching, StateFetched, StateInstalling,
      StateInstalled]"
| "entry_states KComplete = [StateStarted, StateCompleting]"

fun working_state :: "call_kind \<Rightarrow> ustate" where
  "working_state KInit = StateInitializing"
| "working_state KFetch = StateFetching"
| "working_state KInstall = StateInstalling"
| "working_state KStart = StateStarting"
| "working_state KCancel = StateCancelling"
| "working_state KComplete = StateCompleting"

fun success_states :: "call_kind \<Rightarrow> ustate list" where
  "success_states KInit = [StateInitialized, StateFetched, StateInstalled, StateStarted]"
| "success_states KFetch = [StateFetched]"
| "success_states KInstall = [StateInstalled]"
| "success_states KStart = [StateStarted]"
| "success_states KCancel = [StateCanceled]"
| "success_states KComplete = [StateCompleted]"

inductive update_step :: "call_kind \<Rightarrow> ustate \<Rightarrow> ustate \<Rightarrow> bool" where
  refused: "update_step c st st"
| works: "st \<in> set (entry_states c) \<Longrightarrow> update_step c st (working_state c)"
| succeeds: "st \<in> set (entry_states c) \<Longrightarrow> st' \<in> set (success_states c) \<Longrightarrow> update_step c st st'"
| fails: "st \<in> set (entry_states c) \<Longrightarrow> c \<noteq> KComplete \<Longrightarrow> update_step c st StateFailed"

inductive_cases update_stepE: "update_step c st st'"

text \<open>
  The states a failed call can leave.  A failure of the first write leaves the working state
  whatever the error is; the callback of a fetch may have marked the update as fetched before the
  fetch is interrupted; a forced completion turns an error into success.
\<close>

fun fail_states :: "call_kind \<Rightarrow> bool \<Rightarrow> error \<Rightarrow> ustate list" where
  "fail_states KInit force e =
     StateInitializing # (if interrupted e \<or> isConnectionTimeout e then [] else [StateFailed])"
| "fail_states KFetch force e =
     StateFetching # (if interrupted e \<or> isConnectionTimeout e then [StateFetched] else [StateFailed])"
| "fail_states KComplete force e =
     StateCompleting # (if force \<and> \<not> interrupted e then [StateCompleted] else [])"
| "fail_states c force e = working_state c # (if interrupted e then [] else [StateFailed])"

fun call_leaves :: "call_kind \<Rightarrow> bool \<Rightarrow> unit res \<Rightarrow> ustate \<Rightarrow> bool" where
  "call_leaves c force (Ok _) st' \<longleftrightarrow> st' \<in> set (success_states c)"
| "call_leaves c force (Fail e) st' \<longleftrightarrow> st' \<in> set (fail_states c force e)"
| "call_leaves c force (Panic m) st' \<longleftrightarrow>
     st' = working_state c \<or> st' \<in> set (success_states c) \<or> c \<noteq> KComplete \<and> st' = StateFailed"

text \<open>The result of a call: refused with an error and nothing changed, or run to one of its states.\<close>

definition call_result :: "call_kind \<Rightarrow> bool \<Rightarrow> 'x rstate \<Rightarrow> 'x rstate \<Rightarrow> unit res \<Rightarrow> bool" where
  "call_result c force s s' r \<longleftrightarrow>
     s' = s \<and> (\<exists>e. r = Fail e) \<or>
     u_State (fst s) \<in> set (entry_states c) \<and> call_leaves c force r (u_State (fst s'))"

lemma call_leaves_step:
  assumes "call_leaves c force r st'" and "st \<in> set (entry_states c)"
  shows "update_step c st st'"
proof (cases r)
  case (Ok u)
  with assms show ?thesis by (auto intro: update_step.intros)
next
  case (Fail e)
  with assms(1) have "st' \<in> set (fail_states c force e)" by simp
  then have "st' = working_state c \<or> st' \<in> set (success_states c) \<or> c \<noteq> KComplete \<and> st' = StateFailed"
    by (cases c) (auto split: if_splits)
  with assms(2) show ?thesis by (auto intro: update_step.intros)
next
  case (Panic m)
  with assms show ?thesis by (auto intro: update_step.intros)
qed

lemma call_result_step: "call_result c force s s' r \<Longrightarrow> update_step c (u_State (fst s)) (u_State (fst s'))"
  by (auto simp: call_result_def intro: update_step.refused call_leaves_step)

lemma update_step_final:
  "update_step c st st' \<Longrightarrow> st \<in> set final_states \<Longrightarrow> st' = st"
  by (cases c; erule update_step.cases) (auto simp: final_states_def)


section \<open>Every call follows the machine\<close>

lemma entered_result:
  assumes run: "sbind (enter X dbf op (entry_states c) (working_state c) s) (\<lambda>_. f) = (s', r)"
    and body: "\<And>s1. u_State (fst s1) = working_state c \<Longrightarrow>
      call_leaves c force (snd (f s1)) (u_State (fst (fst (f s1))))"
  shows "call_result c force s s' r"
proof -
  have not_ok: "call_leaves c force r (working_state c)" if "r \<noteq> Ok ()"
    using that by (cases r; cases c) auto
  from entered_cases [OF run] consider "s' = s" "\<exists>e. r = Fail e"
    | "u_State (fst s) \<in> set (entry_states c)" "u_State (fst s') = working_state c" "r \<noteq> Ok ()"
    | s1 where "u_State (fst s) \<in> set (entry_states c)" "u_State (fst s1) = working_state c" "f s1 = (s', r)"
    by (elim disjE exE conjE) auto
  then show ?thesis
  proof cases
    case 2
    with not_ok show ?thesis by (simp add: call_result_def)
  next
    case 3
    with body [of s1] show ?thesis by (simp add: call_result_def)
  qed (simp add: call_result_def)
qed

lemma deferred_leaves:
  assumes "\<And>u. snd body = Ok u \<Longrightarrow> u_State (fst (fst (deferred None (fst body)))) \<in> set (success_states c)"
    and "\<And>e. snd body = Fail e \<Longrightarrow>
      u_State (fst (fst (deferred (Some e) (fst body)))) \<in> set (fail_states c force e)"
    and "\<And>m. snd body = Panic m \<Longrightarrow> u_State (fst (fst (deferred None (fst body)))) \<in> set (success_states c)"
  shows "call_leaves c force (snd (with_deferred body deferred)) (u_State (fst (fst (with_deferred body deferred))))"
proof -
  have fail_weak: "call_leaves c force (Panic m) st" if "st \<in> set (fail_states c force e)" for e st m
    using that by (cases c) (auto split: if_splits)
  obtain s2 r2 where d: "deferred (deferred_err (snd body)) (fst body) = (s2, r2)" by (metis surj_pair)
  show ?thesis
  proof (cases "snd body")
    case (Ok u)
    with assms(1) [OF Ok] d show ?thesis by (cases r2) (simp_all add: with_deferred_def deferred_err_def)
  next
    case (Fail e)
    with assms(2) [OF Fail] d fail_weak [of _ e] show ?thesis
      by (cases r2) (simp_all add: with_deferred_def deferred_err_def)
  next
    case (Panic m)
    with assms(3) [OF Panic] d show ?thesis by (cases r2) (simp_all add: with_deferred_def deferred_err_def)
  qed
qed


lemma finish_state_leaves:
  assumes "fail_states c False = (\<lambda>e. working_state c # (if interrupted e then [] else [StateFailed]))"
    and "success_states c = [fin]" and "\<And>u. u_State (done_u u) = fin"
    and "u_State (fst (fst body)) = working_state c"
  shows "call_leaves c False (snd (with_deferred body (finish_state X dbf done_u)))
    (u_State (fst (fst (with_deferred body (finish_state X dbf done_u)))))"
  by (rule deferred_leaves) (simp_all add: assms)

lemma runner_Install_result: "runner_Install X cfg sched s = (s', r) \<Longrightarrow> call_result KInstall False s s' r"
  unfolding runner_Install_def
  by (rule entered_result [where c = KInstall, unfolded entry_states.simps working_state.simps])
     (assumption, rule finish_state_leaves [where fin = StateInstalled], auto simp: runner_install_State)

lemma runner_Start_result: "runner_Start X cfg s = (s', r) \<Longrightarrow> call_result KStart False s s' r"
  unfolding runner_Start_def
  by (rule entered_result [where c = KStart, unfolded entry_states.simps working_state.simps])
     (assumption, rule finish_state_leaves [where fin = StateStarted], auto simp: runner_start_State)

lemma Cancel_result: "Cancel X cfg s = (s', r) \<Longrightarrow> call_result KCancel False s s' r"
  unfolding Cancel_def
  by (rule entered_result [where c = KCancel, unfolded entry_states.simps working_state.simps])
     (assumption, rule finish_state_leaves [where fin = StateCanceled], auto simp: runner_cancel_State)

lemma Complete_result:
  "Complete X cfg options s = (s', r) \<Longrightarrow> call_result KComplete (co_force (CompleteOpts options)) s s' r"
  unfolding Complete_def Let_def
  by (rule entered_result [where c = KComplete, unfolded entry_states.simps working_state.simps])
     (assumption, rule deferred_leaves, auto split: prod.splits)

text \<open>The callback of a fetch may only mark the update as fetched.\<close>

lemma fetch_update_blob_State: "u_State (fst (fetch_update_blob e u)) = u_State u"
  by (simp add: fetch_update_blob_def split: option.splits)

lemma fetch_callback_State:
  assumes "u_State (fst s) \<in> {StateFetching, StateFetched}"
  shows "u_State (fst (fst (fetch_callback X dbf p s))) \<in> {StateFetching, StateFetched}"
proof -
  obtain u1 r where b: "sfor fetch_update_blob (fp_blobs p) (fst s) = (u1, r)" by (metis surj_pair)
  have "u_State (fst (sfor fetch_update_blob (fp_blobs p) (fst s))) = u_State (fst s)"
    by (rule sfor_State [where P = u_State]) (rule fetch_update_blob_State)
  with b assms have "u_State u1 \<in> {StateFetching, StateFetched}" by simp
  with b show ?thesis by (cases r) (simp_all add: fetch_callback_def Let_def)
qed

lemma runner_fetch_State:
  assumes "runner_fetch X cfg src reports s = Some (s', r)" and "u_State (fst s) = StateFetching"
  shows "u_State (fst s') \<in> {StateFetching, StateFetched}"
proof -
  from assms(1) obtain w r1 where f: "FetchBlobs X cfg (fetch_blob_infos (fst s)) src (snd s) = Some (w, r1)"
    and s': "sbind (sfor (fetch_callback X (cf_db_file cfg)) reports (fst s, w)) (\<lambda>_ s. (s, r1)) = (s', r)"
    by (auto simp: runner_fetch_def split: option.splits)
  let ?P = "\<lambda>s. u_State (fst s) \<in> {StateFetching, StateFetched}"
  have "?P (fst (sfor (fetch_callback X (cf_db_file cfg)) reports (fst s, w)))"
    by (rule sfor_keeps [where P = ?P]) (rule fetch_callback_State, assumption, use assms(2) in simp)
  then have "?P (fst (sbind (sfor (fetch_callback X (cf_db_file cfg)) reports (fst s, w)) (\<lambda>_ s. (s, r1))))"
    by (rule sbind_keeps [where P = ?P]) simp
  with s' show ?thesis by simp
qed


lemma fetch_deferred_State:
  "u_State (fst (fst (fetch_deferred X cfg err s))) =
     (case err of None \<Rightarrow> StateFetched
      | Some e \<Rightarrow> if \<not> interrupted e \<and> \<not> isConnectionTimeout e then StateFailed else u_State (fst s))"
  by (auto simp: fetch_deferred_def Let_def split: option.splits res.splits prod.splits)

lemma Fetch_entered:
  assumes "Fetch X cfg src reports s = Some (s', r)"
  shows "\<exists>f. sbind (enter X (cf_db_file cfg) ''fetch'' [StateInitialized, StateFetching, StateFetched] StateFetching s) (\<lambda>_. f) = (s', r) \<and>
    (\<forall>s1. u_State (fst s1) = StateFetching \<longrightarrow> call_leaves KFetch False (snd (f s1)) (u_State (fst (fst (f s1)))))"
proof -
  let ?en = "enter X (cf_db_file cfg) ''fetch'' [StateInitialized, StateFetching, StateFetched] StateFetching s"
  have leaves: "call_leaves KFetch False (snd (with_deferred (s2, r2) (fetch_deferred X cfg)))
      (u_State (fst (fst (with_deferred (s2, r2) (fetch_deferred X cfg)))))"
    if "u_State (fst s2) \<in> {StateFetching, StateFetched}" for s2 r2
    by (rule deferred_leaves) (use that in \<open>auto simp: fetch_deferred_State\<close>)
  let ?f = "\<lambda>s1. case if u_Blobs (fst s1) \<noteq> [] then runner_fetch X cfg src reports s1 else Some (s1, Ok ()) of
      Some body \<Rightarrow> with_deferred body (fetch_deferred X cfg) | None \<Rightarrow> (s1, Fail CtxCanceled)"
  have "\<forall>s1. u_State (fst s1) = StateFetching \<longrightarrow> call_leaves KFetch False (snd (?f s1)) (u_State (fst (fst (?f s1))))"
  proof (intro allI impI)
    fix s1 :: "'a rstate"
    assume s1: "u_State (fst s1) = StateFetching"
    show "call_leaves KFetch False (snd (?f s1)) (u_State (fst (fst (?f s1))))"
    proof (cases "if u_Blobs (fst s1) \<noteq> [] then runner_fetch X cfg src reports s1 else Some (s1, Ok ())")
      case None
      with s1 show ?thesis by simp
    next
      case (Some body)
      have "u_State (fst (fst body)) \<in> {StateFetching, StateFetched}"
        using Some s1 runner_fetch_State [of X cfg src reports s1 "fst body" "snd body"]
        by (simp split: if_splits) auto
      with leaves [of "fst body" "snd body"] Some show ?thesis by simp
    qed
  qed
  moreover have "sbind ?en (\<lambda>_. ?f) = (s', r)"
  proof -
    obtain s1 r1 where e: "?en = (s1, r1)" by (metis surj_pair)
    with assms show ?thesis
      by (cases r1) (auto simp: Fetch_def split: if_splits option.splits)
  qed
  ultimately show ?thesis by blast
qed

lemma Fetch_result: "Fetch X cfg src reports s = Some (s', r) \<Longrightarrow> call_result KFetch False s s' r"
  using Fetch_entered [of X cfg src reports s s' r] entered_result [where c = KFetch]
  by (metis entry_states.simps(2) working_state.simps(2))

text \<open>The walk of an initialisation leaves the state alone.\<close>


lemma init_add_blob_State:
  "u_State (ia_u (fst (init_add_blob X cfg app node bs acc))) = u_State (ia_u acc)"
  by (auto simp: init_add_blob_def Let_def slift_def sbind_pair split: prod.splits res.splits)

lemma init_report_State:
  "u_State (ia_u (fst (init_report X dbf rep tot acc))) = u_State (ia_u acc)"
proof -
  let ?u = "(ia_u acc)\<lparr>u_TotalBlobsBytes := ia_download acc,
    u_Progress := float_percent (if rep then ia_current acc + 1 else ia_current acc) tot\<rparr>"
  obtain u' w' r where w: "session_write X dbf (?u, ia_w acc) = ((u', w'), r)" by (metis surj_pair)
  with session_write_State [of X dbf "(?u, ia_w acc)"] have "u_State u' = u_State (ia_u acc)" by simp
  with w show ?thesis by (simp add: init_report_def Let_def)
qed

lemma init_visit_State:
  "u_State (ia_u (fst (init_visit X cfg store rep tot app node acc))) = u_State (ia_u acc)"
proof -
  let ?P = "\<lambda>a. u_State (ia_u a) = u_State (ia_u acc)"
  have "?P (fst (sbind (init_add_blob X cfg app node bs acc) (\<lambda>_. init_report X (cf_db_file cfg) rep tot)))" for bs
    by (rule sbind_keeps [where P = ?P]) (simp_all add: init_add_blob_State init_report_State)
  then show ?thesis
    by (simp add: init_visit_def slift_def sbind_pair init_report_State split: option.splits res.splits)
qed

lemma initUpdate_State: "u_State (fst (fst (initUpdate X cfg rep s))) = u_State (fst s)"
proof -
  have walk: "u_State (ia_u (fst (init_walk X cfg store rep tot app acc))) = u_State (ia_u acc)" for store rep tot app acc
    unfolding init_walk_def fst_swap
    by (rule Walk_keeps [where P = "\<lambda>a. u_State (ia_u a) = u_State (ia_u acc)"])
       (simp_all add: init_visit_State)
  have loop: "u_State (ia_u (fst (sfor (init_walk X cfg store rep tot) apps acc))) = u_State (ia_u acc)"
    for store rep tot apps acc
    by (rule sfor_State [where P = "\<lambda>a. u_State (ia_u a)"]) (rule walk)
  show ?thesis
    by (simp add: initUpdate_def slift_def serr_def sbind_pair ia_state_def Let_def loop
        split: res.splits prod.splits option.splits)
qed

lemma status_state_range:
  "status_state X cfg s = Ok st \<Longrightarrow> st \<in> set (success_states KInit)"
  by (auto simp: status_state_def rcatch_Ok_iff rbind_Ok_iff Let_def split: if_splits)

lemma init_deferred_None_State:
  "u_State (fst (fst (init_deferred X cfg chk None s))) \<in> set (success_states KInit)"
proof -
  define s1 where "s1 = set_u (\<lambda>u. u\<lparr>u_Progress := 100, u_State := StateInitialized\<rparr>) s"
  define r where "r = (if chk \<and> u_Blobs (fst s1) = [] \<and> u_TotalBlobsBytes (fst s1) = 0
    then status_state X cfg s1 else Ok StateInitialized)"
  have "init_deferred X cfg chk None s = sbind (s1, r) (\<lambda>st s.
      final_write X (cf_db_file cfg) (set_u (\<lambda>u. u\<lparr>u_State := st, u_InitTime := w_clock (snd s)\<rparr>) s))"
    by (simp add: init_deferred_def Let_def s1_def r_def slift_def)
  moreover have "st \<in> set (success_states KInit)" if "r = Ok st" for st
    using that status_state_range [of X cfg s1 st] by (auto simp: r_def split: if_splits)
  moreover have "u_State (fst s1) = StateInitialized" by (simp add: s1_def)
  ultimately show ?thesis by (cases r) simp_all
qed

lemma init_deferred_Some_State:
  "u_State (fst (fst (init_deferred X cfg chk (Some e) s))) =
     (if \<not> interrupted e \<and> \<not> isConnectionTimeout e then StateFailed else u_State (fst s))"
  by (simp add: init_deferred_def)

lemma init_begin_State: "init_begin allow uris u = Ok u' \<Longrightarrow> u_State u \<in> set (entry_states KInit)"
  by (auto simp: init_begin_def split: if_splits)

lemma Init_result:
  assumes "Init X cfg uris options s = (s', r)"
  shows "call_result KInit False s s' r"
proof (cases "db_open_err X (snd s) (cf_db_file cfg) False")
  case (Some e)
  with assms show ?thesis by (auto simp: Init_def Let_def lock_def call_result_def)
next
  case None
  define opts where "opts = InitOptions options"
  show ?thesis
  proof (cases "init_begin (in_allow_empty opts) uris (fst s)")
    case (Ok u)
    define body where "body = (\<lambda>s::'a rstate. if u_URIs (fst s) \<noteq> [] then initUpdate X cfg (in_reporter opts) s else (s, Ok ()))"
    obtain s1 r1 where w: "session_write X (cf_db_file cfg) (u\<lparr>u_State := StateInitializing\<rparr>, snd s) = (s1, r1)" by (metis surj_pair)
    with session_write_State [of X "cf_db_file cfg" "(u\<lparr>u_State := StateInitializing\<rparr>, snd s)"]
    have s1: "u_State (fst s1) = StateInitializing" by simp
    have run: "sbind (s1, r1) (\<lambda>_ s. with_deferred (body s) (init_deferred X cfg (in_check_status opts))) = (s', r)"
      using assms None Ok w unfolding body_def opts_def by (simp add: Init_def Let_def lock_def slift_def)
    have bs: "u_State (fst (fst (body s))) = u_State (fst s)" for s
      by (simp add: body_def initUpdate_State)
    have leaves: "call_leaves KInit False (snd (with_deferred (body s1) (init_deferred X cfg (in_check_status opts))))
        (u_State (fst (fst (with_deferred (body s1) (init_deferred X cfg (in_check_status opts))))))"
      by (rule deferred_leaves)
         (use init_deferred_None_State in \<open>simp_all add: init_deferred_Some_State bs s1\<close>)
    have "call_leaves KInit False r (u_State (fst s'))"
      using run leaves s1 by (cases r1) auto
    with init_begin_State [OF Ok] show ?thesis by (simp add: call_result_def)
  next
    case (Fail e)
    with assms None show ?thesis by (auto simp: Init_def Let_def lock_def slift_def opts_def call_result_def)
  next
    case (Panic m)
    then have False by (simp add: init_begin_def split: if_splits)
    then show ?thesis ..
  qed
qed

section \<open>Calls and runs\<close>

text \<open>A call of the runner with its arguments; \<open>None\<close> is a fetch that does not return.\<close>

datatype call =
    CInit "string list" "init_option list"
  | CFetch "path option" "fetch_progress list"
  | CInstall "load_progress list \<Rightarrow> load_progress list"
  | CStart
  | CCancel
  | CComplete "complete_opt list"

fun call_kind_of :: "call \<Rightarrow> call_kind" where
  "call_kind_of (CInit uris options) = KInit"
| "call_kind_of (CFetch src reports) = KFetch"
| "call_kind_of (CInstall sched) = KInstall"
| "call_kind_of CStart = KStart"
| "call_kind_of CCancel = KCancel"
| "call_kind_of (CComplete options) = KComplete"

fun call_force :: "call \<Rightarrow> bool" where
  "call_force (CComplete options) = co_force (CompleteOpts options)"
| "call_force c = False"

fun run_call :: "('x, 'z) usys_scheme \<Rightarrow> config \<Rightarrow> call \<Rightarrow> 'x rstate \<Rightarrow> ('x rstate \<times> unit res) option" where
  "run_call X cfg (CInit uris options) s = Some (Init X cfg uris options s)"
| "run_call X cfg (CFetch src reports) s = Fetch X cfg src reports s"
| "run_call X cfg (CInstall sched) s = Some (runner_Install X cfg sched s)"
| "run_call X cfg CStart s = Some (runner_Start X cfg s)"
| "run_call X cfg CCancel s = Some (Cancel X cfg s)"
| "run_call X cfg (CComplete options) s = Some (Complete X cfg options s)"

lemma run_call_result:
  assumes "run_call X cfg c s = Some (s', r)"
  shows "call_result (call_kind_of c) (call_force c) s s' r"
  using assms
  by (cases c)
     (simp_all add: Init_result Fetch_result runner_Install_result runner_Start_result Cancel_result Complete_result)

lemma run_call_step:
  "run_call X cfg c s = Some (s', r) \<Longrightarrow> update_step (call_kind_of c) (u_State (fst s)) (u_State (fst s'))"
  by (rule call_result_step) (rule run_call_result)




text \<open>The calls made on one runner, in order.\<close>

fun run_calls :: "('x, 'z) usys_scheme \<Rightarrow> config \<Rightarrow> call list \<Rightarrow> 'x rstate \<Rightarrow> 'x rstate option" where
  "run_calls X cfg [] s = Some s"
| "run_calls X cfg (c # cs) s =
     (case run_call X cfg c s of None \<Rightarrow> None | Some (s', r) \<Rightarrow> run_calls X cfg cs s')"

inductive update_run :: "call_kind list \<Rightarrow> ustate \<Rightarrow> ustate \<Rightarrow> bool" where
  run_nil: "update_run [] st st"
| run_cons: "update_step c st st1 \<Longrightarrow> update_run cs st1 st2 \<Longrightarrow> update_run (c # cs) st st2"

inductive_cases update_run_NilE: "update_run [] st st'"
inductive_cases update_run_ConsE: "update_run (c # cs) st st'"

lemma run_calls_refine:
  "run_calls X cfg cs s = Some s' \<Longrightarrow> update_run (map call_kind_of cs) (u_State (fst s)) (u_State (fst s'))"
proof (induction cs arbitrary: s)
  case (Cons c cs)
  then obtain s1 r where "run_call X cfg c s = Some (s1, r)" "run_calls X cfg cs s1 = Some s'"
    by (auto split: option.splits prod.splits)
  with Cons.IH [of s1] run_call_step [of X cfg c s s1 r] show ?case by (simp add: run_cons)
qed (auto intro: run_nil)

text \<open>A run leaves the states before the first initialisation only by it, and completes only by completing.\<close>

lemma update_step_created:
  "update_step c StateCreated st \<Longrightarrow> c = KInit \<or> st \<in> {StateCreated, StateCancelling, StateCanceled, StateFailed}"
  by (cases c; erule update_stepE) auto

lemma update_step_cancelling:
  "update_step c st st' \<Longrightarrow> st \<in> {StateCancelling, StateCanceled, StateFailed} \<Longrightarrow> st' = st"
  by (cases c; erule update_stepE) auto

lemma update_step_completed:
  "update_step c st StateCompleted \<Longrightarrow> st = StateCompleted \<or> c = KComplete"
  by (cases c; erule update_stepE) auto

lemma update_run_stuck:
  "update_run cs st st' \<Longrightarrow> st \<in> {StateCancelling, StateCanceled, StateFailed} \<Longrightarrow> st' = st"
  by (induction rule: update_run.induct) (auto dest: update_step_cancelling)

lemma update_run_completed:
  "update_run cs st st' \<Longrightarrow> st' = StateCompleted \<Longrightarrow> st \<noteq> StateCompleted \<Longrightarrow> KComplete \<in> set cs"
  by (induction rule: update_run.induct) (auto dest: update_step_completed)

lemma update_run_init_first:
  "update_run cs st st' \<Longrightarrow> st = StateCreated \<Longrightarrow> st' = StateCompleted \<Longrightarrow> subseq [KInit, KComplete] cs"
proof (induction rule: update_run.induct)
  case (run_cons c st st1 cs st2)
  from update_step_created run_cons.hyps(1) run_cons.prems(1)
  consider "c = KInit" | "st1 = StateCreated" | "st1 \<in> {StateCancelling, StateCanceled, StateFailed}" by blast
  then show ?case
  proof cases
    case 1
    have "st1 \<noteq> StateCompleted"
      using run_cons.hyps(1) run_cons.prems(1) update_step_completed [of c st] 1 by auto
    with update_run_completed [OF run_cons.hyps(2) run_cons.prems(2)] have "subseq [KComplete] cs"
      by (simp add: subseq_singleton_left)
    with 1 show ?thesis by simp
  next
    case 2
    with run_cons show ?thesis by (simp only: list_emb_Cons)
  next
    case 3
    with update_run_stuck [OF run_cons.hyps(2)] run_cons.prems(2) show ?thesis by auto
  qed
qed simp

end
