(* ===== verification/RunnerDb.thy ===== *)
theory RunnerDb
  imports RunnerMachine
begin

text \<open>
  The calls of a runner and the database: whatever a call does and however it ends, it only ever replaces
  the newest record of the bucket, so that at most one update is in progress.
\<close>

section \<open>Operations that leave the database alone\<close>

text \<open>
  The content store, the Docker daemon and the \<open>docker compose\<close> command do not touch the database of
  updates, which is a file of its own.
\<close>

definition effects_keep_db :: "('x, 'z) sys_scheme \<Rightarrow> bool" where
  "effects_keep_db X \<longleftrightarrow>
     (\<forall>w ref desc. w_db (fst (ls_open_writer X w ref desc)) = w_db w) \<and>
     (\<forall>w d. w_db (fst (ls_delete X w d)) = w_db w) \<and>
     (\<forall>w ref desc r. w_db (fst (ls_copy X w ref desc r)) = w_db w) \<and>
     (\<forall>w ms ps. w_db (fst (dk_image_load X w ms ps)) = w_db w) \<and>
     (\<forall>w i f p. w_db (fst (dk_image_remove X w i f p)) = w_db w) \<and>
     (\<forall>w d args. w_db (fst (sh_compose X w d args)) = w_db w)"

lemma effects_keep_db:
  assumes "effects_keep_db X"
  shows "store_keeps X desc (\<lambda>w. w_db w = db)"
    and "w_db (fst (dk_image_load X w ms ps)) = w_db w"
    and "w_db (fst (dk_image_remove X w i f p)) = w_db w"
    and "w_db (fst (sh_compose X w d args)) = w_db w"
  using assms by (simp_all add: effects_keep_db_def store_keeps_def)

lemma FetchBlobs_db:
  assumes "FetchBlobs X cfg blobs src w = Some (w', r)" and "effects_keep_db X"
  shows "w_db w' = w_db w"
proof (cases "ls_new X (cf_store_root cfg)")
  case (Some e)
  with assms(1) show ?thesis by (auto simp: FetchBlobs_def Let_def)
next
  case None
  with assms(1) obtain pv r1 where
    "fetch_loop X pv (getOrderedBlobsToFetch (fp_blobs (start_progress blobs))) w = Some (w', r1)"
    by (auto simp: FetchBlobs_def Let_def split: option.splits res.splits)
  then show ?thesis
    by (rule fetch_loop_invariant [where P = "\<lambda>w1. w_db w1 = w_db w"])
       (simp_all add: effects_keep_db(1) [OF assms(2)])
qed

lemma LoadImages_db:
  assumes "effects_keep_db X"
  shows "w_db (fst (LoadImages X app root opts w)) = w_db w"
proof -
  have "w_db w' = w_db w" if "dk_image_load X w ms ps = (w', r)" for w' r ms ps
    using effects_keep_db(2) [OF assms, of w ms ps] that by simp
  then show ?thesis
    by (auto simp: LoadImages_def Let_def split: prod.splits res.splits)
qed

lemma LoadImages_retry_db:
  assumes "effects_keep_db X"
  shows "w_db (fst (LoadImages_retry X app root opts w)) = w_db w"
proof -
  obtain w1 evs r where 1: "LoadImages X app root (opts @ [WithRefWithDigest, WithBlobReadingFromStore]) w = (w1, evs, r)"
    by (metis prod_cases3)
  obtain w2 evs2 r2 where 2: "LoadImages X app root opts w1 = (w2, evs2, r2)" by (metis prod_cases3)
  from LoadImages_db [OF assms, of app root "opts @ [WithRefWithDigest, WithBlobReadingFromStore]" w] 1
  have "w_db w1 = w_db w" by simp
  moreover from LoadImages_db [OF assms, of app root opts w1] 2 have "w_db w2 = w_db w1" by simp
  ultimately show ?thesis by (cases r) (simp_all add: LoadImages_retry_def 1 2)
qed

lemma InstallCompose_db: "w_db (fst (InstallCompose X app pv root w)) = w_db w"
  by (auto simp: InstallCompose_def Let_def slift_def serr_def sbind_pair split: prod.splits option.splits res.splits)

lemma Install_compose_db: "w_db (fst (Install_compose X cfg cs app w)) = w_db w"
  unfolding Install_compose_def
  by (rule sbind_keeps [where P = "\<lambda>w1. w_db w1 = w_db w"])
     (simp_all add: InstallCompose_db slift_def sbind_pair split: res.splits)

lemma Install_db:
  assumes "effects_keep_db X"
  shows "w_db (fst (Install X cfg uri reporting w)) = w_db w"
proof (cases "Install_app X cfg uri w")
  case (Ok a)
  obtain cs app where a: "a = (cs, app)" by force
  obtain w1 evs r where l: "LoadImages_retry X app (GetBlobsRoot cfg) (if reporting then [WithProgressReporting] else []) w =
      (w1, evs, r)" by (metis prod_cases3)
  from LoadImages_retry_db [OF assms, of app "GetBlobsRoot cfg" "if reporting then [WithProgressReporting] else []" w] l
  have w1: "w_db w1 = w_db w" by simp
  obtain w2 r2 where i: "sbind (w1, wrap_err (''failed to load images for app '' @ AppRef_String X (a_ref app)) r)
      (\<lambda>_. Install_compose X cfg cs app) = (w2, r2)" by force
  have "w_db (fst (sbind (w1, wrap_err (''failed to load images for app '' @ AppRef_String X (a_ref app)) r)
      (\<lambda>_. Install_compose X cfg cs app))) = w_db w"
    by (rule sbind_keeps [where P = "\<lambda>w1. w_db w1 = w_db w"]) (simp_all add: w1 Install_compose_db)
  with Ok a l i show ?thesis by (simp add: Install_def)
qed (simp_all add: Install_def)

lemma start_loop_db:
  assumes "effects_keep_db X"
  shows "w_db (fst (start_loop X cfg apps w)) = w_db w"
proof (induction apps arbitrary: w)
  case (Cons app apps)
  obtain w1 e where s: "sh_compose X w (GetAppComposeDir cfg (a_Name app)) [''up'', ''-d'', ''--remove-orphans''] = (w1, e)"
    by force
  with effects_keep_db(4) [OF assms, of w] have "w_db w1 = w_db w" by (metis fst_conv)
  with s Cons.IH [of w1] show ?case by (cases e) (auto simp: Let_def split: prod.splits)
qed simp

lemma StartApps_db:
  assumes "effects_keep_db X"
  shows "w_db (fst (StartApps X cfg uris w)) = w_db w"
  using start_loop_db [OF assms] by (auto simp: StartApps_def split: res.splits)


lemma removeLoadedImages_db:
  assumes "effects_keep_db X"
  shows "w_db (fst (removeLoadedImages X tags w)) = w_db w"
proof -
  let ?P = "\<lambda>w1. w_db w1 = w_db w"
  have tag: "?P (fst (if t \<in> set tags then serr (dk_image_remove X w1 i True False) else (w1, Ok ())))"
    if "?P w1" for t i w1
    using that effects_keep_db(3) [OF assms, of w1 i True False] by (simp add: serr_def)
  have image: "?P (fst (sfor (\<lambda>t w. if t \<in> set tags then serr (dk_image_remove X w i True False) else (w, Ok ())) ts w1))"
    if "?P w1" for ts i w1
    by (rule sfor_keeps [where P = ?P]) (use that tag in auto)
  show ?thesis
    unfolding removeLoadedImages_def slift_def
    by (rule sbind_keeps [where P = ?P]) (auto intro: sfor_keeps [where P = ?P] image)
qed

lemma cancel_blob_db: "w_db (snd (fst (fst (cancel_blob X cfg step b sn)))) = w_db (snd (fst sn))"
  by (auto simp: cancel_blob_def Let_def slift_def sbind_pair split: res.splits prod.splits)

lemma runner_cancel_db:
  assumes "effects_keep_db X"
  shows "w_db (snd (fst (runner_cancel X cfg s))) = w_db (snd s)"
proof -
  let ?P = "\<lambda>s1. w_db (snd s1) = w_db (snd s)"
  have loop: "w_db (snd (fst (fst (sfor (cancel_blob X cfg n) bs sn)))) = w_db (snd (fst sn))" for n bs sn
    by (rule sfor_State [where P = "\<lambda>sn. w_db (snd (fst sn))"]) (rule cancel_blob_db)
  have images: "?P (fst (sbind (serr (s, e)) (\<lambda>_ s.
      sbind (slift l s) (\<lambda>imageTags s.
        (case removeLoadedImages X imageTags (snd s) of (w, r) \<Rightarrow> ((fst s, w), r))))))" for e l
    using removeLoadedImages_db [OF assms]
    by (cases e; cases l) (auto simp: serr_def slift_def split: prod.splits, metis fst_conv)
  have tail: "?P (fst (case sfor (cancel_blob X cfg n) bs (s1, 0) of ((s', n), r) \<Rightarrow> (s', f n r)))"
    if "?P s1" for s1 n bs and f :: "nat \<Rightarrow> unit res \<Rightarrow> unit res"
    using loop [of n bs "(s1, 0)"] that by (auto split: prod.splits)
  show ?thesis
    unfolding runner_cancel_def
    by (rule sbind_keeps [where P = ?P]) (auto simp: images tail split: option.splits list.splits)
qed

lemma fold_remove_db:
  assumes "effects_keep_db X"
  shows "w_db (fold (\<lambda>r w. if C r then fst (dk_image_remove X w (f r) a b) else w) rs w) = w_db w"
  by (induction rs arbitrary: w) (simp_all add: effects_keep_db(3) [OF assms])

lemma fold_remove_all_db:
  assumes "effects_keep_db X"
  shows "w_db (fold (\<lambda>(i, im) w. fst (dk_image_remove X w i a b)) m w) = w_db w"
  by (induction m arbitrary: w) (auto simp: effects_keep_db(3) [OF assms])

lemma prune_images_db:
  assumes "effects_keep_db X"
  shows "w_db (fst (prune_images X cfg ty apps w)) = w_db w"
  by (simp add: prune_images_def removeAppImageRefs_def slift_def sbind_pair Let_def fold_remove_all_db [OF assms]
      fold_remove_db [OF assms, where f = "\<lambda>r. r"] split: option.splits res.splits prune_type.splits)

lemma uninstall_compose_db:
  fixes X :: "('x, 'z) sys_scheme" and w :: "'x world"
  shows "w_db (fst (uninstall_compose X cfg refs w)) = w_db w"
proof -
  have app: "w_db (fst (uninstall_app X cfg inStore ist app w1)) = w_db w1" for inStore ist app and w1 :: "'x world"
    by (simp add: uninstall_app_def serr_def split: prod.splits)
  have "w_db (fst (sfor (uninstall_app X cfg inStore ist) apps w1)) = w_db w1" for inStore ist apps and w1 :: "'x world"
    by (rule sfor_State [where P = w_db]) (rule app)
  then have "w_db (fst (sbind (sfor (uninstall_app X cfg inStore ist) apps w1) (\<lambda>_ w. (w, r)))) = w_db w1"
    for inStore ist apps and w1 :: "'x world" and r :: "app_ctx list res"
    by (intro sbind_keeps [where P = "\<lambda>w2. w_db w2 = w_db w1"]) simp_all
  then show ?thesis
    by (simp add: uninstall_compose_def slift_def sbind_pair [where s = w] split: res.splits option.splits)
qed

lemma UninstallApps_db:
  assumes "effects_keep_db X"
  shows "w_db (fst (UninstallApps X cfg refs prune w)) = w_db w"
proof -
  have "w_db (fst (sbind (uninstall_compose X cfg refs w) (\<lambda>apps w.
      (case prune of None \<Rightarrow> (w, Ok ()) | Some ty \<Rightarrow> prune_images X cfg ty apps w)))) = w_db w"
    by (rule sbind_keeps [where P = "\<lambda>w1. w_db w1 = w_db w"])
       (auto simp: uninstall_compose_db prune_images_db [OF assms] split: option.splits)
  then show ?thesis by (simp add: UninstallApps_def)
qed

lemma Prune_db: "w_db (fst (Prune X store w)) = w_db w"
  by (auto simp: Prune_def split: res.splits prod.splits)

lemma store_RemoveApps_db: "w_db (fst (store_RemoveApps X store refs prune w)) = w_db w"
  using Prune_db [of X store]
  by (auto simp: store_RemoveApps_def Let_def sbind_pair split: res.splits prod.splits) (metis fst_conv world.simps world.select_convs world.surjective world.update_convs)+

lemma RemoveApps_db: "w_db (fst (RemoveApps X cfg refs prune check w)) = w_db w"
  by (auto simp: RemoveApps_def slift_def sbind_pair store_RemoveApps_db split: res.splits if_splits)

lemma complete_prune_db:
  assumes "effects_keep_db X"
  shows "w_db (fst (complete_prune X cfg ty updateApps w)) = w_db w"
proof -
  have "w_db (fst (sbind (UninstallApps X cfg refs (Some ty) w) (\<lambda>_ w.
      if refs \<noteq> [] then RemoveApps X cfg refs True False w else (w, Ok ())))) = w_db w" for refs
    by (rule sbind_keeps [where P = "\<lambda>w1. w_db w1 = w_db w"])
       (simp_all add: UninstallApps_db [OF assms] RemoveApps_db)
  then show ?thesis by (simp add: complete_prune_def slift_def sbind_pair [where s = w] Let_def split: res.splits)
qed

lemma runner_complete_db:
  fixes X :: "('x, 'z) usys_scheme" and w :: "'x world"
  assumes "effects_keep_db X"
  shows "w_db (fst (runner_complete X cfg opts uris w)) = w_db w"
proof -
  let ?P = "\<lambda>w1. w_db w1 = w_db w"
  have prune: "?P (fst (case Prune X store w1 of (w', r) \<Rightarrow> (w', rbind r (\<lambda>_. Ok ()))))"
    if "?P w1" for store w1
    using Prune_db [of X store w1] that by (auto split: prod.splits)
  show ?thesis
    unfolding runner_complete_def
    by (intro sbind_keeps [where P = ?P] slift_keeps [where P = ?P] if_keeps [where P = ?P])
       (simp_all add: prune complete_prune_db [OF assms])
qed


section \<open>At most one update is in progress\<close>

lemma db_wf_cong: "w_db w' dbf = w_db w dbf \<Longrightarrow> db_wf X dbf w' = db_wf X dbf w"
  by (simp add: db_wf_def)

definition wf_state :: "('x, 'z) usys_scheme \<Rightarrow> path \<Rightarrow> 'x rstate \<Rightarrow> bool" where
  "wf_state X dbf s \<longleftrightarrow> db_wf X dbf (snd s)"

lemma wf_state_cong: "w_db (snd s') = w_db (snd s) \<Longrightarrow> wf_state X dbf s' = wf_state X dbf s"
  using db_wf_cong [of "snd s'" dbf "snd s" X] by (simp add: wf_state_def)

lemma wf_set_u [simp]: "wf_state X dbf (set_u f s) = wf_state X dbf s"
  using wf_state_cong [of "set_u f s" s X] by simp

lemma session_write_wf: "json_ok X \<Longrightarrow> wf_state X dbf s \<Longrightarrow> wf_state X dbf (fst (session_write X dbf s))"
  using session_write_keeps_wf [of X dbf "snd s" "fst s" "fst (fst (session_write X dbf s))"
      "snd (fst (session_write X dbf s))" "snd (session_write X dbf s)"]
  by (simp add: wf_state_def)

lemma final_write_wf:
  assumes "json_ok X" and "wf_state X dbf s"
  shows "wf_state X dbf (fst (final_write X dbf s))"
proof -
  obtain s1 r where "session_write X dbf s = (s1, r)" by (metis surj_pair)
  with session_write_wf [OF assms] show ?thesis by (cases r) (simp_all add: final_write_def)
qed

lemma enter_wf: "json_ok X \<Longrightarrow> wf_state X dbf s \<Longrightarrow> wf_state X dbf (fst (enter X dbf op sts st s))"
  by (simp add: enter_def lock_def session_write_wf split: option.split)

lemma with_deferred_wf:
  assumes "wf_state X dbf (fst body)" and "\<And>e s. wf_state X dbf s \<Longrightarrow> wf_state X dbf (fst (deferred e s))"
  shows "wf_state X dbf (fst (with_deferred body deferred))"
  by (simp add: with_deferred_state assms)

lemma entered_wf:
  assumes "json_ok X" and "wf_state X dbf s" and "\<And>s1. wf_state X dbf s1 \<Longrightarrow> wf_state X dbf (fst (f s1))"
  shows "wf_state X dbf (fst (sbind (enter X dbf op sts st s) (\<lambda>_. f)))"
  by (rule sbind_keeps [where P = "wf_state X dbf"]) (simp_all add: assms enter_wf)

lemma finish_state_wf: "json_ok X \<Longrightarrow> wf_state X dbf s \<Longrightarrow> wf_state X dbf (fst (finish_state X dbf done_u e s))"
  by (simp add: finish_state_def final_write_wf split: option.split)

lemma complete_deferred_wf: "json_ok X \<Longrightarrow> wf_state X dbf s \<Longrightarrow> wf_state X dbf (fst (complete_deferred X dbf force e s))"
  by (simp add: complete_deferred_def final_write_wf)

lemma fetch_deferred_wf:
  assumes "json_ok X" and "wf_state X (cf_db_file cfg) s"
  shows "wf_state X (cf_db_file cfg) (fst (fetch_deferred X cfg e s))"
proof (cases e)
  case None
  have fs: "wf_state X (cf_db_file cfg) (u, (snd s)\<lparr>w_fs := f\<rparr>)" for u f
    using wf_state_cong [of "(u, (snd s)\<lparr>w_fs := f\<rparr>)" s X] assms(2) by simp
  obtain fs' r where "AddApps X (case NewAppStore X (cf_store_root cfg) (cf_platform cfg) [False] of Ok a \<Rightarrow> a)
      (u_URIs (fst s)) (w_fs (snd s)) = (fs', r)" by force
  then show ?thesis
    using None assms fs
    by (cases "NewAppStore X (cf_store_root cfg) (cf_platform cfg) [False]"; cases r)
       (simp_all add: fetch_deferred_def Let_def final_write_wf)
qed (simp add: fetch_deferred_def final_write_wf assms)

lemma init_deferred_wf:
  assumes "json_ok X" and "wf_state X (cf_db_file cfg) s"
  shows "wf_state X (cf_db_file cfg) (fst (init_deferred X cfg chk e s))"
proof (cases e)
  case None
  let ?s = "set_u (\<lambda>u. u\<lparr>u_Progress := 100, u_State := StateInitialized\<rparr>) s"
  have "wf_state X (cf_db_file cfg) (fst (sbind (if c then slift r ?s else (?s, Ok StateInitialized)) (\<lambda>st s.
      final_write X (cf_db_file cfg) (set_u (\<lambda>u. u\<lparr>u_State := st, u_InitTime := w_clock (snd s)\<rparr>) s))))" for c r
    by (intro sbind_keeps [where P = "wf_state X (cf_db_file cfg)"] if_keeps [where P = "wf_state X (cf_db_file cfg)"] slift_keeps [where P = "wf_state X (cf_db_file cfg)"])
       (simp_all add: assms final_write_wf)
  then show ?thesis by (simp add: init_deferred_def None Let_def)
qed (simp add: init_deferred_def final_write_wf assms)

lemma fetch_callback_wf:
  assumes "json_ok X" and "wf_state X dbf s"
  shows "wf_state X dbf (fst (fetch_callback X dbf p s))"
proof -
  obtain u r where b: "sfor fetch_update_blob (fp_blobs p) (fst s) = (u, r)" by (metis surj_pair)
  have "wf_state X dbf (u, snd s)" using wf_state_cong [of "(u, snd s)" s X] assms(2) by simp
  then have "wf_state X dbf (fst (sbind ((u, snd s), r) (\<lambda>_ s.
            let pr = fetch_percent (fp_current p) (u_TotalBlobsBytes (fst s));
                s1 = set_u (\<lambda>u. u\<lparr>u_FetchedBytes := fp_current p, u_FetchedBlobs := fp_count p,
                       u_Progress := pr, u_State := (if pr = 100 then StateFetched else u_State u)\<rparr>) s
            in final_write X dbf s1)))"
    by (intro sbind_keeps [where P = "wf_state X dbf"]) (simp_all add: Let_def final_write_wf assms(1))
  with b show ?thesis by (simp add: fetch_callback_def)
qed

lemma runner_fetch_wf:
  assumes "runner_fetch X cfg src reports s = Some (s', r)" and "json_ok X" and "effects_keep_db X" and "wf_state X (cf_db_file cfg) s"
  shows "wf_state X (cf_db_file cfg) s'"
proof -
  from assms(1) obtain w r1 where f: "FetchBlobs X cfg (fetch_blob_infos (fst s)) src (snd s) = Some (w, r1)"
    and s': "sbind (sfor (fetch_callback X (cf_db_file cfg)) reports (fst s, w)) (\<lambda>_ s. (s, r1)) = (s', r)"
    by (auto simp: runner_fetch_def split: option.splits)
  have "wf_state X (cf_db_file cfg) (fst s, w)"
    using FetchBlobs_db [OF f assms(3)] assms(4) wf_state_cong [of "(fst s, w)" s X] by simp
  then have "wf_state X (cf_db_file cfg) (fst (sfor (fetch_callback X (cf_db_file cfg)) reports (fst s, w)))"
    by (intro sfor_keeps [where P = "wf_state X (cf_db_file cfg)"]) (simp_all add: fetch_callback_wf assms(2))
  then have "wf_state X (cf_db_file cfg) (fst (sbind (sfor (fetch_callback X (cf_db_file cfg)) reports (fst s, w)) (\<lambda>_ s. (s, r1))))"
    by (intro sbind_keeps [where P = "wf_state X (cf_db_file cfg)"]) simp_all
  with s' show ?thesis by simp
qed

lemma Fetch_wf:
  assumes "Fetch X cfg src reports s = Some (s', r)" and "json_ok X" and "effects_keep_db X" and "wf_state X (cf_db_file cfg) s"
  shows "wf_state X (cf_db_file cfg) s'"
proof -
  obtain s1 r1 where e: "enter X (cf_db_file cfg) ''fetch'' [StateInitialized, StateFetching, StateFetched] StateFetching s = (s1, r1)"
    by (metis surj_pair)
  with enter_wf [OF assms(2,4)] have s1: "wf_state X (cf_db_file cfg) s1" by (metis fst_conv)
  show ?thesis
  proof (cases r1)
    case (Ok u)
    define res where "res = (if u_Blobs (fst s1) \<noteq> [] then runner_fetch X cfg src reports s1 else Some (s1, Ok ()))"
    have "map_option (\<lambda>body. with_deferred body (fetch_deferred X cfg)) res = Some (s', r)"
      using assms(1) by (cases "u_Blobs (fst s1) = []") (simp_all add: Fetch_def e Ok res_def del: map_option_eq_Some)
    then obtain body where b: "with_deferred body (fetch_deferred X cfg) = (s', r)" and "res = Some body"
      unfolding map_option_eq_Some by blast
    then have run: "(if u_Blobs (fst s1) \<noteq> [] then runner_fetch X cfg src reports s1 else Some (s1, Ok ())) = Some body"
      by (simp only: res_def)
    have "wf_state X (cf_db_file cfg) (fst body)"
    proof (cases "u_Blobs (fst s1) \<noteq> []")
      case True
      with run have "runner_fetch X cfg src reports s1 = Some (fst body, snd body)" by simp
      from runner_fetch_wf [OF this assms(2,3) s1] show ?thesis .
    next
      case False
      with run s1 show ?thesis by auto
    qed
    then have "wf_state X (cf_db_file cfg) (fst (with_deferred body (fetch_deferred X cfg)))"
      by (rule with_deferred_wf) (rule fetch_deferred_wf [OF assms(2)])
    with b show ?thesis by simp
  qed (use assms(1) e s1 in \<open>simp_all add: Fetch_def\<close>)
qed


lemma runner_install_wf:
  assumes "json_ok X" and "effects_keep_db X" and "wf_state X (cf_db_file cfg) s"
  shows "wf_state X (cf_db_file cfg) (fst (runner_install X cfg sched s))"
proof -
  have one: "wf_state X (cf_db_file cfg) (fst (install_one X cfg sched uri s1))" if "wf_state X (cf_db_file cfg) s1" for uri s1
  proof -
    obtain w evs r where i: "Install X cfg uri True (snd s1) = (w, evs, r)" by (metis prod_cases3)
    with Install_db [OF assms(2), of cfg uri True "snd s1"] have "w_db w = w_db (snd s1)" by simp
    then have "wf_state X (cf_db_file cfg) (fst s1, w)" using wf_state_cong [of "(fst s1, w)" s1 X] that by simp
    with i show ?thesis by (simp add: install_one_def)
  qed
  show ?thesis
    unfolding runner_install_def Let_def
    by (intro sbind_keeps [where P = "wf_state X (cf_db_file cfg)"] sfor_keeps [where P = "wf_state X (cf_db_file cfg)"])
       (simp_all add: one assms(3))
qed

lemma runner_start_wf:
  assumes "effects_keep_db X" and "wf_state X (cf_db_file cfg) s"
  shows "wf_state X (cf_db_file cfg) (fst (runner_start X cfg s))"
proof -
  obtain w evs r where i: "StartApps X cfg (u_URIs (fst s)) (snd s) = (w, evs, r)" by (metis prod_cases3)
  with StartApps_db [OF assms(1), of cfg "u_URIs (fst s)" "snd s"] have "w_db w = w_db (snd s)" by simp
  then have "wf_state X (cf_db_file cfg) (fst s, w)" using wf_state_cong [of "(fst s, w)" s X] assms(2) by simp
  with i show ?thesis by (simp add: runner_start_def Let_def)
qed

lemma runner_cancel_wf:
  "effects_keep_db X \<Longrightarrow> wf_state X (cf_db_file cfg) s \<Longrightarrow> wf_state X (cf_db_file cfg) (fst (runner_cancel X cfg s))"
  using wf_state_cong [of "fst (runner_cancel X cfg s)" s X] runner_cancel_db [of X cfg s] by simp

lemma runner_complete_wf:
  assumes "effects_keep_db X" and "wf_state X (cf_db_file cfg) s"
  shows "wf_state X (cf_db_file cfg) (fst (case runner_complete X cfg opts uris (snd s) of (w, r) \<Rightarrow> ((fst s, w), r)))"
proof -
  obtain w r where i: "runner_complete X cfg opts uris (snd s) = (w, r)" by force
  with runner_complete_db [OF assms(1), of cfg opts uris "snd s"] have "w_db w = w_db (snd s)" by simp
  then have "wf_state X (cf_db_file cfg) (fst s, w)" using wf_state_cong [of "(fst s, w)" s X] assms(2) by simp
  with i show ?thesis by simp
qed

text \<open>Initialising writes the record after every node and has no other effect.\<close>

definition wf_acc :: "('x, 'z) usys_scheme \<Rightarrow> path \<Rightarrow> 'x init_acc \<Rightarrow> bool" where
  "wf_acc X dbf acc \<longleftrightarrow> db_wf X dbf (ia_w acc)"

lemma init_add_blob_wf: "wf_acc X (cf_db_file cfg) acc \<Longrightarrow> wf_acc X (cf_db_file cfg) (fst (init_add_blob X cfg app node bs acc))"
  by (auto simp: init_add_blob_def Let_def slift_def sbind_pair wf_acc_def split: prod.splits res.splits)

lemma init_report_wf:
  assumes "json_ok X" and "wf_acc X dbf acc"
  shows "wf_acc X dbf (fst (init_report X dbf rep tot acc))"
proof -
  let ?u = "(ia_u acc)\<lparr>u_TotalBlobsBytes := ia_download acc,
    u_Progress := float_percent (if rep then ia_current acc + 1 else ia_current acc) tot\<rparr>"
  obtain u' w' r where w: "session_write X dbf (?u, ia_w acc) = ((u', w'), r)" by (metis surj_pair)
  from session_write_keeps_wf [OF assms(1) _ w] assms(2) have "db_wf X dbf w'" by (simp add: wf_acc_def)
  with w show ?thesis by (simp add: init_report_def Let_def wf_acc_def)
qed

lemma init_visit_wf:
  assumes "json_ok X" and "wf_acc X (cf_db_file cfg) acc"
  shows "wf_acc X (cf_db_file cfg) (fst (init_visit X cfg store rep tot app node acc))"
proof -
  have "wf_acc X (cf_db_file cfg) (fst (sbind (init_add_blob X cfg app node bs acc) (\<lambda>_. init_report X (cf_db_file cfg) rep tot)))" for bs
    by (rule sbind_keeps [where P = "wf_acc X (cf_db_file cfg)"]) (simp_all add: init_add_blob_wf init_report_wf assms)
  then show ?thesis
    by (simp add: init_visit_def slift_def sbind_pair init_report_wf assms split: option.splits res.splits)
qed

lemma initUpdate_wf:
  assumes "json_ok X" and "wf_state X (cf_db_file cfg) s"
  shows "wf_state X (cf_db_file cfg) (fst (initUpdate X cfg rep s))"
proof -
  have walk: "wf_acc X (cf_db_file cfg) (fst (init_walk X cfg store rep tot app acc))" if "wf_acc X (cf_db_file cfg) acc" for store rep tot app acc
    unfolding init_walk_def fst_swap
    by (rule Walk_keeps [where P = "wf_acc X (cf_db_file cfg)"]) (simp_all add: init_visit_wf assms(1) that)
  have "wf_acc X (cf_db_file cfg) (fst (sfor (init_walk X cfg store rep tot) apps acc))" if "wf_acc X (cf_db_file cfg) acc" for store rep tot apps acc
    by (rule sfor_keeps [where P = "wf_acc X (cf_db_file cfg)"]) (simp_all add: walk that)
  then have loop: "wf_state X (cf_db_file cfg) (ia_state (fst (sfor (init_walk X cfg store rep tot) apps acc)))"
    if "wf_acc X (cf_db_file cfg) acc" for store rep tot apps acc
    using that by (simp add: wf_acc_def wf_state_def ia_state_def)
  have start: "wf_acc X (cf_db_file cfg) \<lparr>ia_u = u, ia_w = snd s, ia_download = 0, ia_current = 0\<rparr>" for u
    using assms(2) by (simp add: wf_acc_def wf_state_def)
  show ?thesis
    by (simp add: initUpdate_def slift_def serr_def sbind_pair Let_def loop start assms(2)
        split: res.splits prod.splits option.splits)
qed

lemma Init_wf:
  assumes "json_ok X" and "wf_state X (cf_db_file cfg) s"
  shows "wf_state X (cf_db_file cfg) (fst (Init X cfg uris options s))"
proof (cases "db_open_err X (snd s) (cf_db_file cfg) False")
  case None
  define opts where "opts = InitOptions options"
  show ?thesis
  proof (cases "init_begin (in_allow_empty opts) uris (fst s)")
    case (Ok u)
    let ?s = "(u\<lparr>u_State := StateInitializing\<rparr>, snd s)"
    have "wf_state X (cf_db_file cfg) ?s" using wf_state_cong [of ?s s X] assms(2) by simp
    then have "wf_state X (cf_db_file cfg) (fst (sbind (session_write X (cf_db_file cfg) ?s) (\<lambda>_ s.
        with_deferred (if u_URIs (fst s) \<noteq> [] then initUpdate X cfg (in_reporter opts) s else (s, Ok ()))
          (init_deferred X cfg (in_check_status opts)))))"
      by (intro sbind_keeps [where P = "wf_state X (cf_db_file cfg)"] with_deferred_wf)
         (simp_all add: session_write_wf initUpdate_wf init_deferred_wf assms(1))
    then show ?thesis
      using None Ok unfolding opts_def by (simp add: Init_def Let_def lock_def slift_def)
  qed (use None assms(2) in \<open>simp_all add: Init_def Let_def lock_def slift_def opts_def\<close>)
qed (simp add: Init_def Let_def lock_def assms(2))

section \<open>Every call\<close>

lemma run_call_wf:
  assumes "run_call X cfg c s = Some (s', r)" and "json_ok X" and "effects_keep_db X" and "wf_state X (cf_db_file cfg) s"
  shows "wf_state X (cf_db_file cfg) s'"
proof (cases c)
  case (CInit uris options)
  with assms(1) Init_wf [OF assms(2,4), of uris options] show ?thesis by simp
next
  case (CFetch src reports)
  with assms Fetch_wf show ?thesis by simp
next
  case (CInstall sched)
  have "wf_state X (cf_db_file cfg) (fst (runner_Install X cfg sched s))"
    unfolding runner_Install_def
    by (intro entered_wf with_deferred_wf runner_install_wf finish_state_wf) (rule assms(2-4) | assumption)+
  with assms(1) CInstall show ?thesis by simp
next
  case CStart
  have "wf_state X (cf_db_file cfg) (fst (runner_Start X cfg s))"
    unfolding runner_Start_def
    by (intro entered_wf with_deferred_wf finish_state_wf if_keeps [where P = "wf_state X (cf_db_file cfg)"] runner_start_wf)
       (simp_all add: assms(2-4))
  with assms(1) CStart show ?thesis by simp
next
  case CCancel
  have "wf_state X (cf_db_file cfg) (fst (Cancel X cfg s))"
    unfolding Cancel_def
    by (intro entered_wf with_deferred_wf runner_cancel_wf finish_state_wf) (rule assms(2-4) | assumption)+
  with assms(1) CCancel show ?thesis by simp
next
  case (CComplete options)
  have "wf_state X (cf_db_file cfg) (fst (Complete X cfg options s))"
    unfolding Complete_def Let_def
    by (intro entered_wf with_deferred_wf runner_complete_wf complete_deferred_wf) (rule assms(2-4) | assumption)+
  with assms(1) CComplete show ?thesis by simp
qed

lemma run_calls_wf:
  assumes "run_calls X cfg cs s = Some s'" and "json_ok X" and "effects_keep_db X" and "wf_state X (cf_db_file cfg) s"
  shows "wf_state X (cf_db_file cfg) s'"
  using assms(1,4)
proof (induction cs arbitrary: s)
  case (Cons c cs)
  from Cons.prems(1) obtain s1 r where "run_call X cfg c s = Some (s1, r)" "run_calls X cfg cs s1 = Some s'"
    by (auto split: option.splits prod.splits)
  with Cons run_call_wf [OF _ assms(2,3)] show ?case by blast
qed simp

end
