(* ===== verification/RunnerCalls.thy ===== *)
theory RunnerCalls
  imports RunnerDb
begin

text \<open>
  What every call of a runner promises, as an interface: it follows the machine of the states, keeps the database
  well formed, and when it succeeds its last act is to write the record.  A client of the interface, such as the next
  command that is run on the device, finds in the database exactly the update that the call left.
\<close>

section \<open>What is recorded\<close>

text \<open>The newest record of the database is the update of the runner.\<close>

definition recorded :: "('x, 'z) usys_scheme \<Rightarrow> path \<Rightarrow> 'x rstate \<Rightarrow> bool" where
  "recorded X dbf s \<longleftrightarrow>
     (\<exists>b k d es. w_db (snd s) dbf = Some b \<and> distinct (map fst b) \<and> cursor_back b = (k, d) # es \<and>
        json_update X (fst s) = Ok d)"

text \<open>
  The last write has failed, of which the call says nothing: the record could not be encoded, or the database did not
  take it.  The world is then what it was before the write.
\<close>

definition write_failed :: "('x, 'z) usys_scheme \<Rightarrow> path \<Rightarrow> 'x rstate \<Rightarrow> bool" where
  "write_failed X dbf s \<longleftrightarrow>
     (\<exists>e. json_update X (fst s) = Fail e) \<or> (\<exists>e. db_commit_err X (snd s) dbf = Some e)"

definition db_opens :: "('x, 'z) usys_scheme \<Rightarrow> path \<Rightarrow> 'x world \<Rightarrow> bool" where
  "db_opens X dbf w \<longleftrightarrow> (\<forall>ro. db_open_err X w dbf ro = None)"

lemma cursor_back_has: "cursor_back b = (k, v) # es \<Longrightarrow> gm_has b k"
  by (metis gm_has_iff image_eqI fst_conv list.set_intros(1) set_cursor_back)

text \<open>The error of the last write is only printed: the record is there, or that write has failed.\<close>

lemma final_write_recorded:
  assumes "final_write X dbf s = (s', Ok ())" and "wf_state X dbf s'"
  shows "recorded X dbf s' \<or> write_failed X dbf s'"
proof -
  obtain r where w: "session_write X dbf (fst s, snd s) = ((fst s', snd s'), r)" and r: "\<forall>m. r \<noteq> Panic m"
    using assms(1) by (cases "session_write X dbf s") (auto simp: final_write_def split: res.splits)
  show ?thesis
  proof (cases r)
    case (Ok u)
    then have "r = Ok ()" by simp
    from session_write_db(4) [OF w this] obtain b k v es d' where
      b: "w_db (snd s) dbf = Some b" "cursor_back b = (k, v) # es" "json_update X (fst s') = Ok d'"
        "w_db (snd s') dbf = Some (gm_put k d' b)" by blast
    have dist: "distinct (map fst (gm_put k d' b))"
      using assms(2) b(4) by (simp add: wf_state_def db_wf_def)
    then have "distinct (map fst b)" by (simp add: fst_gm_put_existing [OF cursor_back_has [OF b(2)]])
    from cursor_back_put_last [OF this b(2)] b(3,4) dist show ?thesis
      by (simp add: recorded_def)
  next
    case (Fail e)
    with w have "write_failed X dbf s'"
      by (auto simp: session_write_def Let_def db_put_def write_failed_def split: option.splits list.splits res.splits)
    then show ?thesis ..
  qed (use r in simp)
qed

text \<open>What a reader of the database finds: the update of the runner, if it is in one of the states looked for.\<close>

lemma recorded_last_update:
  assumes "recorded X dbf s" and "json_ok X" and "db_opens X dbf w" and "w_db w dbf = w_db (snd s) dbf"
    and "states = [] \<or> u_State (fst s) \<in> set states"
  shows "last_update X dbf states w = (w, Ok (fst s))"
proof -
  from assms(1) obtain b k d es where b: "w_db (snd s) dbf = Some b" "cursor_back b = (k, d) # es"
    "json_update X (fst s) = Ok d" by (auto simp: recorded_def)
  from b(3) assms(2) have "json_to_update X d = Ok (fst s)" by (simp add: json_ok_def)
  then show ?thesis using assms(3-5) b(1,2)
    by (auto simp: last_update_def newStore_def slift_def getLastUpdateWithAnyOfStates_def db_opens_def IsOneOf_def)
qed

lemma recorded_final_none_current:
  assumes "recorded X dbf s" and "wf_state X dbf s" and "db_opens X dbf w" and "w_db w dbf = w_db (snd s) dbf"
    and "json_ok X" and "u_State (fst s) \<in> set final_states"
  shows "last_update X dbf current_states w = (w, Fail ErrUpdateNotFound)"
proof -
  from assms(1) obtain b k d es where b: "w_db (snd s) dbf = Some b" "cursor_back b = (k, d) # es"
    "json_update X (fst s) = Ok d" by (auto simp: recorded_def)
  from b(3) assms(5) have d: "json_to_update X d = Ok (fst s)" by (simp add: json_ok_def)
  from assms(2) b(1,2) obtain us where us: "map_res (\<lambda>e. json_to_update X (snd e)) (cursor_back b) = Ok us"
    "\<forall>u\<in>set (tl us). u_State u \<in> set final_states"
    by (auto simp: wf_state_def db_wf_def bucket_updates_def)
  from us(1) b(2) d obtain us' where us': "us = fst s # us'" by (auto simp: rbind_Ok_iff)
  have "current_states \<noteq> []" by (simp add: current_states_def)
  then have "find (\<lambda>u. current_states = [] \<or> u_State u \<in> set current_states) us = None"
    using us(2) us' assms(6) by (simp add: find_None_iff states_split)
  then have "find_update X current_states (cursor_back b) = Fail ErrUpdateNotFound"
    by (simp add: find_update_eq [OF us(1)])
  then show ?thesis using assms(3,4) b(1)
    by (simp add: last_update_def newStore_def slift_def getLastUpdateWithAnyOfStates_def db_opens_def)
qed

section \<open>The last act of a call\<close>

definition ends_written :: "('x, 'z) usys_scheme \<Rightarrow> path \<Rightarrow> 'x rstate \<Rightarrow> bool" where
  "ends_written X dbf s' \<longleftrightarrow> (\<exists>s. final_write X dbf s = (s', Ok ()))"

text \<open>A deferred block either panics or ends with the write.\<close>

definition writes_last ::
  "('x, 'z) usys_scheme \<Rightarrow> path \<Rightarrow> (error option \<Rightarrow> 'x rstate \<Rightarrow> 'x rstate \<times> unit res) \<Rightarrow> bool" where
  "writes_last X dbf deferred \<longleftrightarrow>
     (\<forall>e s s' r. deferred e s = (s', r) \<longrightarrow> (\<exists>m. r = Panic m) \<or> ends_written X dbf s')"

lemma final_write_ends: "final_write X dbf s = (s', r) \<Longrightarrow> (\<exists>m. r = Panic m) \<or> ends_written X dbf s'"
  using final_write_parts(3) [of X dbf s s' r] unfolding ends_written_def by blast

lemma with_deferred_ends:
  assumes "with_deferred body deferred = (s', Ok ())" and "writes_last X dbf deferred"
  shows "ends_written X dbf s'"
proof -
  obtain s2 r2 where d: "deferred (deferred_err (snd body)) (fst body) = (s2, r2)" by (metis surj_pair)
  with assms(1) have "s' = s2" "\<forall>m. r2 \<noteq> Panic m" by (cases r2; simp add: with_deferred_def)+
  with d assms(2) show ?thesis unfolding writes_last_def by metis
qed

lemma finish_state_last: "writes_last X dbf (finish_state X dbf f)"
  unfolding writes_last_def finish_state_def by (auto dest: final_write_ends split: option.splits if_splits)

lemma complete_deferred_last: "writes_last X dbf (complete_deferred X dbf force)"
  unfolding writes_last_def complete_deferred_def
  by (auto dest: final_write_ends split: option.splits if_splits)

lemma fetch_deferred_last: "writes_last X (cf_db_file cfg) (fetch_deferred X cfg)"
  unfolding writes_last_def fetch_deferred_def Let_def
  by (auto dest: final_write_ends split: option.splits if_splits res.splits prod.splits)

lemma status_state_not_Fail: "status_state X cfg s \<noteq> Fail e"
  by (auto simp: status_state_def rcatch_Fail_iff rbind_Fail_iff AreInstalled_def AreRunning_def Let_def
      split: option.splits)

lemma init_deferred_last: "writes_last X (cf_db_file cfg) (init_deferred X cfg chk)"
proof -
  have "(\<exists>m. r = Panic m) \<or> ends_written X (cf_db_file cfg) s'" if "init_deferred X cfg chk e s = (s', r)" for e s s' r
  proof (cases e)
    case None
    define s1 where "s1 = set_u (\<lambda>u. u\<lparr>u_Progress := 100, u_State := StateInitialized\<rparr>) s"
    define q where "q = (if chk \<and> u_Blobs (fst s1) = [] \<and> u_TotalBlobsBytes (fst s1) = 0
      then status_state X cfg s1 else Ok StateInitialized)"
    have "init_deferred X cfg chk None s = sbind (s1, q) (\<lambda>st s.
        final_write X (cf_db_file cfg) (set_u (\<lambda>u. u\<lparr>u_State := st, u_InitTime := w_clock (snd s)\<rparr>) s))"
      by (simp add: init_deferred_def Let_def s1_def q_def slift_def)
    with that None have i: "sbind (s1, q) (\<lambda>st s.
        final_write X (cf_db_file cfg) (set_u (\<lambda>u. u\<lparr>u_State := st, u_InitTime := w_clock (snd s)\<rparr>) s)) = (s', r)" by simp
    have "q \<noteq> Fail err" for err by (simp add: q_def status_state_not_Fail)
    with i show ?thesis by (cases q) (auto dest: final_write_ends)
  next
    case (Some err)
    with that show ?thesis by (auto simp: init_deferred_def dest: final_write_ends split: if_splits)
  qed
  then show ?thesis unfolding writes_last_def by blast
qed

section \<open>The interface\<close>

locale runner_call =
  fixes X :: "('x, 'z) usys_scheme" and kind :: call_kind and force :: bool
    and run :: "'x rstate \<Rightarrow> ('x rstate \<times> unit res) option"
  assumes result: "run s = Some (s', r) \<Longrightarrow> call_result kind force s s' r"
begin

lemma step: "run s = Some (s', r) \<Longrightarrow> update_step kind (u_State (fst s)) (u_State (fst s'))"
  by (rule call_result_step) (rule result)

lemma refused_when_final:
  assumes "run s = Some (s', r)" and "u_State (fst s) \<in> set final_states"
  shows "s' = s \<and> (\<exists>e. r = Fail e)"
proof -
  have "u_State (fst s) \<notin> set (entry_states kind)"
    using assms(2) by (cases kind) (auto simp: final_states_def)
  with result [OF assms(1)] show ?thesis by (simp add: call_result_def)
qed

lemma success: "run s = Some (s', Ok ()) \<Longrightarrow> u_State (fst s') \<in> set (success_states kind)"
  using result [of s s' "Ok ()"] by (simp add: call_result_def)

end

text \<open>A call that also keeps the database, and writes the record as its last act.\<close>

locale recorded_call = runner_call X kind force run
  for X :: "('x, 'z) usys_scheme" and kind force run +
  fixes dbf :: path
  assumes keeps_db: "run s = Some (s', r) \<Longrightarrow> json_ok X \<Longrightarrow> effects_keep_db X \<Longrightarrow> wf_state X dbf s \<Longrightarrow> wf_state X dbf s'"
    and written: "run s = Some (s', Ok ()) \<Longrightarrow> ends_written X dbf s'"
begin

lemma success_recorded:
  assumes "run s = Some (s', Ok ())" and "json_ok X" and "effects_keep_db X" and "wf_state X dbf s"
  shows "recorded X dbf s' \<or> write_failed X dbf s'"
proof -
  from written [OF assms(1)] obtain s0 where "final_write X dbf s0 = (s', Ok ())" by (auto simp: ends_written_def)
  from final_write_recorded [OF this] keeps_db [OF assms] show ?thesis by blast
qed

lemma found_next:
  assumes "run s = Some (s', Ok ())" and "json_ok X" and "effects_keep_db X" and "wf_state X dbf s"
    and "\<not> write_failed X dbf s'" and "db_opens X dbf w" and "w_db w dbf = w_db (snd s') dbf"
  shows "last_update X dbf [] w = (w, Ok (fst s'))"
    and "u_State (fst s') \<in> set current_states \<Longrightarrow> last_update X dbf current_states w = (w, Ok (fst s'))"
    and "u_State (fst s') \<in> set final_states \<Longrightarrow>
      last_update X dbf final_states w = (w, Ok (fst s')) \<and>
      last_update X dbf current_states w = (w, Fail ErrUpdateNotFound)"
proof -
  have rec: "recorded X dbf s'" using success_recorded [OF assms(1-4)] assms(5) by blast
  note last = recorded_last_update [OF rec assms(2,6,7)]
  show "last_update X dbf [] w = (w, Ok (fst s'))" by (rule last) simp
  show "u_State (fst s') \<in> set current_states \<Longrightarrow> last_update X dbf current_states w = (w, Ok (fst s'))"
    by (rule last) simp
  show "u_State (fst s') \<in> set final_states \<Longrightarrow>
      last_update X dbf final_states w = (w, Ok (fst s')) \<and>
      last_update X dbf current_states w = (w, Fail ErrUpdateNotFound)"
    using last recorded_final_none_current [OF rec keeps_db [OF assms(1-4)] assms(6,7,2)] by blast
qed

end

section \<open>Every call keeps to it\<close>

lemma entered_ends:
  assumes "sbind (enter X dbf op sts st s) (\<lambda>_ s. with_deferred (body s) (dfr s)) = (s', Ok ())"
    and "\<And>s. writes_last X dbf (dfr s)"
  shows "ends_written X dbf s'"
  using assms(1) by (auto simp: sbind_Ok_iff intro: with_deferred_ends [OF _ assms(2)])

lemma Init_ends:
  assumes "Init X cfg uris options s = (s', Ok ())"
  shows "ends_written X (cf_db_file cfg) s'"
  using assms
  by (auto simp: Init_def Let_def lock_def stmt_iffs split: option.splits
      intro: with_deferred_ends [OF _ init_deferred_last])

lemma Fetch_ends:
  assumes "Fetch X cfg src reports s = Some (s', Ok ())"
  shows "ends_written X (cf_db_file cfg) s'"
  using assms
  by (auto simp: Fetch_def split: prod.splits res.splits if_splits
      intro: with_deferred_ends [OF _ fetch_deferred_last])

lemma run_call_ends:
  assumes "run_call X cfg c s = Some (s', Ok ())"
  shows "ends_written X (cf_db_file cfg) s'"
proof (cases c)
  case (CInit uris options)
  with assms show ?thesis by (auto intro: Init_ends)
next
  case (CFetch src reports)
  with assms show ?thesis by (auto intro: Fetch_ends)
next
  case (CInstall sched)
  with assms have "runner_Install X cfg sched s = (s', Ok ())" by simp
  then show ?thesis unfolding runner_Install_def by (rule entered_ends) (rule finish_state_last)
next
  case CStart
  with assms have "runner_Start X cfg s = (s', Ok ())" by simp
  then show ?thesis unfolding runner_Start_def by (rule entered_ends) (rule finish_state_last)
next
  case CCancel
  with assms have "Cancel X cfg s = (s', Ok ())" by simp
  then show ?thesis unfolding Cancel_def by (rule entered_ends) (rule finish_state_last)
next
  case (CComplete options)
  with assms have "Complete X cfg options s = (s', Ok ())" by simp
  then show ?thesis unfolding Complete_def Let_def by (rule entered_ends) (rule complete_deferred_last)
qed

interpretation any_call: recorded_call X "call_kind_of c" "call_force c" "run_call X cfg c" "cf_db_file cfg"
  for X :: "('x, 'z) usys_scheme" and cfg c
  by unfold_locales (rule run_call_result run_call_wf run_call_ends; assumption)+

lemma run_call_fun:
  "(\<lambda>s. Some (runner_Install X cfg sched s)) = run_call X cfg (CInstall sched)"
  "(\<lambda>s. Some (runner_Start X cfg s)) = run_call X cfg CStart"
  "(\<lambda>s. Some (Complete X cfg options s)) = run_call X cfg (CComplete options)"
  by (rule ext, simp)+

interpretation install_call: recorded_call X KInstall False "\<lambda>s. Some (runner_Install X cfg sched s)" "cf_db_file cfg"
  for X :: "('x, 'z) usys_scheme" and cfg sched
  unfolding run_call_fun using any_call.recorded_call_axioms [of X "CInstall sched" cfg] by simp

interpretation start_call: recorded_call X KStart False "\<lambda>s. Some (runner_Start X cfg s)" "cf_db_file cfg"
  for X :: "('x, 'z) usys_scheme" and cfg
  unfolding run_call_fun using any_call.recorded_call_axioms [of X CStart cfg] by simp

interpretation complete_call:
  recorded_call X KComplete "co_force (CompleteOpts options)" "\<lambda>s. Some (Complete X cfg options s)" "cf_db_file cfg"
  for X :: "('x, 'z) usys_scheme" and cfg options
  unfolding run_call_fun using any_call.recorded_call_axioms [of X "CComplete options" cfg] by simp

end
