(* ===== verification/UpdateProps.thy ===== *)
theory UpdateProps
  imports Samples RunnerCalls
begin

text \<open>
  The properties of updates: the database of updates, the calls of a runner and the states they
  lead through.
\<close>

text \<open>A database that keeps only the state of a record, for runs that do not read it back.\<close>

definition state_update :: "bytes \<Rightarrow> update res" where
  "state_update b = Ok ((new_update ''01'' ''r'' 0)\<lparr>u_State :=
     (case filter (\<lambda>s. State_String s = b) (current_states @ final_states) of s # _ \<Rightarrow> s | [] \<Rightarrow> StateFailed)\<rparr>)"

definition run_sys :: "daemon usys" where
  "run_sys = sample_sys\<lparr>json_update := \<lambda>u. Ok (State_String (u_State u)), json_to_update := state_update\<rparr>"

definition run_start :: "daemon rstate" where
  "run_start = (new_update ''01'' ''r'' 0, with_db (cf_db_file sample_config) [(''01:cref:r'', ''created'')] empty_world)"

definition empty_run :: "call list" where
  "empty_run = [CInit [] [WithInitAllowEmptyAppList True], CFetch None [], CInstall id, CStart, CComplete []]"

definition run_end :: "(ustate \<times> int \<times> (bytes, bytes) gomap option) option" where
  "run_end = map_option (\<lambda>s. (u_State (fst s), u_Progress (fst s), w_db (snd s) (cf_db_file sample_config)))
     (run_calls run_sys sample_config empty_run run_start)"

lemma run_end_eq: "run_end = Some (StateCompleted, 100, Some [(''01:cref:r'', ''completed'')])"
  by code_simp

section \<open>The runner and its states\<close>

text \<open>C?: The calls made on a runner, in any order and with any results, move the update along the
  machine of \<open>update_step\<close>: a call outside its entry states changes nothing, and otherwise leaves
  its working state, one of its success states or (except a completion) the failed state.\<close>
theorem runner_follows_machine:
  assumes "run_calls X cfg cs s = Some s'"
  shows "update_run (map call_kind_of cs) (u_State (fst s)) (u_State (fst s'))"
  using assms by (rule run_calls_refine)

lemma run_end_State: "run_calls run_sys sample_config empty_run run_start = Some s \<Longrightarrow> u_State (fst s) = StateCompleted"
  using run_end_eq by (auto simp: run_end_def)

lemma run_end_ex: "\<exists>s. run_calls run_sys sample_config empty_run run_start = Some s"
  using run_end_eq by (auto simp: run_end_def)

theorem runner_follows_machine_witness:
  "update_run [KInit, KFetch, KInstall, KStart, KComplete] StateCreated StateCompleted"
proof -
  from run_end_ex obtain s where s: "run_calls run_sys sample_config empty_run run_start = Some s" ..
  from runner_follows_machine [OF s] run_end_State [OF s] show ?thesis
    by (simp add: empty_run_def run_start_def new_update_def)
qed



text \<open>C11: An update that is completed, failed or canceled stays so: every call on its runner is refused and
  changes neither the update nor anything else.\<close>
theorem final_states_final:
  assumes "u_State (fst s) \<in> set final_states" and "run_call X cfg c s = Some (s', r)"
  shows "s' = s \<and> (\<exists>e. r = Fail e)"
  using assms(2,1) by (rule any_call.refused_when_final)

theorem final_states_final_witness:
  "\<exists>s' r. run_call run_sys sample_config CStart
      (set_u (\<lambda>u. u\<lparr>u_State := StateFailed\<rparr>) run_start) = Some (s', r) \<and>
    s' = set_u (\<lambda>u. u\<lparr>u_State := StateFailed\<rparr>) run_start \<and> (\<exists>e. r = Fail e)"
proof -
  let ?s = "set_u (\<lambda>u. u\<lparr>u_State := StateFailed\<rparr>) run_start"
  obtain s' r where c: "run_call run_sys sample_config CStart ?s = Some (s', r)"
    by (metis run_call.simps(4) surj_pair)
  have "u_State (fst ?s) \<in> set final_states" by (simp add: final_states_def)
  from final_states_final [OF this c] c show ?thesis by blast
qed

text \<open>No sequence of calls takes a new update to the completed state without initialising it first and
  completing it after that.\<close>
theorem completion_needs_init:
  assumes "run_calls X cfg cs s = Some s'"
    and "u_State (fst s) = StateCreated" and "u_State (fst s') = StateCompleted"
  shows "subseq [KInit, KComplete] (map call_kind_of cs)"
  using update_run_init_first [OF run_calls_refine [OF assms(1)] assms(2,3)] .

theorem completion_needs_init_witness: "subseq [KInit, KComplete] (map call_kind_of empty_run)"
proof -
  from run_end_ex obtain s where s: "run_calls run_sys sample_config empty_run run_start = Some s" ..
  have "u_State (fst run_start) = StateCreated" by (simp add: run_start_def new_update_def)
  from completion_needs_init [OF s this run_end_State [OF s]] show ?thesis .
qed


section \<open>The database of updates\<close>

text \<open>A run that is canceled at once, with a database that can be read back.\<close>

definition cancel_table :: "update list" where
  "cancel_table = map (\<lambda>st. (new_update ''02'' ''r'' 0)\<lparr>u_State := st\<rparr>) [StateCreated, StateCancelling, StateCanceled]"

definition cancel_sys :: "daemon usys" where "cancel_sys = sample_usys cancel_table"

lemma sample_usys_fields [simp]:
  "json_update (sample_usys tbl) = table_enc tbl" "json_to_update (sample_usys tbl) = table_dec tbl"
  "ulid_new (sample_usys tbl) = (\<lambda>w. Ok ''02'')" "db_open_err (sample_usys tbl) = (\<lambda>w p ro. None)"
  "db_commit_err (sample_usys tbl) = (\<lambda>w p. None)"
  by (simp_all add: sample_usys_def sample_sys0_def sys.defs lib.defs usys.defs)

lemma sample_json_ok: "json_ok (sample_usys tbl)"
  by (simp add: json_ok_def table_round_trip)

lemma sample_keeps_db: "effects_keep_db (sample_usys tbl)"
  by (auto simp: effects_keep_db_def sample_usys_def sample_sys0_def sys.defs lib.defs usys.defs store_copy_def
      sample_load_def split: res.splits)

lemma sample_db_errors: "db_errors_ok (sample_usys tbl)"
  by (simp add: db_errors_ok_def)

definition created_world :: "path \<Rightarrow> daemon world" where
  "created_world p = with_db p [(''02:cref:r'', '''')] empty_world"

definition created_update :: update where
  "created_update = new_update ''02'' ''r'' 0"

abbreviation created_run :: "daemon rstate" where
  "created_run \<equiv> (created_update, created_world (cf_db_file sample_config))"

lemma created_world_wf: "db_wf cancel_sys p (created_world p)"
proof -
  have "succeeds_with (\<lambda>us. tl us = []) (bucket_updates cancel_sys [(''02:cref:r'', '''')])" by code_simp
  then show ?thesis by (auto simp: db_wf_def created_world_def elim!: succeeds_withE)
qed

text \<open>C6: At most one update is in progress: whatever calls are made on a runner and however they end, all the records of
  the database but the newest stay completed, failed or canceled.\<close>
theorem one_update_in_progress:
  assumes "run_calls X cfg cs s = Some s'" and "db_wf X (cf_db_file cfg) (snd s)"
    and "json_ok X" and "effects_keep_db X"
  shows "case w_db (snd s') (cf_db_file cfg) of None \<Rightarrow> True
    | Some b \<Rightarrow> \<exists>us. bucket_updates X b = Ok us \<and> (\<forall>u\<in>set (tl us). u_State u \<in> set final_states)"
  using run_calls_wf [OF assms(1,3,4)] assms(2) by (auto simp: wf_state_def db_wf_def split: option.splits)

theorem one_update_in_progress_witness:
  "\<exists>s'. run_calls cancel_sys sample_config [CCancel] created_run = Some s' \<and>
     (case w_db (snd s') (cf_db_file sample_config) of None \<Rightarrow> True
      | Some b \<Rightarrow> \<exists>us. bucket_updates cancel_sys b = Ok us \<and> (\<forall>u\<in>set (tl us). u_State u \<in> set final_states))"
proof -
  have "\<exists>s'. run_calls cancel_sys sample_config [CCancel] created_run = Some s'"
    by (simp split: prod.split)
  then obtain s' where r: "run_calls cancel_sys sample_config [CCancel] created_run = Some s'" ..
  have "db_wf cancel_sys (cf_db_file sample_config) (snd created_run)" using created_world_wf by simp
  from one_update_in_progress [OF r this] r show ?thesis
    using sample_json_ok sample_keeps_db by (simp add: cancel_sys_def)
qed

text \<open>C7: A new update is created only when none is in progress; it is then the newest record of the database, in the
  state created, over final ones, it is the current update, and a further new update is refused.\<close>
theorem new_update_is_current:
  assumes "NewUpdate X cfg ref w = (w', Ok u)" and "db_wf X (cf_db_file cfg) w" and "db_errors_ok X" and "json_ok X"
    and "fresh_id X (cf_db_file cfg) (fst (newStore X (cf_db_file cfg) w))"
    and "db_open_err X w' (cf_db_file cfg) False = None" and "db_open_err X w' (cf_db_file cfg) True = None"
  shows "u_State u = StateCreated \<and> u_ClientRef u = ref \<and>
    (\<exists>b us. w_db w' (cf_db_file cfg) = Some b \<and> bucket_updates X b = Ok (u # us) \<and> (\<forall>v\<in>set us. u_State v \<in> set final_states)) \<and>
    GetCurrentUpdate X cfg w' = (w', Ok u) \<and>
    NewUpdate X cfg ref' w' = (w', Fail (Err ''update already in progress''))"
proof -
  from NewUpdate_OkE [OF assms(1)] obtain i now where "u = new_update i ref now" by metis
  then have "u_ClientRef u = ref" by (simp add: new_update_def)
  moreover from NewUpdate_bucket [OF assms(1-5)] obtain b us where "u_State u = StateCreated" "w_db w' (cf_db_file cfg) = Some b"
    "bucket_updates X b = Ok (u # us)" "\<forall>v\<in>set us. u_State v \<in> set final_states" by blast
  ultimately show ?thesis
    using NewUpdate_then_current [OF assms] by simp
qed

definition new_world :: "daemon world" where
  "new_world = fst (NewUpdate cancel_sys sample_config ''r'' empty_world)"

theorem new_update_is_current_witness:
  "GetCurrentUpdate cancel_sys sample_config new_world = (new_world, Ok created_update) \<and>
   NewUpdate cancel_sys sample_config ''q'' new_world = (new_world, Fail (Err ''update already in progress''))"
proof -
  have "snd (NewUpdate cancel_sys sample_config ''r'' empty_world) = Ok created_update" by code_simp
  then have n: "NewUpdate cancel_sys sample_config ''r'' empty_world = (new_world, Ok created_update)"
    by (simp add: new_world_def prod_eq_iff)
  have wf: "db_wf cancel_sys (cf_db_file sample_config) empty_world" by (simp add: db_wf_def empty_world_def sample_world_def)
  have fresh: "fresh_id cancel_sys (cf_db_file sample_config) (fst (newStore cancel_sys (cf_db_file sample_config) empty_world))"
    by (simp add: fresh_id_def cancel_sys_def newStore_def empty_world_def sample_world_def)
  from new_update_is_current [OF n wf, of "''q''"] fresh sample_db_errors sample_json_ok show ?thesis
    by (simp add: cancel_sys_def)
qed

text \<open>C8: The outcome of a call that succeeds is in the database of its configuration, for whoever opens it next, unless its
  last write has failed, an error that is only printed: then the record could not be encoded, or the database
  did not take it.  Otherwise the last update that is found is the update of the runner, in a success state of the
  call; it is the current update unless its state is final, and then it is the last ended update and none is
  current.\<close>
theorem call_recorded:
  assumes "run_call X cfg c s = Some (s', Ok ())" and "db_wf X (cf_db_file cfg) (snd s)"
    and "json_ok X" and "effects_keep_db X"
    and "db_open_err X (snd s') (cf_db_file cfg) False = None" and "db_open_err X (snd s') (cf_db_file cfg) True = None"
  shows "u_State (fst s') \<in> set (success_states (call_kind_of c)) \<and>
    ((\<exists>e. json_update X (fst s') = Fail e) \<or> (\<exists>e. db_commit_err X (snd s') (cf_db_file cfg) = Some e) \<or>
     GetLastUpdate X cfg (snd s') = (snd s', Ok (fst s')) \<and>
     (if u_State (fst s') \<in> set final_states
      then GetFinalizedUpdate X cfg (snd s') = (snd s', Ok (fst s')) \<and>
        GetCurrentUpdate X cfg (snd s') = (snd s', Fail ErrUpdateNotFound)
      else GetCurrentUpdate X cfg (snd s') = (snd s', Ok (fst s'))))"
proof (cases "write_failed X (cf_db_file cfg) s'")
  case True
  with any_call.success [OF assms(1)] show ?thesis by (auto simp: write_failed_def)
next
  case False
  have wf: "wf_state X (cf_db_file cfg) s" using assms(2) by (simp add: wf_state_def)
  have op: "db_opens X (cf_db_file cfg) (snd s')"
    unfolding db_opens_def using assms(5,6) by (metis (full_types))
  note found = any_call.found_next [OF assms(1,3,4) wf False op refl]
  show ?thesis
    using any_call.success [OF assms(1)] found states_split [of "u_State (fst s')"]
    unfolding GetLastUpdate_def GetFinalizedUpdate_def GetCurrentUpdate_def by simp
qed

theorem call_recorded_witness:
  "\<exists>s'. run_call cancel_sys sample_config CCancel created_run = Some (s', Ok ()) \<and>
     GetFinalizedUpdate cancel_sys sample_config (snd s') = (snd s', Ok (fst s')) \<and>
     GetCurrentUpdate cancel_sys sample_config (snd s') = (snd s', Fail ErrUpdateNotFound)"
proof -
  obtain s' r where c: "run_call cancel_sys sample_config CCancel created_run = Some (s', r)"
    by (metis run_call.simps(5) surj_pair)
  have ok: "snd (Cancel cancel_sys sample_config created_run) = Ok ()" by code_simp
  have d: "succeeds_with (\<lambda>d. True) (json_update cancel_sys
      (fst (fst (Cancel cancel_sys sample_config created_run))))" by code_simp
  from c ok d obtain d' where r: "r = Ok ()" and d': "json_update cancel_sys (fst s') = Ok d'"
    by (auto elim: succeeds_withE)
  have c': "run_call cancel_sys sample_config CCancel created_run = Some (s', Ok ())" using c r by simp
  have wf: "db_wf cancel_sys (cf_db_file sample_config) (snd created_run)" using created_world_wf by simp
  have "json_ok cancel_sys" "effects_keep_db cancel_sys"
    "db_open_err cancel_sys (snd s') (cf_db_file sample_config) False = None"
    "db_open_err cancel_sys (snd s') (cf_db_file sample_config) True = None"
    "db_commit_err cancel_sys (snd s') (cf_db_file sample_config) = None"
    using sample_json_ok sample_keeps_db by (simp_all add: cancel_sys_def)
  with call_recorded [OF c' wf] d' have "u_State (fst s') \<in> set (success_states KCancel)"
    and "if u_State (fst s') \<in> set final_states
     then GetFinalizedUpdate cancel_sys sample_config (snd s') = (snd s', Ok (fst s')) \<and>
       GetCurrentUpdate cancel_sys sample_config (snd s') = (snd s', Fail ErrUpdateNotFound)
     else GetCurrentUpdate cancel_sys sample_config (snd s') = (snd s', Ok (fst s'))"
    by auto
  then have "GetFinalizedUpdate cancel_sys sample_config (snd s') = (snd s', Ok (fst s')) \<and>
       GetCurrentUpdate cancel_sys sample_config (snd s') = (snd s', Fail ErrUpdateNotFound)"
    by (simp add: final_states_def)
  with c' show ?thesis by blast
qed

text \<open>The count of failed updates of a client is the number of failed ones among the records whose key ends with the
  client's reference, newest first, up to the last one that completed.\<close>
theorem failed_count:
  assumes "db_open_err X w p True = None" and "w_db w p = Some b"
    and "map_res (\<lambda>e. json_to_update X (snd e)) (cursor_back b) = Ok us"
  shows "countFailedUpdates X p sfx w = Ok (int (length
     (filter (\<lambda>u. u_State u = StateFailed)
       (takeWhile (\<lambda>u. u_State u \<noteq> StateCompleted)
         (map snd (filter (\<lambda>(k, u). suffix sfx k) (zip (map fst (cursor_back b)) us)))))))"
  using count_failed_eq [OF assms(3), of sfx 0] assms(1,2) by (simp add: countFailedUpdates_def)

definition failed_db :: "(bytes, bytes) gomap" where
  "failed_db = [(''02:cref:r'', ''failed''), (''01:cref:r'', ''completed''), (''03:cref:q'', ''failed''),
     (''04:cref:r'', ''failed'')]"

theorem failed_count_witness:
  "countFailedUpdates run_sys p ''cref:r'' (with_db p failed_db empty_world) = Ok 2"
proof -
  let ?r = "map_res (\<lambda>e. json_to_update run_sys (snd e)) (cursor_back failed_db)"
  have "succeeds_with (\<lambda>us. length (filter (\<lambda>u. u_State u = StateFailed)
       (takeWhile (\<lambda>u. u_State u \<noteq> StateCompleted)
         (map snd (filter (\<lambda>(k, u). suffix ''cref:r'' k) (zip (map fst (cursor_back failed_db)) us))))) = 2) ?r"
    by code_simp
  then obtain us where us: "?r = Ok us" and n: "length (filter (\<lambda>u. u_State u = StateFailed)
       (takeWhile (\<lambda>u. u_State u \<noteq> StateCompleted)
         (map snd (filter (\<lambda>(k, u). suffix ''cref:r'' k) (zip (map fst (cursor_back failed_db)) us))))) = 2"
    by (rule succeeds_withE)
  have o: "db_open_err run_sys (with_db p failed_db empty_world) p True = None"
    by (simp add: run_sys_def sample_sys_def)
  from failed_count [OF o _ us, of "''cref:r''"] n show ?thesis by simp
qed


section \<open>Completing\<close>

text \<open>C10: A completion that succeeds has found every blob of every app of the update in the store, and intact: reading it
  yields bytes with its digest and the size of its descriptor.\<close>
theorem complete_requires_blobs:
  assumes "runner_complete X cfg opts uris w = (w', Ok ())"
  shows "\<exists>cs. \<forall>uri\<in>set uris. \<exists>app.
    LoadAppTree X ctx_background (appStore_provider X w cs) (platform_match X (cf_platform cfg)) uri = Ok app \<and>
    (\<forall>(n, k)\<in>set (nodes 0 (a_tree app)). d_digest (t_desc n) \<noteq> '''' \<longrightarrow>
       (\<exists>ra b. ls_reader_at X w (d_digest (t_desc n)) = Ok ra \<and> prefix b (src_content ra) \<and>
          dg_hash X b = d_digest (t_desc n) \<and> (0 < d_size (t_desc n) \<longrightarrow> int (length b) = d_size (t_desc n))))"
proof -
  obtain cs where cs: "\<not> as_skopeo cs" "\<forall>uri\<in>set uris. \<exists>app.
      LoadAppTree X ctx_background (appStore_provider X w cs) (platform_match X (cf_platform cfg)) uri = Ok app \<and>
      (\<forall>(n, k)\<in>set (nodes 0 (a_tree app)). blob_present X w cs app n)"
    by (rule runner_complete_checks [OF assms]) (rule that)
  have "\<exists>ra b. ls_reader_at X w (d_digest (t_desc n)) = Ok ra \<and> prefix b (src_content ra) \<and>
      dg_hash X b = d_digest (t_desc n) \<and> (0 < d_size (t_desc n) \<longrightarrow> int (length b) = d_size (t_desc n))"
    if "blob_present X w cs app n" "d_digest (t_desc n) \<noteq> ''''" for app n
    by (rule blob_present_intact [OF that(1) cs(1) that(2)])
  with cs(2) show ?thesis by (intro exI [of _ cs]) fast
qed

text \<open>The blobs of the app are in the store; the store does not list the app.\<close>

definition unlisted_world :: "daemon world" where "unlisted_world = sample_world (base_fs registry)"

lemma sample_completes:
  "succeeds_with (\<lambda>u. True) (snd (runner_complete sample_sys sample_config (CompleteOpts []) [''h/n@A''] unlisted_world))"
  by code_simp

theorem complete_requires_blobs_witness:
  "\<exists>cs app. LoadAppTree sample_sys ctx_background (appStore_provider sample_sys unlisted_world cs)
     (platform_match sample_sys (cf_platform sample_config)) ''h/n@A'' = Ok app"
proof -
  obtain w' r where u: "runner_complete sample_sys sample_config (CompleteOpts []) [''h/n@A''] unlisted_world = (w', r)"
    by (metis surj_pair)
  with sample_completes have r: "r = Ok ()" by (auto elim: succeeds_withE)
  from complete_requires_blobs [OF u [unfolded r]] show ?thesis by auto
qed

end
