(* ===== verification/Registry.thy ===== *)
theory Registry
  imports Provider
begin

text \<open>
  The registry client with which apps are published: \<open>internal/reg_client.go\<close>, which chooses the
  endpoint of a repository and connects to it, and \<open>GetManifestService\<close> and \<open>GetBlobService\<close>
  of \<open>pkg/compose/layers.go\<close>.  The packages that parse normalized references, look endpoints up
  and speak to a registry are parameters, in the record \<open>pub\<close>; the content of the registry is a
  part of the world.
\<close>

section \<open>Data of the client libraries\<close>

text \<open>\<open>reference.Named\<close> of docker/distribution: a tag makes it \<open>Tagged\<close>, a digest \<open>Digested\<close>.\<close>

record named =
  nm_domain :: string
  nm_path :: string
  nm_tag :: "string option"
  nm_digest :: "digest option"

definition named_Name :: "named \<Rightarrow> string" where
  "named_Name n = nm_domain n @ ''/'' @ nm_path n"

definition named_String :: "named \<Rightarrow> string" where
  "named_String n =
     named_Name n @ (case nm_tag n of None \<Rightarrow> '''' | Some t \<Rightarrow> '':'' @ t) @
     (case nm_digest n of None \<Rightarrow> '''' | Some d \<Rightarrow> ''@'' @ d)"

record endpoint =
  ep_url :: string
  ep_scheme :: string
  ep_trim_hostname :: bool
  ep_skip_verify :: bool

record repo_info =
  ri_name :: named
  ri_secure :: bool

record auth_config =
  ac_token :: string
  ac_user :: string

text \<open>What a request is authorized with: the token of the configuration, or a token or basic handler.\<close>

datatype transport = PassThruToken string | TokenOrBasic auth_config string

record repo =
  rpo_name :: string
  rpo_url :: string
  rpo_transport :: transport

text \<open>An image manifest as the client library decodes it.\<close>

record list_entry =
  le_digest :: digest
  le_platform :: platform

datatype reg_manifest =
    ManifestList "list_entry list"
  | Schema2 descriptor "descriptor list"
  | OciSchema descriptor "descriptor list"
  | OtherManifest string

text \<open>A decoded JSON or YAML value; \<open>JOther\<close> is any value that is neither a string nor a map.\<close>

datatype jval = JStr string | JMap "(string, jval) gomap" | JOther string

text \<open>The manifest of an app before it is encoded (\<open>internal/app_manifest_builder.go\<close>).\<close>

record app_manifest =
  am_schema :: int
  am_media :: string
  am_config :: descriptor
  am_annot :: "(string, string) gomap"
  am_artifact :: string
  am_layers :: "descriptor list"
  am_manifests :: "descriptor list"

record app_layers_manifest =
  al_schema :: int
  al_media :: string
  al_arch :: string
  al_layers :: "descriptor list"
  al_annot :: "(string, string) gomap"

text \<open>A compose project as \<open>compose-go\<close> loads it: the services in the order it visits them.\<close>

record proj_service =
  ps_name :: string
  ps_image :: string
  ps_build :: bool
  ps_labels :: "(string, string) gomap option"

section \<open>Parameters\<close>

text \<open>
  \<open>pn_*\<close>: the reference package; \<open>rg_*\<close>: the registry package and the distribution client; \<open>os_environ\<close>: the
  environment; \<open>parse_yaml\<close> to \<open>yaml_bytes\<close>: compose-go and yaml; \<open>sha256_hex\<close>: the hexadecimal SHA-256
  sum; \<open>read_ignores\<close>: the parser of an ignore file; \<open>tar_dir\<close>: the archive of a directory without the
  ignored files; \<open>pack_tgz\<close>: the compressed archive of a list of entries; \<open>tw_header_err\<close>, \<open>tw_write_err\<close>: what the
  archive writer refuses; the other fields encode and decode JSON into the types of the code.
\<close>

record 'x pub = "'x sys" +
  pn_named :: "string \<Rightarrow> named res"
  pn_normalized :: "string \<Rightarrow> named res"
  pn_with_name :: "string \<Rightarrow> string res"
  rg_repo_info :: "named \<Rightarrow> repo_info res"
  rg_service_err :: "error option"
  rg_push_endpoints :: "string \<Rightarrow> endpoint list res"
  rg_auth :: "repo_info \<Rightarrow> auth_config"
  rg_ping :: "'x world \<Rightarrow> string \<Rightarrow> error option"
  rg_new_repo_err :: "repo \<Rightarrow> error option"
  rg_manifests_err :: "repo \<Rightarrow> error option"
  rg_man_get :: "'x world \<Rightarrow> repo \<Rightarrow> digest \<Rightarrow> reg_manifest res"
  rg_man_put :: "'x world \<Rightarrow> repo \<Rightarrow> string \<Rightarrow> bytes \<Rightarrow> string \<Rightarrow> 'x world \<times> digest res"
  rg_blob_get :: "'x world \<Rightarrow> repo \<Rightarrow> digest \<Rightarrow> bytes res"
  rg_blob_stat :: "'x world \<Rightarrow> repo \<Rightarrow> digest \<Rightarrow> bool res"
  rg_blob_put :: "'x world \<Rightarrow> repo \<Rightarrow> string \<Rightarrow> bytes \<Rightarrow> 'x world \<times> descriptor res"
  rg_tag_get :: "'x world \<Rightarrow> repo \<Rightarrow> string \<Rightarrow> descriptor res"
  os_environ :: "string list"
  parse_yaml :: "bytes \<Rightarrow> (string, jval) gomap res"
  load_compose :: "string \<Rightarrow> string \<Rightarrow> bytes \<Rightarrow> (string, string) gomap \<Rightarrow> proj_service list res"
  yaml_bytes :: "jval \<Rightarrow> bytes res"
  sha256_hex :: "bytes \<Rightarrow> string"
  read_ignores :: "bytes \<Rightarrow> string list option"
  tar_dir :: "fs \<Rightarrow> path \<Rightarrow> string list \<Rightarrow> (tar_entry list \<times> error option) res"
  pack_tgz :: "tar_entry list \<Rightarrow> bytes"
  tw_header_err :: "tar_entry \<Rightarrow> error option"
  tw_write_err :: "tar_entry \<Rightarrow> bytes \<Rightarrow> error option"
  json_object :: "bytes \<Rightarrow> (string, jval) gomap res"
  json_hashes :: "(string, string) gomap \<Rightarrow> bytes res"
  json_app_manifest :: "app_manifest \<Rightarrow> bytes"
  oci_unmarshal_err :: "bytes \<Rightarrow> error option"
  json_layers_manifest :: "app_layers_manifest \<Rightarrow> bytes res"
  mlist_unmarshal :: "bytes \<Rightarrow> string res"
  json_layers_file :: "bytes \<Rightarrow> (string, layers_meta) gomap res"
  json_app_layers_meta :: "(string, layers_meta) gomap \<Rightarrow> bytes res"

section \<open>Connecting to a repository\<close>

text \<open>Of an insecure registry the last endpoint that is reached by HTTP is taken, else the first.\<close>

definition choose_endpoint :: "bool \<Rightarrow> endpoint list \<Rightarrow> endpoint res" where
  "choose_endpoint secure eps =
     (case eps of
        [] \<Rightarrow> Panic ''index out of range''
      | e # _ \<Rightarrow>
          Ok (if \<not> secure then fold (\<lambda>ep acc. if ep_scheme ep = ''http'' then ep else acc) eps e else e))"

definition getDefaultEndpointFromRepoInfo :: "('x, 'z) pub_scheme \<Rightarrow> repo_info \<Rightarrow> endpoint res" where
  "getDefaultEndpointFromRepoInfo X info =
     (case rg_service_err X of
        Some e \<Rightarrow> Fail e
      | None \<Rightarrow>
          rbind (rg_push_endpoints X (nm_domain (ri_name info))) (\<lambda>eps. choose_endpoint (ri_secure info) eps))"

record repository_endpoint =
  re_info :: repo_info
  re_endpoint :: endpoint

definition newDefaultRepositoryEndpoint ::
  "('x, 'z) pub_scheme \<Rightarrow> named \<Rightarrow> bool \<Rightarrow> repository_endpoint res" where
  "newDefaultRepositoryEndpoint X ref insecure =
     rbind (rg_repo_info X ref) (\<lambda>info.
       rbind (getDefaultEndpointFromRepoInfo X info) (\<lambda>ep.
         Ok \<lparr>re_info = info, re_endpoint = (if insecure then ep\<lparr>ep_skip_verify := True\<rparr> else ep)\<rparr>))"

definition repositoryEndpoint_Name :: "repository_endpoint \<Rightarrow> string" where
  "repositoryEndpoint_Name r =
     (if ep_trim_hostname (re_endpoint r) then nm_path (ri_name (re_info r)) else named_Name (ri_name (re_info r)))"

definition getHTTPTransport ::
  "('x, 'z) pub_scheme \<Rightarrow> 'x world \<Rightarrow> auth_config \<Rightarrow> endpoint \<Rightarrow> string \<Rightarrow> transport res" where
  "getHTTPTransport X w auth ep repoName =
     (case rg_ping X w (ep_url ep) of
        Some e \<Rightarrow> Fail (Wrap ''error pinging v2 registry'' e)
      | None \<Rightarrow>
          Ok (if ac_token auth \<noteq> '''' then PassThruToken (ac_token auth) else TokenOrBasic auth repoName))"

definition getRepositoryForReference ::
  "('x, 'z) pub_scheme \<Rightarrow> 'x world \<Rightarrow> string \<Rightarrow> repository_endpoint \<Rightarrow> repo res" where
  "getRepositoryForReference X w ref rep =
     rbind (rcatch (getHTTPTransport X w (rg_auth X (re_info rep)) (re_endpoint rep) (repositoryEndpoint_Name rep)) Ok
             (\<lambda>e. Fail (Wrap ''failed to configure transport'' e))) (\<lambda>t.
       rbind (rcatch (pn_with_name X (repositoryEndpoint_Name rep)) Ok
               (\<lambda>e. Fail (Wrap (''failed to parse repo name from '' @ ref) e))) (\<lambda>name.
         let r = \<lparr>rpo_name = name, rpo_url = ep_url (re_endpoint rep), rpo_transport = t\<rparr>
         in case rg_new_repo_err X r of Some e \<Rightarrow> Fail e | None \<Rightarrow> Ok r))"

definition GetRepository :: "('x, 'z) pub_scheme \<Rightarrow> 'x world \<Rightarrow> named \<Rightarrow> repo res" where
  "GetRepository X w ref =
     rbind (newDefaultRepositoryEndpoint X ref False) (\<lambda>rep.
       getRepositoryForReference X w (named_String ref) rep)"

definition repo_Manifests :: "('x, 'z) pub_scheme \<Rightarrow> repo \<Rightarrow> repo res" where
  "repo_Manifests X r = (case rg_manifests_err X r of Some e \<Rightarrow> Fail e | None \<Rightarrow> Ok r)"

definition GetManifestService :: "('x, 'z) pub_scheme \<Rightarrow> 'x world \<Rightarrow> named \<Rightarrow> repo res" where
  "GetManifestService X w ref = rbind (GetRepository X w ref) (repo_Manifests X)"

definition GetBlobService :: "('x, 'z) pub_scheme \<Rightarrow> 'x world \<Rightarrow> named \<Rightarrow> repo res" where
  "GetBlobService X w ref = GetRepository X w ref"

text \<open>The endpoint that is chosen is one of those the registry package offers.\<close>

lemma choose_endpoint_in: "choose_endpoint secure eps = Ok e \<Longrightarrow> e \<in> set eps"
proof (cases eps)
  case (Cons x xs)
  assume "choose_endpoint secure eps = Ok e"
  moreover have "fold (\<lambda>ep acc. if ep_scheme ep = ''http'' then ep else acc) eps x \<in> set eps"
    by (rule fold_invariant [where P = "\<lambda>a. a \<in> set eps"]) (auto simp: Cons)
  ultimately show ?thesis by (auto simp: choose_endpoint_def Cons split: if_splits)
qed (simp add: choose_endpoint_def)

lemma choose_endpoint_secure: "choose_endpoint True (e # es) = Ok e"
  by (simp add: choose_endpoint_def)

end
