(* ===== verification/Layers.thy ===== *)
theory Layers
  imports Registry
begin

text \<open>
  The layers of an app by architecture (\<open>pkg/compose/layers.go\<close>): which architectures every image of the
  app supports, the layers of its images for them without repetitions and in a fixed order, the
  manifests in which they are published, and the sizes that are published with the app.
\<close>

section \<open>Manifests by architecture\<close>

text \<open>
  \<open>ArchManifestServices\<close>.  A manifest service is made anew for every image, so its key in the map, a
  pointer, is the number of the image with its repository.
\<close>

type_synonym man_svc = "nat \<times> repo"
type_synonym arch_services = "(string, (man_svc, digest) gomap) gomap"

definition isInArchList :: "string list \<Rightarrow> string \<Rightarrow> bool" where
  "isInArchList archList arch \<longleftrightarrow> archList = [] \<or> arch \<in> set archList"

definition services_of :: "arch_services \<Rightarrow> string \<Rightarrow> (man_svc, digest) gomap" where
  "services_of m arch = (case map_of m arch of None \<Rightarrow> [] | Some ms \<Rightarrow> ms)"

definition put_manifest :: "string \<Rightarrow> man_svc \<Rightarrow> digest \<Rightarrow> arch_services \<Rightarrow> arch_services" where
  "put_manifest arch svc d m = gm_put arch (gm_put svc d (services_of m arch)) m"

definition is_target :: "string list \<Rightarrow> list_entry \<Rightarrow> bool" where
  "is_target archList e \<longleftrightarrow>
     isInArchList archList (p_arch (le_platform e)) \<and> p_os (le_platform e) = ''linux''"

definition populateFromList ::
  "string list \<Rightarrow> man_svc \<Rightarrow> list_entry list \<Rightarrow> arch_services \<Rightarrow> arch_services" where
  "populateFromList archList svc es m =
     fold (\<lambda>e m. if is_target archList e then put_manifest (p_arch (le_platform e)) svc (le_digest e) m else m) es m"

text \<open>The architecture in the configuration of an image that has a single manifest.\<close>

definition config_arch :: "('x, 'z) pub_scheme \<Rightarrow> 'x world \<Rightarrow> named \<Rightarrow> descriptor \<Rightarrow> string res" where
  "config_arch X w ref cfg =
     rbind (GetBlobService X w ref) (\<lambda>bs.
       rbind (rg_blob_get X w bs (d_digest cfg)) (\<lambda>b.
         rbind (json_object X b) (\<lambda>config.
           (case map_of config ''architecture'' of
              Some (JStr arch) \<Rightarrow> Ok arch
            | _ \<Rightarrow> Panic ''interface conversion: interface {} is not string''))))"

text \<open>\<open>imageRef.(reference.Canonical).Digest()\<close>\<close>

definition canonical_digest :: "named \<Rightarrow> digest res" where
  "canonical_digest ref =
     (case nm_digest ref of None \<Rightarrow> Panic ''interface conversion: not reference.Canonical'' | Some d \<Rightarrow> Ok d)"

definition image_index ::
  "('x, 'z) pub_scheme \<Rightarrow> 'x world \<Rightarrow> string \<Rightarrow> (named \<times> repo \<times> digest \<times> reg_manifest) res" where
  "image_index X w img =
     rbind (pn_named X img) (\<lambda>ref.
       rbind (GetManifestService X w ref) (\<lambda>r.
         rbind (canonical_digest ref) (\<lambda>d.
           rbind (rg_man_get X w r d) (\<lambda>man. Ok (ref, r, d, man)))))"

definition image_manifests ::
  "('x, 'z) pub_scheme \<Rightarrow> 'x world \<Rightarrow> string list \<Rightarrow> nat \<Rightarrow> string \<Rightarrow> arch_services \<Rightarrow> arch_services res" where
  "image_manifests X w archList i img m =
     rbind (image_index X w img) (\<lambda>(ref, r, d, man).
       (case man of
          ManifestList es \<Rightarrow> Ok (populateFromList archList (i, r) es m)
        | Schema2 cfg ls \<Rightarrow>
            rbind (config_arch X w ref cfg) (\<lambda>arch. Ok (put_manifest arch (i, r) d m))
        | OciSchema cfg ls \<Rightarrow>
            Fail (Err (''unexpected type of image manifest; image: '' @ named_String ref @ '', type: *ocischema.DeserializedManifest''))
        | OtherManifest t \<Rightarrow>
            Fail (Err (''unexpected type of image manifest; image: '' @ named_String ref @ '', type: '' @ t))))"

fun arch_manifests ::
  "('x, 'z) pub_scheme \<Rightarrow> 'x world \<Rightarrow> string list \<Rightarrow> nat \<Rightarrow> (string, string) gomap \<Rightarrow> arch_services \<Rightarrow>
   arch_services res"
where
  "arch_manifests X w archList i [] m = Ok m"
| "arch_manifests X w archList i ((svc, img) # imgs) m =
     rbind (image_manifests X w archList i img m) (arch_manifests X w archList (Suc i) imgs)"

section \<open>Layers by architecture\<close>

definition man_layers :: "reg_manifest \<Rightarrow> descriptor list res" where
  "man_layers man =
     (case man of
        Schema2 cfg ls \<Rightarrow> Ok ls
      | OciSchema cfg ls \<Rightarrow> Ok ls
      | ManifestList es \<Rightarrow> Fail (Err ''unsupport manifest type: *manifestlist.DeserializedManifestList'')
      | OtherManifest t \<Rightarrow> Fail (Err (''unsupport manifest type: '' @ t)))"

fun put_layers ::
  "'z lib_scheme \<Rightarrow> descriptor list \<Rightarrow> (string, descriptor) gomap \<Rightarrow> (string, descriptor) gomap res" where
  "put_layers L [] m = Ok m"
| "put_layers L (l # ls) m = rbind (dg_encoded L (d_digest l)) (\<lambda>enc. put_layers L ls (gm_put enc l m))"

fun arch_layer_map ::
  "('x, 'z) pub_scheme \<Rightarrow> 'x world \<Rightarrow> (man_svc, digest) gomap \<Rightarrow> (string, descriptor) gomap \<Rightarrow>
   (string, descriptor) gomap res"
where
  "arch_layer_map X w [] m = Ok m"
| "arch_layer_map X w ((svc, d) # ms) m =
     rbind (rg_man_get X w (snd svc) d) (\<lambda>man.
       rbind (man_layers man) (\<lambda>ls.
         rbind (put_layers X ls m) (arch_layer_map X w ms)))"

text \<open>Architectures that some image of the app lacks, and those that were not asked for, are left out.\<close>

fun app_layers ::
  "('x, 'z) pub_scheme \<Rightarrow> 'x world \<Rightarrow> string list \<Rightarrow> nat \<Rightarrow> arch_services \<Rightarrow>
   (string, (string, descriptor) gomap) gomap res"
where
  "app_layers X w archList n [] = Ok []"
| "app_layers X w archList n ((arch, ms) # rest) =
     (if length ms \<noteq> n \<or> \<not> isInArchList archList arch then app_layers X w archList n rest
      else rbind (arch_layer_map X w ms []) (\<lambda>ls.
        rbind (app_layers X w archList n rest) (\<lambda>as. Ok ((arch, ls) # as))))"

definition sorted_layers :: "(string, descriptor) gomap \<Rightarrow> descriptor list" where
  "sorted_layers m =
     map (\<lambda>h. case map_of m h of Some l \<Rightarrow> l | None \<Rightarrow> zero_desc) (sort (map fst m))"

definition GetAppLayersFromMap ::
  "('x, 'z) pub_scheme \<Rightarrow> 'x world \<Rightarrow> (string, string) gomap \<Rightarrow> string list \<Rightarrow>
   (string, descriptor list) gomap res" where
  "GetAppLayersFromMap X w svcImages archList =
     rbind (arch_manifests X w archList 0 svcImages []) (\<lambda>archToManifestList.
       rbind (app_layers X w archList (length svcImages) archToManifestList) (\<lambda>as.
         Ok (map (\<lambda>(arch, ls). (arch, sorted_layers ls)) as)))"

text \<open>The images of the services; a service without an image panics.\<close>

fun service_images :: "(string, jval) gomap \<Rightarrow> (string, string) gomap res" where
  "service_images [] = Ok []"
| "service_images ((svc, v) # rest) =
     (case v of
        JMap cfg \<Rightarrow>
          (case map_of cfg ''image'' of
             Some (JStr img) \<Rightarrow> rbind (service_images rest) (\<lambda>m. Ok ((svc, img) # m))
           | _ \<Rightarrow> Panic ''interface conversion: interface {} is not string'')
      | _ \<Rightarrow> Panic ''interface conversion: interface {} is not map[string]interface {}'')"

definition GetLayers ::
  "('x, 'z) pub_scheme \<Rightarrow> 'x world \<Rightarrow> (string, jval) gomap \<Rightarrow> string list \<Rightarrow>
   (string, descriptor list) gomap res" where
  "GetLayers X w services archList =
     rbind (service_images services) (\<lambda>imgs. GetAppLayersFromMap X w imgs archList)"

section \<open>Publishing the layers\<close>

definition layers_manifest :: "string \<Rightarrow> descriptor list \<Rightarrow> app_layers_manifest" where
  "layers_manifest arch ls =
     \<lparr>al_schema = 2, al_media = ''application/vnd.oci.image.index.v1+json'', al_arch = arch,
      al_layers = ls, al_annot = [(''compose-app-layers'', ''v1'')]\<rparr>"

definition arch_platform :: "string \<Rightarrow> platform" where
  "arch_platform arch = \<lparr>p_arch = arch, p_os = '''', p_variant = ''''\<rparr>"

text \<open>The manifest as the registry client takes it, its media type and payload, and its descriptor.\<close>

definition ComposeAppLayersManifest ::
  "('x, 'z) pub_scheme \<Rightarrow> string \<Rightarrow> descriptor list \<Rightarrow> (string \<times> bytes \<times> descriptor) res" where
  "ComposeAppLayersManifest X arch ls =
     rbind (json_layers_manifest X (layers_manifest arch ls)) (\<lambda>b.
       rbind (mlist_unmarshal X b) (\<lambda>media.
         Ok (media, b, zero_desc\<lparr>d_media := media, d_size := int (length b), d_digest := dg_hash X b,
                                 d_platform := Some (arch_platform arch)\<rparr>)))"

text \<open>One manifest is put under a tag made of the architecture and seven digits of its digest.\<close>

definition put_layers_manifest ::
  "('x, 'z) pub_scheme \<Rightarrow> repo \<Rightarrow> string \<Rightarrow> string \<times> bytes \<times> descriptor \<Rightarrow> 'x world \<Rightarrow> 'x world \<times> descriptor res" where
  "put_layers_manifest X r arch m w =
     (let (media, b, desc) = m in
      sbind (slift (rbind (dg_encoded X (d_digest desc)) (slice_to 7)) w) (\<lambda>hex w.
        sbind (rg_man_put X w r media b (''layers-'' @ arch @ hex)) (\<lambda>d w.
          sbind (slift (dg_encoded X d) w) (\<lambda>e1 w.
            sbind (slift (dg_encoded X (d_digest desc)) w) (\<lambda>e2 w.
              if e1 \<noteq> e2
              then (w, Fail (Err ''digest of the posted manifest doesn't match to the composed manifest digest''))
              else (w, Ok desc))))))"

text \<open>A dry run leaves the descriptors as they were made, with no field set.\<close>

fun post_manifests ::
  "('x, 'z) pub_scheme \<Rightarrow> repo \<Rightarrow> (string, descriptor list) gomap \<Rightarrow> bool \<Rightarrow> string list \<Rightarrow> 'x world \<Rightarrow>
   'x world \<times> descriptor list res"
where
  "post_manifests X r layers dryRun [] w = (w, Ok [])"
| "post_manifests X r layers dryRun (arch # archs) w =
     sbind (slift (ComposeAppLayersManifest X arch
              (case map_of layers arch of Some ls \<Rightarrow> ls | None \<Rightarrow> [])) w) (\<lambda>m w.
       sbind (if dryRun then (w, Ok zero_desc) else put_layers_manifest X r arch m w) (\<lambda>desc w.
         sbind (post_manifests X r layers dryRun archs w) (\<lambda>ds w. (w, Ok (desc # ds)))))"

definition PostAppLayersManifests ::
  "('x, 'z) pub_scheme \<Rightarrow> string \<Rightarrow> (string, descriptor list) gomap \<Rightarrow> bool \<Rightarrow> 'x world \<Rightarrow>
   'x world \<times> descriptor list res" where
  "PostAppLayersManifests X appRef layers dryRun w =
     sbind (slift (rbind (pn_normalized X appRef) (GetManifestService X w)) w) (\<lambda>r w.
       post_manifests X r layers dryRun (sort (map fst layers)) w)"

section \<open>Sizes of the layers\<close>

definition app_layer_meta :: "layers_meta \<Rightarrow> descriptor \<Rightarrow> layer_meta res" where
  "app_layer_meta lms l =
     (case map_of (lms_layers lms) (d_digest l) of
        None \<Rightarrow> Fail (Err (''app layer hasn't been built; one of the App images must have been changed since '' @
                  ''tagging and before pinning; layer digest: '' @ d_digest l))
      | Some m \<Rightarrow> Ok \<lparr>lm_size = lm_size m, lm_usage = lm_usage m, lm_archive = d_size l\<rparr>)"

fun arch_layers_meta ::
  "layers_meta \<Rightarrow> descriptor list \<Rightarrow> (digest, layer_meta) gomap \<Rightarrow> (digest, layer_meta) gomap res" where
  "arch_layers_meta lms [] m = Ok m"
| "arch_layers_meta lms (l # ls) m =
     rbind (app_layer_meta lms l) (\<lambda>v. arch_layers_meta lms ls (gm_put (d_digest l) v m))"

fun app_layers_meta ::
  "(string, layers_meta) gomap \<Rightarrow> (string, descriptor list) gomap \<Rightarrow> (string, layers_meta) gomap \<Rightarrow>
   (string, layers_meta) gomap res"
where
  "app_layers_meta all [] m = Ok m"
| "app_layers_meta all ((arch, ls) # rest) m =
     (case map_of all arch of
        None \<Rightarrow> Fail (Err (''no metadata about app layers of the given arch: '' @ arch))
      | Some lms \<Rightarrow>
          rbind (arch_layers_meta lms ls []) (\<lambda>lm.
            app_layers_meta all rest (gm_put arch \<lparr>lms_block = lms_block lms, lms_layers = lm\<rparr> m)))"

definition GetAppLayersMeta ::
  "('x, 'z) pub_scheme \<Rightarrow> 'x world \<Rightarrow> path \<Rightarrow> (string, descriptor list) gomap \<Rightarrow> bytes res" where
  "GetAppLayersMeta X w layersMetaFile appLayers =
     rbind (os_read_file X (w_fs w) layersMetaFile) (\<lambda>b.
       rbind (json_layers_file X b) (\<lambda>all.
         rbind (app_layers_meta all appLayers []) (json_app_layers_meta X)))"

section \<open>Which layers are found\<close>

text \<open>The manifest of an image for an architecture: the last one of its index, or its only one.\<close>

definition image_manifest_for ::
  "('x, 'z) pub_scheme \<Rightarrow> 'x world \<Rightarrow> string list \<Rightarrow> string \<Rightarrow> string \<Rightarrow> (repo \<times> digest) option" where
  "image_manifest_for X w archList img arch =
     (case image_index X w img of
        Ok (ref, r, d, man) \<Rightarrow>
          (case man of
             ManifestList es \<Rightarrow>
               map_option (\<lambda>e. (r, le_digest e))
                 (find (\<lambda>e. is_target archList e \<and> p_arch (le_platform e) = arch) (rev es))
           | Schema2 cfg ls \<Rightarrow> if config_arch X w ref cfg = Ok arch then Some (r, d) else None
           | _ \<Rightarrow> None)
      | _ \<Rightarrow> None)"

fun image_entries ::
  "('x, 'z) pub_scheme \<Rightarrow> 'x world \<Rightarrow> string list \<Rightarrow> string \<Rightarrow> nat \<Rightarrow> (string, string) gomap \<Rightarrow>
   (man_svc, digest) gomap"
where
  "image_entries X w archList arch i [] = []"
| "image_entries X w archList arch i ((svc, img) # imgs) =
     (case image_manifest_for X w archList img arch of
        None \<Rightarrow> image_entries X w archList arch (Suc i) imgs
      | Some (r, d) \<Rightarrow> ((i, r), d) # image_entries X w archList arch (Suc i) imgs)"

lemma services_of_put [simp]:
  "services_of (put_manifest a k d m) b = (if b = a then gm_put k d (services_of m a) else services_of m b)"
  by (simp add: services_of_def put_manifest_def update_conv)

lemma populateFromList_services:
  "services_of (populateFromList archList k es m) a =
     (case find (\<lambda>e. is_target archList e \<and> p_arch (le_platform e) = a) (rev es) of
        None \<Rightarrow> services_of m a
      | Some e \<Rightarrow> gm_put k (le_digest e) (services_of m a))"
  unfolding populateFromList_def
  by (induction es rule: rev_induct) (auto split: option.splits)

lemma populateFromList_distinct:
  "distinct (map fst m) \<Longrightarrow> distinct (map fst (populateFromList archList k es m))"
  unfolding populateFromList_def
  by (induction es arbitrary: m) (auto simp: put_manifest_def distinct_update)

lemma image_manifests_cases:
  assumes "image_manifests X w archList i img m = Ok m'"
  obtains (index) ref r d es where "image_index X w img = Ok (ref, r, d, ManifestList es)"
      "m' = populateFromList archList (i, r) es m"
  | (single) ref r d cfg ls arch where "image_index X w img = Ok (ref, r, d, Schema2 cfg ls)"
      "config_arch X w ref cfg = Ok arch" "m' = put_manifest arch (i, r) d m"
proof -
  from assms obtain ref r d man where u: "image_index X w img = Ok (ref, r, d, man)"
    by (auto simp: image_manifests_def rbind_Ok_iff)
  with assms index single show thesis
    by (cases man) (auto simp: image_manifests_def rbind_Ok_iff)
qed

lemma image_manifests_services:
  assumes "image_manifests X w archList i img m = Ok m'"
  shows "services_of m' a =
    (case image_manifest_for X w archList img a of
       None \<Rightarrow> services_of m a
     | Some (r, d) \<Rightarrow> gm_put (i, r) d (services_of m a))"
  using assms
proof (cases rule: image_manifests_cases)
  case (index ref r d es)
  then show ?thesis by (simp add: image_manifest_for_def populateFromList_services split: option.split)
next
  case (single ref r d cfg ls arch)
  then show ?thesis by (auto simp: image_manifest_for_def)
qed

lemma image_manifests_distinct:
  assumes "image_manifests X w archList i img m = Ok m'" and "distinct (map fst m)"
  shows "distinct (map fst m')"
  using assms(1)
  by (cases rule: image_manifests_cases)
    (use assms(2) in \<open>auto simp: populateFromList_distinct put_manifest_def distinct_update\<close>)

lemma arch_manifests_services:
  assumes "arch_manifests X w archList i imgs m = Ok m'"
    and "\<forall>((j, r), d)\<in>set (services_of m a). j < i"
  shows "services_of m' a = services_of m a @ image_entries X w archList a i imgs"
  using assms
proof (induction imgs arbitrary: i m)
  case (Cons si imgs)
  obtain s img where si: "si = (s, img)" by force
  from Cons.prems(1) obtain m1 where m1: "image_manifests X w archList i img m = Ok m1"
    and rest: "arch_manifests X w archList (Suc i) imgs m1 = Ok m'" by (auto simp: si rbind_Ok_iff)
  have fresh: "(i, r) \<notin> fst ` set (services_of m a)" for r using Cons.prems(2) by auto
  have step: "services_of m1 a = services_of m a @
      (case image_manifest_for X w archList img a of None \<Rightarrow> [] | Some (r, d) \<Rightarrow> [((i, r), d)])"
    using image_manifests_services [OF m1, of a] gm_put_fresh [OF fresh]
    by (auto split: option.splits)
  then have "\<forall>((j, r), d)\<in>set (services_of m1 a). j < Suc i"
    using Cons.prems(2) by (auto simp: less_Suc_eq split: option.splits)
  from Cons.IH [OF rest this] step show ?case by (auto simp: si split: option.splits)
qed simp

lemma arch_manifests_distinct:
  assumes "arch_manifests X w archList i imgs m = Ok m'" and "distinct (map fst m)"
  shows "distinct (map fst m')"
  using assms
proof (induction imgs arbitrary: i m)
  case (Cons si imgs)
  obtain s img where si: "si = (s, img)" by force
  from Cons.prems(1) obtain m1 where m1: "image_manifests X w archList i img m = Ok m1"
    and rest: "arch_manifests X w archList (Suc i) imgs m1 = Ok m'" by (auto simp: si rbind_Ok_iff)
  from Cons.IH [OF rest image_manifests_distinct [OF m1 Cons.prems(2)]] show ?case .
qed simp

lemma image_entries_length: "length (image_entries X w archList a i imgs) \<le> length imgs"
  by (induction imgs arbitrary: i) (auto simp: le_SucI split: option.splits)

lemma image_entries_full:
  "length (image_entries X w archList a i imgs) = length imgs \<longleftrightarrow>
     (\<forall>(s, img)\<in>set imgs. image_manifest_for X w archList img a \<noteq> None)"
proof (induction imgs arbitrary: i)
  case (Cons si imgs)
  then show ?case using image_entries_length [of X w archList a "Suc i" imgs]
    by (cases si) (auto split: option.splits)
qed simp

lemma image_entries_mem:
  "(\<exists>j. ((j, r), d) \<in> set (image_entries X w archList a i imgs)) \<longleftrightarrow>
     (\<exists>(s, img)\<in>set imgs. image_manifest_for X w archList img a = Some (r, d))"
  by (induction imgs arbitrary: i) (auto split: option.splits, blast+)

lemma services_of_mem:
  "distinct (map fst m) \<Longrightarrow> (a, ms) \<in> set m \<Longrightarrow> services_of m a = ms"
  by (simp add: services_of_def)

lemma services_of_nonempty: "services_of m a \<noteq> [] \<Longrightarrow> (a, services_of m a) \<in> set m"
  by (auto simp: services_of_def split: option.splits dest: map_of_SomeD)

section \<open>The layers of an architecture\<close>

definition layer_keys :: "('x, 'z) pub_scheme \<Rightarrow> 'x world \<Rightarrow> repo \<Rightarrow> digest \<Rightarrow> string set" where
  "layer_keys X w r d =
     {h. \<exists>man ls l. rg_man_get X w r d = Ok man \<and> man_layers man = Ok ls \<and> l \<in> set ls \<and>
        dg_encoded X (d_digest l) = Ok h}"

definition layer_map_ok :: "'z lib_scheme \<Rightarrow> (string, descriptor) gomap \<Rightarrow> bool" where
  "layer_map_ok L m \<longleftrightarrow> distinct (map fst m) \<and> (\<forall>(h, l)\<in>set m. dg_encoded L (d_digest l) = Ok h)"

lemma layer_map_ok_put:
  "layer_map_ok L m \<Longrightarrow> dg_encoded L (d_digest l) = Ok h \<Longrightarrow> layer_map_ok L (gm_put h l m)"
  by (auto simp: layer_map_ok_def distinct_update dest!: gm_put_memD)

lemma put_layers_ok:
  assumes "put_layers L ls m = Ok m'"
  shows "(layer_map_ok L m \<longrightarrow> layer_map_ok L m') \<and>
    (\<forall>h. gm_has m' h \<longleftrightarrow> gm_has m h \<or> (\<exists>l\<in>set ls. dg_encoded L (d_digest l) = Ok h))"
  using assms
proof (induction ls arbitrary: m)
  case (Cons l ls)
  from Cons.prems obtain enc where enc: "dg_encoded L (d_digest l) = Ok enc"
    and r: "put_layers L ls (gm_put enc l m) = Ok m'" by (auto simp: rbind_Ok_iff)
  from Cons.IH [OF r] enc show ?case using layer_map_ok_put [OF _ enc] by auto
qed simp

lemma arch_layer_map_ok:
  assumes "arch_layer_map X w ms m = Ok m'"
  shows "(layer_map_ok X m \<longrightarrow> layer_map_ok X m') \<and>
    (\<forall>h. gm_has m' h \<longleftrightarrow> gm_has m h \<or> (\<exists>e\<in>set ms. h \<in> layer_keys X w (snd (fst e)) (snd e)))"
  using assms
proof (induction ms arbitrary: m)
  case (Cons e ms)
  obtain j r d where e: "e = ((j, r), d)" by (metis surj_pair)
  from Cons.prems obtain man ls m1 where man: "rg_man_get X w r d = Ok man" "man_layers man = Ok ls"
    and p: "put_layers X ls m = Ok m1" and rest: "arch_layer_map X w ms m1 = Ok m'"
    by (auto simp: e rbind_Ok_iff)
  have k: "h \<in> layer_keys X w r d \<longleftrightarrow> (\<exists>l\<in>set ls. dg_encoded X (d_digest l) = Ok h)" for h
    using man by (auto simp: layer_keys_def)
  from Cons.IH [OF rest] put_layers_ok [OF p] show ?case by (auto simp: e k)
qed simp

lemma app_layers_eq:
  "app_layers X w archList n m =
     map_res (\<lambda>(a, ms). rbind (arch_layer_map X w ms []) (\<lambda>ls. Ok (a, ls)))
       (filter (\<lambda>(a, ms). length ms = n \<and> isInArchList archList a) m)"
proof (induction m)
  case (Cons e m)
  then show ?case by (cases e; cases "arch_layer_map X w (snd e) []") auto
qed simp

lemma app_layers_memD:
  assumes "app_layers X w archList n m = Ok as" and "(a, ls) \<in> set as"
  obtains ms where "(a, ms) \<in> set m" "length ms = n" "isInArchList archList a" "arch_layer_map X w ms [] = Ok ls"
  using map_res_Ok_set [OF assms(1) [unfolded app_layers_eq] assms(2)] by (auto simp: rbind_Ok_iff)

lemma app_layers_fst:
  assumes "app_layers X w archList n m = Ok as"
  shows "map fst as = map fst (filter (\<lambda>(a, ms). length ms = n \<and> isInArchList archList a) m)"
proof -
  have "map fst as = map fst xs"
    if "map_res (\<lambda>(a, ms). rbind (arch_layer_map X w ms []) (\<lambda>ls. Ok (a, ls))) xs = Ok as" for xs
    using that by (induction xs arbitrary: as) (auto simp: rbind_Ok_iff)
  with assms show ?thesis by (simp add: app_layers_eq)
qed

lemma sorted_layers_ok:
  assumes "layer_map_ok L m"
  shows "list_all2 (\<lambda>h l. dg_encoded L (d_digest l) = Ok h) (sort (map fst m)) (sorted_layers m)"
proof -
  have "dg_encoded L (d_digest (case map_of m h of Some l \<Rightarrow> l | None \<Rightarrow> zero_desc)) = Ok h" if "h \<in> fst ` set m" for h
  proof -
    from that obtain l where "map_of m h = Some l" by (metis gm_has_def gm_has_iff option.collapse)
    with assms show ?thesis by (auto simp: layer_map_ok_def dest: map_of_SomeD)
  qed
  then show ?thesis by (simp add: sorted_layers_def list_all2_map2 list_all2_same)
qed

text \<open>Which architectures the map has, and which layers are found for one of them.\<close>

lemma image_manifests_keys:
  assumes "image_manifests X w archList i img m = Ok m'" and "\<forall>(a, ms)\<in>set m. ms \<noteq> []"
  shows "\<forall>(a, ms)\<in>set m'. ms \<noteq> []"
proof -
  have put: "\<forall>(a, ms)\<in>set (put_manifest arch k d m). ms \<noteq> []" if "\<forall>(a, ms)\<in>set m. ms \<noteq> []" for arch k d m
    using that by (auto simp: put_manifest_def dest!: gm_put_memD) (metis gm_put_not_Nil)
  have "\<forall>(a, ms)\<in>set (populateFromList archList k es m). ms \<noteq> []" for k es
    unfolding populateFromList_def
    by (rule fold_invariant [where P = "\<lambda>m. \<forall>(a, ms)\<in>set m. ms \<noteq> []"]) (use put assms(2) in auto)
  note pop = this
  show ?thesis using assms(1)
  proof (cases rule: image_manifests_cases)
    case (index ref r d es)
    show ?thesis unfolding index(2) by (rule pop)
  next
    case (single ref r d cfg ls arch)
    show ?thesis unfolding single(3) by (rule put [OF assms(2)])
  qed
qed

lemma arch_manifests_keys:
  assumes "arch_manifests X w archList i imgs m = Ok m'" and "\<forall>(a, ms)\<in>set m. ms \<noteq> []"
  shows "\<forall>(a, ms)\<in>set m'. ms \<noteq> []"
  using assms
proof (induction imgs arbitrary: i m)
  case (Cons si imgs)
  obtain s img where si: "si = (s, img)" by force
  from Cons.prems(1) obtain m1 where m1: "image_manifests X w archList i img m = Ok m1"
    and rest: "arch_manifests X w archList (Suc i) imgs m1 = Ok m'" by (auto simp: si rbind_Ok_iff)
  from Cons.IH [OF rest image_manifests_keys [OF m1 Cons.prems(2)]] show ?case .
qed simp

lemma app_layers_archs:
  assumes "app_layers X w archList n m = Ok as" and "distinct (map fst m)" and "\<forall>(a, ms)\<in>set m. ms \<noteq> []"
  shows "a \<in> fst ` set as \<longleftrightarrow> n \<noteq> 0 \<and> length (services_of m a) = n \<and> isInArchList archList a"
proof -
  have "fst ` set as = fst ` set (filter (\<lambda>(a, ms). length ms = n \<and> isInArchList archList a) m)"
    using app_layers_fst [OF assms(1)] by (metis list.set_map)
  then have "a \<in> fst ` set as \<longleftrightarrow> (\<exists>ms. (a, ms) \<in> set m \<and> length ms = n \<and> isInArchList archList a)"
    by (auto simp: image_def)
  also have "\<dots> \<longleftrightarrow> n \<noteq> 0 \<and> length (services_of m a) = n \<and> isInArchList archList a"
  proof
    assume "\<exists>ms. (a, ms) \<in> set m \<and> length ms = n \<and> isInArchList archList a"
    then obtain ms where ms: "(a, ms) \<in> set m" "length ms = n" "isInArchList archList a" by blast
    with assms(3) have "ms \<noteq> []" by fast
    with ms services_of_mem [OF assms(2) ms(1)] show "n \<noteq> 0 \<and> length (services_of m a) = n \<and> isInArchList archList a"
      by auto
  next
    assume a: "n \<noteq> 0 \<and> length (services_of m a) = n \<and> isInArchList archList a"
    then have "services_of m a \<noteq> []" by auto
    from services_of_nonempty [OF this] a
    show "\<exists>ms. (a, ms) \<in> set m \<and> length ms = n \<and> isInArchList archList a" by blast
  qed
  finally show ?thesis .
qed

lemma arch_layer_map_keys:
  assumes "arch_layer_map X w ms [] = Ok l"
  shows "layer_map_ok X l \<and> fst ` set l = (\<Union>e\<in>set ms. layer_keys X w (snd (fst e)) (snd e))"
proof -
  have "layer_map_ok X []" by (simp add: layer_map_ok_def)
  moreover have "h \<in> fst ` set l \<longleftrightarrow> (\<exists>e\<in>set ms. h \<in> layer_keys X w (snd (fst e)) (snd e))" for h
    using arch_layer_map_ok [OF assms] by (simp add: gm_has_iff [symmetric])
  ultimately show ?thesis using arch_layer_map_ok [OF assms] by blast
qed

lemma image_entries_Union:
  "(\<Union>e\<in>set (image_entries X w archList a i imgs). f (snd (fst e)) (snd e)) =
     (\<Union>(s, img)\<in>set imgs. case image_manifest_for X w archList img a of None \<Rightarrow> {} | Some (r, d) \<Rightarrow> f r d)"
proof (induction imgs arbitrary: i)
  case (Cons si imgs)
  obtain s img where si: "si = (s, img)" by force
  show ?case
  proof (cases "image_manifest_for X w archList img a")
    case None
    with Cons.IH [of "Suc i"] show ?thesis by (simp add: si)
  next
    case (Some p)
    obtain r d where p: "p = (r, d)" by force
    show ?thesis using Cons.IH [of "Suc i"]
      by (simp only: si Some p image_entries.simps option.case prod.case list.set UN_insert fst_conv snd_conv)
  qed
qed simp

end
