(* ===== verification/Publish.thy ===== *)
theory Publish
  imports Layers AppModel
begin

text \<open>
  Publishing an app (\<open>pkg/compose/v1/publish.go\<close> with \<open>internal/app_manifest_builder.go\<close>): the images of the
  services are pinned to digests, every service is labelled with the hash of its configuration, the
  directory of the app is archived with its limits and its index, and the archive, the index, the sizes
  of the layers and the manifest are put into the registry.
\<close>

section \<open>The project\<close>

fun environ_map :: "string list \<Rightarrow> (string, string) gomap \<Rightarrow> (string, string) gomap res" where
  "environ_map [] env = Ok env"
| "environ_map (v # vs) env =
     (case split_on (CHR ''='') v of
        k # x # _ \<Rightarrow> environ_map vs (gm_put k x env)
      | _ \<Rightarrow> Panic ''index out of range'')"

definition loadProj ::
  "('x, 'z) pub_scheme \<Rightarrow> string \<Rightarrow> string \<Rightarrow> bytes \<Rightarrow> proj_service list res" where
  "loadProj X appName file content =
     rbind (environ_map (os_environ X) []) (load_compose X appName file content)"

text \<open>
  The services of the parsed file are changed in place, each under the name of a service of the project; \<open>f\<close>
  gives the new attributes of a service.
\<close>

fun iterateServices ::
  "(proj_service \<Rightarrow> (string, jval) gomap \<Rightarrow> (string, jval) gomap res) \<Rightarrow> proj_service list \<Rightarrow>
   (string, jval) gomap \<Rightarrow> (string, jval) gomap res"
where
  "iterateServices f [] svcs = Ok svcs"
| "iterateServices f (s # ss) svcs =
     (case map_of svcs (ps_name s) of
        Some (JMap svc) \<Rightarrow>
          rbind (f s svc) (\<lambda>svc'. iterateServices f ss (gm_put (ps_name s) (JMap svc') svcs))
      | _ \<Rightarrow>
          (if ps_name s = ''extensions'' then iterateServices f ss svcs
           else Fail (Err (''Service('' @ ps_name s @ '') has invalid format''))))"

section \<open>Pinning\<close>

text \<open>The digest of an image: of its tag if it has one, else its own, else one given for its name.\<close>

definition pinned_digest ::
  "('x, 'z) pub_scheme \<Rightarrow> 'x world \<Rightarrow> (string, digest) gomap \<Rightarrow> string \<Rightarrow> named \<Rightarrow> repo \<Rightarrow> digest res" where
  "pinned_digest X w pinnedImages img nm r =
     (case nm_tag nm of
        Some tag \<Rightarrow>
          rcatch (rg_tag_get X w r tag) (\<lambda>desc. Ok (d_digest desc))
            (\<lambda>e. Fail (Err (''Unable to find image reference('' @ img @ ''): '' @ err_msg e)))
      | None \<Rightarrow>
          (case nm_digest nm of
             Some d \<Rightarrow> Ok d
           | None \<Rightarrow>
               (case map_of pinnedImages (named_Name nm) of
                  Some d \<Rightarrow> Ok d
                | None \<Rightarrow>
                    Fail (Err (''Invalid reference type for '' @ named_String nm @
                      '': reference.repository. Images must be pinned to a `:<tag>` or `@sha256:<hash>`'')))))"

definition pinned_ref :: "named \<Rightarrow> digest \<Rightarrow> string" where
  "pinned_ref nm d = nm_domain nm @ ''/'' @ nm_path nm @ ''@'' @ d"

definition pin_image ::
  "('x, 'z) pub_scheme \<Rightarrow> 'x world \<Rightarrow> (string, digest) gomap \<Rightarrow> proj_service \<Rightarrow> (string, jval) gomap \<Rightarrow>
   (string, jval) gomap res" where
  "pin_image X w pinnedImages s svc =
     (let img = ps_image s in
      if img = '''' then Fail (Err (''Service('' @ ps_name s @ '') missing 'image' attribute''))
      else
        (let svc1 = (if ps_build s then gm_del ''build'' svc else svc) in
         rbind (pn_normalized X img) (\<lambda>nm.
           rbind (GetRepository X w nm) (\<lambda>r.
             rbind (pinned_digest X w pinnedImages img nm r) (\<lambda>d.
               rbind (rcatch (repo_Manifests X r) Ok
                       (\<lambda>e. Fail (Err (''Unable to get image manifests('' @ img @ ''): '' @ err_msg e)))) (\<lambda>ms.
                 rbind (rcatch (rg_man_get X w ms d) Ok
                         (\<lambda>e. Fail (Err (''Unable to find image manifest('' @ img @ ''): '' @ err_msg e)))) (\<lambda>man.
                   (case man of
                      ManifestList es \<Rightarrow> Ok (gm_put ''image'' (JStr (pinned_ref nm d)) svc1)
                    | Schema2 cfg ls \<Rightarrow> Ok (gm_put ''image'' (JStr (pinned_ref nm d)) svc1)
                    | _ \<Rightarrow> Fail (Err ''Unexpected manifest'')))))))))"

definition pinServiceImages ::
  "('x, 'z) pub_scheme \<Rightarrow> 'x world \<Rightarrow> (string, jval) gomap \<Rightarrow> proj_service list \<Rightarrow> (string, digest) gomap \<Rightarrow>
   (string, jval) gomap res" where
  "pinServiceImages X w services proj pinnedImages =
     iterateServices (pin_image X w pinnedImages) proj services"

text \<open>The hash is that of the service as it stands before it gets the label.\<close>

definition pin_config ::
  "('x, 'z) pub_scheme \<Rightarrow> proj_service \<Rightarrow> (string, jval) gomap \<Rightarrow> (string, jval) gomap res" where
  "pin_config X s svc =
     rbind (yaml_bytes X (JMap svc)) (\<lambda>marshalled.
       let labels = (case ps_labels s of None \<Rightarrow> [] | Some ls \<Rightarrow> ls);
           labels' = gm_put ''io.compose-spec.config-hash'' (sha256_hex X marshalled) labels
       in Ok (gm_put ''labels'' (JMap (map (\<lambda>(k, v). (k, JStr v)) labels')) svc))"

definition pinServiceConfigs ::
  "('x, 'z) pub_scheme \<Rightarrow> (string, jval) gomap \<Rightarrow> proj_service list \<Rightarrow> (string, jval) gomap res" where
  "pinServiceConfigs X services proj = iterateServices (pin_config X) proj services"

section \<open>The archive\<close>

definition AppComposeMaxSize :: int where
  "AppComposeMaxSize = 1024 * 1024"

definition AppBundleMaxSize :: int where
  "AppBundleMaxSize = AppComposeMaxSize + AppBundleFileMaxSize"

definition getIgnores :: "('x, 'z) pub_scheme \<Rightarrow> fs \<Rightarrow> path \<Rightarrow> string list" where
  "getIgnores X fs appDir =
     (case os_read_file X fs (appDir @ [''.composeappignores'']) of
        Ok b \<Rightarrow> (case read_ignores X b of None \<Rightarrow> [] | Some ps \<Rightarrow> ps @ [''.composeappignores''])
      | _ \<Rightarrow> [])"

definition file_hash :: "('x, 'z) pub_scheme \<Rightarrow> bytes \<Rightarrow> string" where
  "file_hash X b = ''sha256:'' @ sha256_hex X b"

text \<open>What the loop over the archive keeps: whether the compose file was met, the hashes, the new archive.\<close>

record tgz_state =
  tz_size :: int
  tz_found :: bool
  tz_hashes :: "(string, string) gomap"
  tz_out :: "tar_entry list"

definition tgz_compose ::
  "('x, 'z) pub_scheme \<Rightarrow> bytes \<Rightarrow> tar_entry \<Rightarrow> tgz_state \<Rightarrow> tgz_state res" where
  "tgz_compose X compose e st =
     (let h = e\<lparr>te_size := int (length compose), te_data := compose\<rparr> in
      case tw_header_err X h of
        Some x \<Rightarrow> Fail (Err (''Unable to add docker-compose.yml header archive: '' @ err_msg x))
      | None \<Rightarrow>
          (case tw_write_err X h compose of
             Some x \<Rightarrow> Fail (Err (''Unable to add docker-compose.yml to archive: '' @ err_msg x))
           | None \<Rightarrow>
               Ok (st\<lparr>tz_found := True, tz_hashes := gm_put (te_name e) (file_hash X compose) (tz_hashes st),
                      tz_out := tz_out st @ [h]\<rparr>)))"

definition tgz_other ::
  "('x, 'z) pub_scheme \<Rightarrow> bytes \<Rightarrow> tar_entry \<Rightarrow> tgz_state \<Rightarrow> tgz_state res" where
  "tgz_other X compose e st =
     (case tw_header_err X e of
        Some x \<Rightarrow> Fail (Err (''Unable to add '' @ te_name e @ '' header archive: '' @ err_msg x))
      | None \<Rightarrow>
          (if \<not> te_dir e \<and> AppBundleFileMaxSize < te_size e
           then Fail (Err (''size of app bundle file exceeds the maximum allowed; file: '' @ te_name e @
             '', max allowed: '' @ show_int AppBundleFileMaxSize @ '', size: '' @ show_int (int (length compose))))
           else
             (case tw_write_err X e (te_data e) of
                Some x \<Rightarrow> Fail (Err (''Unable to add '' @ te_name e @ '' archive: '' @ err_msg x))
              | None \<Rightarrow>
                  Ok (st\<lparr>tz_hashes := (if te_dir e then tz_hashes st
                                       else gm_put (te_name e) (file_hash X (te_data e)) (tz_hashes st)),
                         tz_out := tz_out st @ [e]\<rparr>))))"

fun tgz_loop ::
  "('x, 'z) pub_scheme \<Rightarrow> bytes \<Rightarrow> tar_entry list \<Rightarrow> tgz_state \<Rightarrow> tgz_state res"
where
  "tgz_loop X compose [] st = Ok st"
| "tgz_loop X compose (e # es) st =
     (let st1 = st\<lparr>tz_size := i64 (tz_size st + te_size e)\<rparr> in
      if AppBundleMaxSize < tz_size st1
      then Fail (Err (''app bundle size exceeds the maximum allowed: '' @ show_int AppBundleMaxSize))
      else rbind (if te_name e = ''docker-compose.yml'' then tgz_compose X compose e st1
                  else tgz_other X compose e st1)
             (tgz_loop X compose es))"

definition createTgz ::
  "('x, 'z) pub_scheme \<Rightarrow> fs \<Rightarrow> bytes \<Rightarrow> path \<Rightarrow> (bytes \<times> (string, string) gomap) res" where
  "createTgz X fs composeContent appDir =
     (if AppComposeMaxSize < int (length composeContent)
      then Fail (Err (''size of app compose file exceeds the maximum allowed; max allowed: '' @
             show_int AppComposeMaxSize @ '', size: '' @ show_int (int (length composeContent))))
      else
        rbind (tar_dir X fs appDir (getIgnores X fs appDir)) (\<lambda>(es, err).
          rbind (tgz_loop X composeContent es \<lparr>tz_size = 0, tz_found = False, tz_hashes = [], tz_out = []\<rparr>) (\<lambda>st.
            (case err of
               Some e \<Rightarrow> Fail e
             | None \<Rightarrow>
                 if \<not> tz_found st then Fail (Err ''A .composeappignores rule is discarding docker-compose.yml'')
                 else Ok (pack_tgz X (tz_out st), tz_hashes st)))))"

section \<open>The manifest builder\<close>

record manifest_builder =
  mb_repo :: repo
  mb_manifest :: app_manifest

text \<open>The descriptor of the empty JSON object, which stands for the configuration.\<close>

definition empty_json_desc :: descriptor where
  "empty_json_desc = zero_desc\<lparr>d_media := ''application/vnd.oci.empty.v1+json'', d_size := 2,
     d_digest := ''sha256:44136fa355b3678a1146ad16f7e8649e94fb4fc21fe77e8310c060f61caaff8a''\<rparr>"

definition AppManifestTemplate :: app_manifest where
  "AppManifestTemplate =
     \<lparr>am_schema = 2, am_media = ''application/vnd.oci.image.manifest.v1+json'', am_config = empty_json_desc,
      am_annot = [(''compose-app'', ''v1'')], am_artifact = ''application/vnd.fio+compose-app'',
      am_layers = [], am_manifests = []\<rparr>"

definition NewManifestBuilder :: "repo \<Rightarrow> manifest_builder" where
  "NewManifestBuilder r = \<lparr>mb_repo = r, mb_manifest = AppManifestTemplate\<rparr>"

definition AppendReference :: "descriptor \<Rightarrow> manifest_builder \<Rightarrow> manifest_builder" where
  "AppendReference d mb = mb\<lparr>mb_manifest := (mb_manifest mb)\<lparr>am_layers := am_layers (mb_manifest mb) @ [d]\<rparr>\<rparr>"

definition References :: "manifest_builder \<Rightarrow> descriptor list" where
  "References mb = am_layers (mb_manifest mb)"

definition SetLayerMetaManifests :: "descriptor list \<Rightarrow> manifest_builder \<Rightarrow> manifest_builder" where
  "SetLayerMetaManifests ms mb = mb\<lparr>mb_manifest := (mb_manifest mb)\<lparr>am_manifests := ms\<rparr>\<rparr>"

text \<open>The decoded manifest keeps the bytes that were decoded as its payload.\<close>

definition fromStruct :: "('x, 'z) pub_scheme \<Rightarrow> app_manifest \<Rightarrow> bytes res" where
  "fromStruct X m =
     (let canonical = json_app_manifest X m in
      case oci_unmarshal_err X canonical of Some e \<Rightarrow> Fail e | None \<Rightarrow> Ok canonical)"

definition mb_Build :: "('x, 'z) pub_scheme \<Rightarrow> manifest_builder \<Rightarrow> 'x world \<Rightarrow> 'x world \<times> bytes res" where
  "mb_Build X mb w =
     (let cfg = am_config (mb_manifest mb) in
      sbind (slift (rg_blob_stat X w (mb_repo mb) (d_digest cfg)) w) (\<lambda>known w.
        if known then (w, fromStruct X (mb_manifest mb))
        else sbind (rg_blob_put X w (mb_repo mb) (d_media cfg) ''{}'') (\<lambda>_ w.
          (w, fromStruct X (mb_manifest mb)))))"

section \<open>Publishing\<close>

definition os_getenv :: "('x, 'z) pub_scheme \<Rightarrow> string \<Rightarrow> string" where
  "os_getenv X k =
     (case find (prefix (k @ ''='')) (os_environ X) of None \<Rightarrow> '''' | Some v \<Rightarrow> drop (length k + 1) v)"

definition publishAppBundleIndexBlob ::
  "('x, 'z) pub_scheme \<Rightarrow> repo \<Rightarrow> (string, string) gomap \<Rightarrow> 'x world \<Rightarrow> 'x world \<times> descriptor res" where
  "publishAppBundleIndexBlob X r hashes w =
     sbind (slift (json_hashes X hashes) w) (\<lambda>b w. rg_blob_put X w r ''application/json'' b)"

text \<open>An index that cannot be published is left out; the app is published without it.\<close>

definition annotate_index ::
  "('x, 'z) pub_scheme \<Rightarrow> repo \<Rightarrow> (string, string) gomap \<Rightarrow> descriptor \<Rightarrow> 'x world \<Rightarrow> 'x world \<times> descriptor res" where
  "annotate_index X r hashes desc w =
     (if os_getenv X ''APP_BUNDLE_INDEX_OFF'' \<noteq> ''1'' \<and> hashes \<noteq> []
      then (case publishAppBundleIndexBlob X r hashes w of
              (w', Ok d) \<Rightarrow>
                (w', Ok (desc\<lparr>d_annot := Some [(AnnotationKeyAppBundleIndexDigest, d_digest d),
                                               (AnnotationKeyAppBundleIndexSize, show_int (d_size d))]\<rparr>))
            | (w', Fail _) \<Rightarrow> (w', Ok desc)
            | (w', Panic m) \<Rightarrow> (w', Panic m))
      else (w, Ok desc))"

definition append_layers_meta ::
  "('x, 'z) pub_scheme \<Rightarrow> repo \<Rightarrow> bytes option \<Rightarrow> manifest_builder \<Rightarrow> 'x world \<Rightarrow> 'x world \<times> manifest_builder res" where
  "append_layers_meta X r meta mb w =
     (case meta of
        None \<Rightarrow> (w, Ok mb)
      | Some b \<Rightarrow>
          (case rg_blob_put X w r ''application/json'' b of
             (w', Ok d) \<Rightarrow> (w', Ok (AppendReference (d\<lparr>d_annot := Some [(''layers-meta'', ''v1'')]\<rparr>) mb))
           | (w', Fail e) \<Rightarrow>
               (w', Fail (Err (''failed to put App layers meta to the App blob store: '' @ err_msg e)))
           | (w', Panic m) \<Rightarrow> (w', Panic m)))"

definition put_app_manifest ::
  "('x, 'z) pub_scheme \<Rightarrow> repo \<Rightarrow> string \<Rightarrow> bytes \<Rightarrow> 'x world \<Rightarrow> 'x world \<times> string res" where
  "put_app_manifest X r tag b w =
     (if AppManifestMaxSize \<le> int (length b)
      then (w, Fail (Err (''app manifest size ('' @ show_int (int (length b)) @ '') exceeds the maximum size limit ('' @
             show_int AppManifestMaxSize @ '')'')))
      else sbind (slift (repo_Manifests X r) w) (\<lambda>ms w. rg_man_put X w ms AppManifestMediaType b tag))"

definition publish_blobs ::
  "('x, 'z) pub_scheme \<Rightarrow> repo \<Rightarrow> string \<Rightarrow> bytes \<Rightarrow> (string, string) gomap \<Rightarrow> descriptor list option \<Rightarrow>
   bytes option \<Rightarrow> 'x world \<Rightarrow> 'x world \<times> string res" where
  "publish_blobs X r tag buff hashes layerManifests appLayersMetaData w =
     sbind (rg_blob_put X w r AppLayerMediaType buff) (\<lambda>desc0 w.
       sbind (annotate_index X r hashes (desc0\<lparr>d_media := AppLayerMediaType\<rparr>) w) (\<lambda>desc w.
         sbind (append_layers_meta X r appLayersMetaData (AppendReference desc (NewManifestBuilder r)) w) (\<lambda>mb w.
           sbind (mb_Build X (case layerManifests of None \<Rightarrow> mb | Some ms \<Rightarrow> SetLayerMetaManifests ms mb) w) (\<lambda>b w.
             put_app_manifest X r tag b w))))"

definition publish_tag :: "named \<Rightarrow> string" where
  "publish_tag nm = (case nm_tag nm of None \<Rightarrow> ''latest'' | Some t \<Rightarrow> t)"

definition createAndPublishApp ::
  "('x, 'z) pub_scheme \<Rightarrow> path \<Rightarrow> (string, jval) gomap \<Rightarrow> string \<Rightarrow> bool \<Rightarrow> descriptor list option \<Rightarrow>
   bytes option \<Rightarrow> 'x world \<Rightarrow> 'x world \<times> string res" where
  "createAndPublishApp X appDir config target dryRun layerManifests appLayersMetaData w =
     sbind (slift (yaml_bytes X (JMap config)) w) (\<lambda>pinned w.
       sbind (slift (createTgz X (w_fs w) pinned appDir) w) (\<lambda>(buff, hashes) w.
         sbind (slift (pn_normalized X target) w) (\<lambda>nm w.
           sbind (slift (GetRepository X w nm) w) (\<lambda>r w.
             if dryRun
             then (let (fs', e) = os_write_file X (w_fs w) [''tmp'', ''compose-bundle.tgz''] buff
                   in (w\<lparr>w_fs := fs'\<rparr>, case e of None \<Rightarrow> Ok '''' | Some x \<Rightarrow> Fail x))
             else publish_blobs X r (publish_tag nm) buff hashes layerManifests appLayersMetaData w))))"

text \<open>The services of the compose file, pinned and labelled.\<close>

definition pinned_services ::
  "('x, 'z) pub_scheme \<Rightarrow> 'x world \<Rightarrow> (string, jval) gomap \<Rightarrow> proj_service list \<Rightarrow> (string, digest) gomap \<Rightarrow>
   (string, jval) gomap res" where
  "pinned_services X w config proj pinnedImages =
     (case map_of config ''services'' of
        None \<Rightarrow> Fail (Err ''Unable to find 'services' section of composetypes file'')
      | Some (JMap svcs) \<Rightarrow>
          rbind (pinServiceImages X w svcs proj pinnedImages) (\<lambda>svcs'. pinServiceConfigs X svcs' proj)
      | Some _ \<Rightarrow> Panic ''interface conversion: interface {} is not map[string]interface {}'')"

definition DoPublish ::
  "('x, 'z) pub_scheme \<Rightarrow> path \<Rightarrow> string \<Rightarrow> path \<Rightarrow> string \<Rightarrow> path option \<Rightarrow> bool \<Rightarrow> string list \<Rightarrow>
   (string, digest) gomap \<Rightarrow> path option \<Rightarrow> bool \<Rightarrow> 'x world \<Rightarrow> 'x world \<times> unit res" where
  "DoPublish X appDir appName file target digestFile dryRun archList pinnedImages layersMetaFile createManifest w =
     sbind (slift (os_read_file X (w_fs w) file) w) (\<lambda>b w.
       sbind (slift (parse_yaml X b) w) (\<lambda>config w.
         sbind (slift (loadProj X appName (path_str file) b) w) (\<lambda>proj w.
           sbind (slift (pinned_services X w config proj pinnedImages) w) (\<lambda>svcs w.
             sbind (slift (GetLayers X w svcs archList) w) (\<lambda>appLayers w.
               if appLayers = []
               then (w, Fail (Err ''none of the factory architectures are supported by App images''))
               else
                 sbind (if createManifest
                        then sbind (PostAppLayersManifests X target appLayers dryRun w) (\<lambda>ms w. (w, Ok (Some ms)))
                        else (w, Ok None)) (\<lambda>layerManifests w.
                   sbind (case layersMetaFile of
                            None \<Rightarrow> (w, Ok None)
                          | Some f \<Rightarrow>
                              (w, rcatch (GetAppLayersMeta X w f appLayers) (\<lambda>b. Ok (Some b))
                                 (\<lambda>e. Fail (Err (''= Failed to get app layers metadata: '' @ err_msg e))))) (\<lambda>meta w.
                     sbind (createAndPublishApp X appDir (gm_put ''services'' (JMap svcs) config) target dryRun
                              layerManifests meta w) (\<lambda>dgst w.
                       (case digestFile of
                          None \<Rightarrow> (w, Ok ())
                        | Some f \<Rightarrow>
                            (let (fs', e) = os_write_file X (w_fs w) f dgst
                             in serr (w\<lparr>w_fs := fs'\<rparr>, e)))))))))))"

section \<open>The archive and its index\<close>

definition entry_out :: "bytes \<Rightarrow> tar_entry \<Rightarrow> tar_entry" where
  "entry_out compose e =
     (if te_name e = ''docker-compose.yml'' then e\<lparr>te_size := int (length compose), te_data := compose\<rparr> else e)"

definition has_hash :: "tar_entry \<Rightarrow> bool" where
  "has_hash e \<longleftrightarrow> te_name e = ''docker-compose.yml'' \<or> \<not> te_dir e"

definition put_hash ::
  "('x, 'z) pub_scheme \<Rightarrow> bytes \<Rightarrow> tar_entry \<Rightarrow> (string, string) gomap \<Rightarrow> (string, string) gomap" where
  "put_hash X compose e m =
     (if has_hash e then gm_put (te_name e) (file_hash X (te_data (entry_out compose e))) m else m)"

lemma tgz_step_ok:
  assumes "(if te_name e = ''docker-compose.yml'' then tgz_compose X compose e st else tgz_other X compose e st) = Ok st'"
  shows "st' = st\<lparr>tz_found := tz_found st \<or> te_name e = ''docker-compose.yml'',
      tz_hashes := put_hash X compose e (tz_hashes st), tz_out := tz_out st @ [entry_out compose e]\<rparr> \<and>
    (te_name e \<noteq> ''docker-compose.yml'' \<longrightarrow> \<not> te_dir e \<longrightarrow> te_size e \<le> AppBundleFileMaxSize)"
  using assms
  by (auto simp: tgz_compose_def tgz_other_def entry_out_def put_hash_def has_hash_def Let_def
      split: if_splits option.splits)

lemma tgz_loop_ok:
  assumes "tgz_loop X compose es st = Ok st'"
  shows "tz_out st' = tz_out st @ map (entry_out compose) es \<and>
    (tz_found st' \<longleftrightarrow> tz_found st \<or> ''docker-compose.yml'' \<in> te_name ` set es) \<and>
    tz_hashes st' = fold (put_hash X compose) es (tz_hashes st) \<and>
    (\<forall>e\<in>set es. te_name e \<noteq> ''docker-compose.yml'' \<longrightarrow> \<not> te_dir e \<longrightarrow> te_size e \<le> AppBundleFileMaxSize)"
  using assms
proof (induction es arbitrary: st)
  case (Cons e es)
  let ?st = "st\<lparr>tz_size := i64 (tz_size st + te_size e)\<rparr>"
  from Cons.prems obtain st1 where st1: "(if te_name e = ''docker-compose.yml'' then tgz_compose X compose e ?st
      else tgz_other X compose e ?st) = Ok st1" and rest: "tgz_loop X compose es st1 = Ok st'"
    by (auto simp: Let_def rbind_Ok_iff split: if_splits)
  from Cons.IH [OF rest] tgz_step_ok [OF st1] show ?case by auto
qed simp

lemma tgz_loop_size:
  assumes "tgz_loop X compose es st = Ok st'" and "\<forall>e\<in>set es. 0 \<le> te_size e \<and> te_size e < 2 ^ 62"
    and "0 \<le> tz_size st" and "tz_size st \<le> AppBundleMaxSize"
  shows "tz_size st + (\<Sum>e\<leftarrow>es. te_size e) \<le> AppBundleMaxSize"
  using assms
proof (induction es arbitrary: st)
  case (Cons e es)
  let ?st = "st\<lparr>tz_size := i64 (tz_size st + te_size e)\<rparr>"
  from Cons.prems(1) obtain st1 where st1: "(if te_name e = ''docker-compose.yml'' then tgz_compose X compose e ?st
      else tgz_other X compose e ?st) = Ok st1" and rest: "tgz_loop X compose es st1 = Ok st'"
    and le: "i64 (tz_size st + te_size e) \<le> AppBundleMaxSize"
    by (auto simp: Let_def rbind_Ok_iff split: if_splits)
  have "tz_size st + te_size e < 2 ^ 63"
    using Cons.prems(2,4) by (simp add: AppBundleMaxSize_def AppComposeMaxSize_def AppBundleFileMaxSize_def)
  then have n: "i64 (tz_size st + te_size e) = tz_size st + te_size e"
    using Cons.prems(2,3) by (intro i64_id) (simp add: in_i64_def)
  have s: "tz_size st1 = tz_size st + te_size e" using tgz_step_ok [OF st1] n by simp
  from Cons.IH [OF rest] Cons.prems(2,3) le n s show ?case by simp
qed simp

lemma map_of_put_hash [simp]:
  "map_of (put_hash X compose e m) n =
     (if n = te_name e \<and> has_hash e then Some (file_hash X (te_data (entry_out compose e))) else map_of m n)"
  by (auto simp: put_hash_def update_conv)

lemma fold_put_hash_notin:
  "n \<notin> te_name ` set es \<Longrightarrow> map_of (fold (put_hash X compose) es m) n = map_of m n"
  by (induction es arbitrary: m) auto

lemma map_of_put_hashes:
  assumes "distinct (map te_name es)"
  shows "map_of (fold (put_hash X compose) es m) n =
    (case find (\<lambda>e. te_name e = n \<and> has_hash e) es of
       None \<Rightarrow> map_of m n
     | Some e \<Rightarrow> Some (file_hash X (te_data (entry_out compose e))))"
  using assms
proof (induction es arbitrary: m)
  case (Cons e es)
  have "find (\<lambda>x. te_name x = te_name e \<and> has_hash x) es = None"
    using Cons.prems by (auto simp: find_None_iff) (metis image_eqI)
  with Cons show ?case by (auto simp: fold_put_hash_notin split: option.split)
qed simp

lemma find_name:
  assumes "distinct (map te_name es)"
  shows "find (\<lambda>e. te_name e = n \<and> has_hash e) es = Some e \<longleftrightarrow> e \<in> set es \<and> te_name e = n \<and> has_hash e"
  using assms by (induction es) (auto simp: image_iff)

lemma map_of_hashes_iff:
  assumes "distinct (map te_name es)"
  shows "map_of (fold (put_hash X compose) es []) n = Some h \<longleftrightarrow>
    (\<exists>e\<in>set es. te_name e = n \<and> has_hash e \<and> h = file_hash X (te_data (entry_out compose e)))"
proof (cases "find (\<lambda>e. te_name e = n \<and> has_hash e) es")
  case None
  moreover from None have "\<not> (\<exists>e\<in>set es. te_name e = n \<and> has_hash e)" by (auto simp: find_None_iff)
  ultimately show ?thesis by (auto simp: map_of_put_hashes [OF assms])
next
  case (Some e)
  then have e: "e \<in> set es" "te_name e = n" "has_hash e" using find_name [OF assms] by blast+
  have m: "map_of (fold (put_hash X compose) es []) n = Some (file_hash X (te_data (entry_out compose e)))"
    by (simp add: map_of_put_hashes [OF assms] Some)
  have u: "e' = e" if "e' \<in> set es" "te_name e' = n" "has_hash e'" for e'
    using find_name [OF assms, of n e'] that Some by simp
  show ?thesis
  proof
    assume "map_of (fold (put_hash X compose) es []) n = Some h"
    with m have "h = file_hash X (te_data (entry_out compose e))" by simp
    with e show "\<exists>e\<in>set es. te_name e = n \<and> has_hash e \<and> h = file_hash X (te_data (entry_out compose e))" by blast
  next
    assume "\<exists>e\<in>set es. te_name e = n \<and> has_hash e \<and> h = file_hash X (te_data (entry_out compose e))"
    then obtain e' where e': "e' \<in> set es" "te_name e' = n" "has_hash e'"
      and h: "h = file_hash X (te_data (entry_out compose e'))" by blast
    show "map_of (fold (put_hash X compose) es []) n = Some h" using m h u [OF e'] by simp
  qed
qed

lemma createTgz_ok:
  assumes "createTgz X fs compose dir = Ok (b, hashes)"
  obtains es st where "tar_dir X fs dir (getIgnores X fs dir) = Ok (es, None)"
    "tgz_loop X compose es \<lparr>tz_size = 0, tz_found = False, tz_hashes = [], tz_out = []\<rparr> = Ok st"
    "tz_found st" "b = pack_tgz X (tz_out st)" "hashes = tz_hashes st"
    "int (length compose) \<le> AppComposeMaxSize"
  using assms by (auto simp: createTgz_def rbind_Ok_iff split: if_splits option.splits)

section \<open>Changing the services\<close>

lemma iterateServices_ok:
  assumes "iterateServices f ss svcs = Ok svcs'" and "distinct (map ps_name ss)"
  shows "(\<forall>s\<in>set ss. \<forall>svc. map_of svcs (ps_name s) = Some (JMap svc) \<longrightarrow>
      (\<exists>svc'. f s svc = Ok svc' \<and> map_of svcs' (ps_name s) = Some (JMap svc'))) \<and>
    (\<forall>n. n \<notin> ps_name ` set ss \<longrightarrow> map_of svcs' n = map_of svcs n)"
  using assms
proof (induction ss arbitrary: svcs)
  case (Cons s ss)
  have "ps_name s \<notin> ps_name ` set ss" using Cons.prems(2) by simp
  then have other: "ps_name t \<noteq> ps_name s" if "t \<in> set ss" for t using that by (metis image_eqI)
  show ?case
  proof (cases "\<exists>svc. map_of svcs (ps_name s) = Some (JMap svc)")
    case True
    then obtain svc where svc: "map_of svcs (ps_name s) = Some (JMap svc)" by blast
    with Cons.prems(1) obtain svc' where f: "f s svc = Ok svc'"
      and rest: "iterateServices f ss (gm_put (ps_name s) (JMap svc') svcs) = Ok svcs'" by (auto simp: rbind_Ok_iff)
    from Cons.IH [OF rest] Cons.prems(2) f svc other show ?thesis by (auto simp: update_conv)
  next
    case False
    with Cons.prems(1) have rest: "iterateServices f ss svcs = Ok svcs'"
      by (auto split: option.splits jval.splits if_splits)
    from Cons.IH [OF rest] Cons.prems(2) False show ?thesis by auto
  qed
qed simp

section \<open>A dry run\<close>

lemma post_manifests_dry: "fst (post_manifests X r layers True archs w) = w"
proof (induction archs)
  case (Cons a archs)
  obtain v r2 where p: "post_manifests X r layers True archs w = (v, r2)" by force
  with Cons have "v = w" by simp
  with p show ?case by (auto simp: sbind_pair slift_def split: res.split prod.split)
qed simp

lemma PostAppLayersManifests_dry: "fst (PostAppLayersManifests X ref layers True w) = w"
  by (simp add: PostAppLayersManifests_def sbind_pair slift_def post_manifests_dry split: res.split)

lemma createAndPublishApp_dry:
  "w_ext (fst (createAndPublishApp X dir config target True ms meta w)) = w_ext w"
  by (auto simp: createAndPublishApp_def sbind_pair slift_def Let_def split: res.split prod.split)

lemma DoPublish_dry:
  "w_ext (fst (DoPublish X dir appName file target digestFile True archList pinned metaFile createManifest w)) = w_ext w"
  unfolding DoPublish_def
  by (intro sbind_keeps [where P = "\<lambda>v. w_ext v = w_ext w"] slift_keeps [where P = "\<lambda>v. w_ext v = w_ext w"]
      if_keeps [where P = "\<lambda>v. w_ext v = w_ext w"])
    (auto simp: PostAppLayersManifests_dry createAndPublishApp_dry serr_def Let_def
      split: option.split prod.split intro!: sbind_keeps [where P = "\<lambda>v. w_ext v = w_ext w"])

section \<open>What pinning gives\<close>

lemma pin_image_ok:
  assumes "pin_image X w pinnedImages s svc = Ok svc'"
  obtains nm r d where "pn_normalized X (ps_image s) = Ok nm" "GetRepository X w nm = Ok r"
    "pinned_digest X w pinnedImages (ps_image s) nm r = Ok d" "map_of svc' ''image'' = Some (JStr (pinned_ref nm d))"
    "ps_build s \<longrightarrow> map_of svc' ''build'' = None"
proof -
  from assms obtain nm r d ms man where p: "pn_normalized X (ps_image s) = Ok nm" "GetRepository X w nm = Ok r"
    "pinned_digest X w pinnedImages (ps_image s) nm r = Ok d"
    and m: "(case man of ManifestList es \<Rightarrow> Ok (gm_put ''image'' (JStr (pinned_ref nm d)) (if ps_build s then gm_del ''build'' svc else svc))
       | Schema2 cfg ls \<Rightarrow> Ok (gm_put ''image'' (JStr (pinned_ref nm d)) (if ps_build s then gm_del ''build'' svc else svc))
       | _ \<Rightarrow> Fail (Err ''Unexpected manifest'')) = Ok svc'"
    by (auto simp: pin_image_def Let_def rbind_Ok_iff rcatch_Ok_iff split: if_splits)
  from m have "svc' = gm_put ''image'' (JStr (pinned_ref nm d)) (if ps_build s then gm_del ''build'' svc else svc)"
    by (cases man) auto
  then have "map_of svc' ''image'' = Some (JStr (pinned_ref nm d))" "ps_build s \<longrightarrow> map_of svc' ''build'' = None"
    by (simp_all add: update_conv delete_conv)
  with p that show thesis by blast
qed

lemma pin_config_ok:
  assumes "pin_config X s svc = Ok svc'"
  obtains b labels where "yaml_bytes X (JMap svc) = Ok b"
    "map_of labels ''io.compose-spec.config-hash'' = Some (JStr (sha256_hex X b))"
    "svc' = gm_put ''labels'' (JMap labels) svc"
proof -
  from assms obtain b where b: "yaml_bytes X (JMap svc) = Ok b"
    and u: "svc' = gm_put ''labels'' (JMap (map (\<lambda>(k, v). (k, JStr v)) (gm_put ''io.compose-spec.config-hash''
      (sha256_hex X b) (case ps_labels s of None \<Rightarrow> [] | Some ls \<Rightarrow> ls)))) svc"
    by (auto simp: pin_config_def Let_def rbind_Ok_iff)
  show thesis by (rule that [OF b _ u]) (simp add: map_of_map update_conv)
qed

lemma pinned_digest_ok:
  assumes "pinned_digest X w pinnedImages img nm r = Ok d"
  shows "case nm_tag nm of
       Some t \<Rightarrow> \<exists>desc. rg_tag_get X w r t = Ok desc \<and> d = d_digest desc
     | None \<Rightarrow> (case nm_digest nm of Some d' \<Rightarrow> d = d' | None \<Rightarrow> map_of pinnedImages (named_Name nm) = Some d)"
  using assms by (auto simp: pinned_digest_def rcatch_Ok_iff split: option.splits)

section \<open>The manifest that is published\<close>

lemma append_layers_meta_ok:
  assumes "append_layers_meta X r meta mb w = (w', Ok mb')"
  obtains rest where "am_layers (mb_manifest mb') = am_layers (mb_manifest mb) @ rest" "rest = [] \<longleftrightarrow> meta = None"
    "am_artifact (mb_manifest mb') = am_artifact (mb_manifest mb)" "am_manifests (mb_manifest mb') = am_manifests (mb_manifest mb)"
  using assms by (auto simp: append_layers_meta_def AppendReference_def split: option.splits prod.splits res.splits)

lemma mb_Build_ok:
  assumes "mb_Build X mb w = (w', Ok b)"
  shows "b = json_app_manifest X (mb_manifest mb) \<and> oci_unmarshal_err X b = None"
  using assms
  by (auto simp: mb_Build_def Let_def stmt_iffs fromStruct_def split: if_splits option.splits)

lemma put_app_manifest_ok:
  assumes "put_app_manifest X r tag b w = (w', Ok d)"
  obtains ms where "int (length b) < AppManifestMaxSize" "repo_Manifests X r = Ok ms"
    "rg_man_put X w ms AppManifestMediaType b tag = (w', Ok d)"
  using assms by (auto simp: put_app_manifest_def stmt_iffs split: if_splits)

lemma annotate_index_media:
  "annotate_index X r hashes desc w = (w', Ok d) \<Longrightarrow> d_media d = d_media desc"
  by (auto simp: annotate_index_def split: if_splits prod.splits res.splits)

lemma publish_blobs_manifest:
  assumes "publish_blobs X r tag buff hashes layerManifests meta w = (w', Ok dgst)"
  obtains m w1 ms bd rest where "am_layers m = bd # rest" "d_media bd = AppLayerMediaType"
    "rest = [] \<longleftrightarrow> meta = None" "am_artifact m = ''application/vnd.fio+compose-app''"
    "am_manifests m = (case layerManifests of None \<Rightarrow> [] | Some ds \<Rightarrow> ds)"
    "int (length (json_app_manifest X m)) < AppManifestMaxSize" "oci_unmarshal_err X (json_app_manifest X m) = None"
    "repo_Manifests X r = Ok ms" "rg_man_put X w1 ms AppManifestMediaType (json_app_manifest X m) tag = (w', Ok dgst)"
proof -
  from assms obtain desc0 w1 desc w2 mb w3 b w4 where
    a: "annotate_index X r hashes (desc0\<lparr>d_media := AppLayerMediaType\<rparr>) w1 = (w2, Ok desc)"
    and m: "append_layers_meta X r meta (AppendReference desc (NewManifestBuilder r)) w2 = (w3, Ok mb)"
    and b: "mb_Build X (case layerManifests of None \<Rightarrow> mb | Some ms \<Rightarrow> SetLayerMetaManifests ms mb) w3 = (w4, Ok b)"
    and p: "put_app_manifest X r tag b w4 = (w', Ok dgst)"
    by (auto simp: publish_blobs_def sbind_Ok_iff)
  obtain rest where r: "am_layers (mb_manifest mb) = [desc] @ rest" "rest = [] \<longleftrightarrow> meta = None"
    "am_artifact (mb_manifest mb) = ''application/vnd.fio+compose-app''" "am_manifests (mb_manifest mb) = []"
    by (rule append_layers_meta_ok [OF m]) (auto simp: AppendReference_def NewManifestBuilder_def AppManifestTemplate_def)
  let ?mb = "case layerManifests of None \<Rightarrow> mb | Some ms \<Rightarrow> SetLayerMetaManifests ms mb"
  obtain ms where ms: "int (length b) < AppManifestMaxSize" "repo_Manifests X r = Ok ms"
    "rg_man_put X w4 ms AppManifestMediaType b tag = (w', Ok dgst)"
    by (rule put_app_manifest_ok [OF p])
  have "am_layers (mb_manifest ?mb) = desc # rest" "am_artifact (mb_manifest ?mb) = ''application/vnd.fio+compose-app''"
    "am_manifests (mb_manifest ?mb) = (case layerManifests of None \<Rightarrow> [] | Some ds \<Rightarrow> ds)"
    using r by (auto simp: SetLayerMetaManifests_def split: option.split)
  moreover have "d_media desc = AppLayerMediaType" using annotate_index_media [OF a] by simp
  moreover note mb_Build_ok [OF b] ms r(2)
  ultimately show thesis using that by blast
qed

end
