(* ===== verification/Cli.thy ===== *)
theory Cli
  imports Runner Fetch
begin

text \<open>
  The commands of \<open>composectl\<close> (\<open>cmd/composectl/cmd\<close>) as far as they decide anything: which apps the
  user means, the space check before a pull, the check, pull, install, run, stop, uninstall, remove
  and prune commands and the commands on updates.  A command ends with a value (what it prints, as data) or
  with an exit status and an error; a panic is the exit status 2.  The text that is printed is not modelled.
\<close>

section \<open>Ending a command\<close>

datatype 'a outcome = Done 'a | Exit int error

definition DieNotNilWithCode :: "int \<Rightarrow> 'x world \<times> 'a res \<Rightarrow> 'x world \<times> 'a outcome" where
  "DieNotNilWithCode code p =
     (fst p, case snd p of Ok v \<Rightarrow> Done v | Fail e \<Rightarrow> Exit code e | Panic m \<Rightarrow> Exit 2 (Err m))"

definition DieNotNil :: "'x world \<times> 'a res \<Rightarrow> 'x world \<times> 'a outcome" where
  "DieNotNil p = DieNotNilWithCode 1 p"

fun obind :: "'s \<times> 'a outcome \<Rightarrow> ('a \<Rightarrow> 's \<Rightarrow> 's \<times> 'b outcome) \<Rightarrow> 's \<times> 'b outcome" where
  "obind (s, Done a) f = f a s"
| "obind (s, Exit c e) f = (s, Exit c e)"

lemma obind_Done_iff: "obind p f = (s', Done b) \<longleftrightarrow> (\<exists>s a. p = (s, Done a) \<and> f a s = (s', Done b))"
  by (cases "(p, f)" rule: obind.cases) auto

lemma DieNotNil_Done_iff: "DieNotNil p = (s, Done a) \<longleftrightarrow> p = (s, Ok a)"
  by (cases p) (auto simp: DieNotNil_def DieNotNilWithCode_def split: res.splits)

lemma obind_pair: "obind (s, r) f = (case r of Done a \<Rightarrow> f a s | Exit c e \<Rightarrow> (s, Exit c e))"
  by (cases r) simp_all

section \<open>Which apps are meant\<close>

text \<open>
  The search for one name or URI in the apps of the store: whether it was found by name and by URI, and the
  apps that were found; a second app of the same name is an error unless several versions are allowed.
\<close>

fun find_user_app ::
  "'z lib_scheme \<Rightarrow> bool \<Rightarrow> string \<Rightarrow> app_ctx list \<Rightarrow> bool \<Rightarrow> app_ctx list \<Rightarrow> (bool \<times> bool \<times> app_ctx list) res"
where
  "find_user_app L multi nu [] foundName found = Ok (foundName, False, found)"
| "find_user_app L multi nu (app # apps) foundName found =
     (if a_Name app = nu
      then (if \<not> multi \<and> foundName
            then Fail (Err (''more than two versions of the same app found in the local app store: '' @ a_Name app))
            else find_user_app L multi nu apps True (found @ [app]))
      else if AppRef_String L (a_ref app) = nu then Ok (foundName, True, found @ [app])
      else find_user_app L multi nu apps foundName found)"

fun check_user_apps ::
  "'z lib_scheme \<Rightarrow> bool \<Rightarrow> bool \<Rightarrow> app_ctx list \<Rightarrow> string list \<Rightarrow> (string, app_ctx list) gomap \<Rightarrow>
   (string, app_ctx list) gomap res"
where
  "check_user_apps L checkIfExist multi apps [] checked = Ok checked"
| "check_user_apps L checkIfExist multi apps (nu # nus) checked =
     rbind (find_user_app L multi nu apps False []) (\<lambda>(foundName, foundURI, found).
       if \<not> foundName \<and> \<not> foundURI
       then (if checkIfExist then Fail (Err (''app not found in local app store: '' @ nu))
             else check_user_apps L checkIfExist multi apps nus checked)
       else (case found of
               [] \<Rightarrow> Panic ''index out of range''
             | app # _ \<Rightarrow>
                 (if gm_has checked (a_Name app)
                  then Fail (Err (''the same app specified more than once: '' @ a_Name app))
                  else check_user_apps L checkIfExist multi apps nus (gm_put (a_Name app) found checked))))"

definition checkUserListedApps ::
  "('x, 'z) sys_scheme \<Rightarrow> config \<Rightarrow> string list \<Rightarrow> bool \<Rightarrow> bool \<Rightarrow> 'x world \<Rightarrow> string list res" where
  "checkUserListedApps X cfg userListedApps checkIfExist multi w =
     rbind (compose_ListApps X cfg w) (\<lambda>apps.
       let inputAppRefs = (if userListedApps = [] then map a_Name apps else userListedApps) in
       rbind (check_user_apps X checkIfExist multi apps inputAppRefs []) (\<lambda>checked.
         Ok (concat (map (\<lambda>(n, versions). map (\<lambda>app. AppRef_String X (a_ref app)) versions) checked))))"

section \<open>Checking apps\<close>

definition MinUsageWatermark :: int where "MinUsageWatermark = 20"
definition MaxUsageWatermark :: int where "MaxUsageWatermark = 99"

definition checkWatermark :: "int \<Rightarrow> 'x world \<Rightarrow> 'x world \<times> unit outcome" where
  "checkWatermark watermark w =
     (if watermark < MinUsageWatermark \<or> MaxUsageWatermark < watermark
      then (w, Exit 1 (Err (''invalid `--storage-usage-watermark` value: '' @ show_int watermark)))
      else (w, Done ()))"

text \<open>The store and the provider of the source: an app store aware of skopeo only for a local check.\<close>

definition getAppStoreAndDstBlobProvider ::
  "('x, 'z) sys_scheme \<Rightarrow> config \<Rightarrow> 'x world \<Rightarrow> path option \<Rightarrow> bool \<Rightarrow> (provider \<times> app_store) res" where
  "getAppStoreAndDstBlobProvider X cfg w srcStorePath local =
     rbind (NewAppStore X (cf_store_root cfg) (cf_platform cfg) [local]) (\<lambda>store.
       Ok (case srcStorePath of
             Some p \<Rightarrow> NewStoreBlobProvider X (w_fs w) (GetBlobsRootFor p)
           | None \<Rightarrow> if local then appStore_provider X w store else newRemoteBlobProvider X w,
           store))"

record check_app_result =
  cr_missing :: blobs_info
  cr_pull :: int
  cr_store :: int
  cr_runtime :: int

text \<open>The sizes of the missing blobs add up on \<open>int64\<close>; of a blob that is being fetched only the rest counts.\<close>

fun sum_missing :: "int \<Rightarrow> blobs_info \<Rightarrow> check_app_result \<Rightarrow> check_app_result res" where
  "sum_missing bs [] cr = Ok cr"
| "sum_missing bs ((d, bi) # bis) cr =
     rbind (if bi_state bi = BlobFetching
            then rbind (AlignToBlockSize (i64 (d_size (bi_desc bi) - bi_bytes_fetched bi)) bs) (\<lambda>sz.
                   Ok (i64 (d_size (bi_desc bi) - bi_bytes_fetched bi), sz))
            else Ok (d_size (bi_desc bi), bi_store_size bi)) (\<lambda>(pull, store).
       sum_missing bs bis
         (cr\<lparr>cr_pull := i64 (cr_pull cr + pull), cr_store := i64 (cr_store cr + store),
             cr_runtime := i64 (cr_runtime cr + bi_runtime_size bi)\<rparr>))"

text \<open>What printing a blob of an app looks at; the state of a blob that was not recorded is a nil pointer.\<close>

definition print_visit :: "'z lib_scheme \<Rightarrow> fetch_status \<Rightarrow> app_ctx \<Rightarrow> unit processor" where
  "print_visit L st app node depth u =
     (rbind (dg_encoded L (d_digest (t_desc node))) (\<lambda>_.
        case map_of (case map_of (fst_blobs st) (a_Digest app) of None \<Rightarrow> [] | Some bis \<Rightarrow> bis) (d_digest (t_desc node)) of
          None \<Rightarrow> Panic ''nil pointer dereference''
        | Some bi \<Rightarrow> Ok ()), u)"

fun print_apps :: "'z lib_scheme \<Rightarrow> fetch_status \<Rightarrow> app_ctx list \<Rightarrow> unit res" where
  "print_apps L st [] = Ok ()"
| "print_apps L st (app # apps) =
     rbind (fst (Walk (a_tree app) (print_visit L st app) ())) (\<lambda>_. print_apps L st apps)"

text \<open>\<open>cs_statfs\<close>: the state of the file system of a path; \<open>cs_reserve\<close>: the part of it that is kept free.\<close>

record 'x csys = "'x usys" +
  cs_statfs :: "'x world \<Rightarrow> path \<Rightarrow> statfs res"
  cs_reserve :: "int \<Rightarrow> int \<Rightarrow> int"

definition checkApps ::
  "('x, 'z) csys_scheme \<Rightarrow> config \<Rightarrow> 'x world \<Rightarrow> string list \<Rightarrow> provider \<Rightarrow> int \<Rightarrow> bool \<Rightarrow> bool \<Rightarrow>
   (check_app_result \<times> usage_info \<times> app_ctx list) res" where
  "checkApps X cfg w appRefs srcBlobProvider usageWatermark quiet quick =
     rbind (CheckAppsStatus X w cfg appRefs
              [WithCheckRunning False, WithCheckInstallation False, WithAppTreeBlobProvider srcBlobProvider,
               WithQuickCheckFetch quick]) (\<lambda>status.
       rbind (if quiet then Ok () else print_apps X (st_fetch status) (st_apps status)) (\<lambda>_.
         rbind (sum_missing (cf_block_size cfg) (fst_missing (st_fetch status))
                  \<lparr>cr_missing = fst_missing (st_fetch status), cr_pull = 0, cr_store = 0, cr_runtime = 0\<rparr>) (\<lambda>cr.
           rbind (GetUsageInfo (cs_statfs X w (cf_store_root cfg)) (cs_reserve X)
                    (i64 (cr_store cr + cr_runtime cr)) usageWatermark) (\<lambda>ui.
             Ok (cr, ui, st_apps status)))))"

record app_install_check_result =
  air_name :: string
  air_missing :: "string list"
  air_bundle :: "(string, string) gomap"

text \<open>An image is missing when neither its URI nor its short tag nor its familiar name is installed; an image
  whose URI cannot be parsed is not reported.\<close>

definition image_missing :: "'z lib_scheme \<Rightarrow> installed_images \<Rightarrow> string \<Rightarrow> bool res" where
  "image_missing L inst imageUri =
     (if gm_has (ii_refs inst) imageUri then Ok False
      else rcatch (ref_parse L imageUri)
        (\<lambda>s. rbind (rbind (dg_encoded L (ref_digest L s)) (slice_to 7)) (\<lambda>short.
           if gm_has (ii_refs inst) (rs_locator s @ '':'' @ short) then Ok False
           else rcatch (any_ref L imageUri) (\<lambda>(_, familiarRef). Ok (\<not> gm_has (ii_refs inst) familiarRef))
                  (\<lambda>_. Ok False)))
        (\<lambda>_. Ok False))"

fun missing_images :: "'z lib_scheme \<Rightarrow> installed_images \<Rightarrow> tree list \<Rightarrow> string list res" where
  "missing_images L inst [] = Ok []"
| "missing_images L inst (n # ns) =
     rbind (image_missing L inst (t_Ref n)) (\<lambda>m.
       rbind (missing_images L inst ns) (\<lambda>ms. Ok (if m then t_Ref n # ms else ms)))"

definition check_app_installed ::
  "('x, 'z) sys_scheme \<Rightarrow> config \<Rightarrow> 'x world \<Rightarrow> provider \<Rightarrow> installed_images \<Rightarrow> string \<Rightarrow>
   app_install_check_result res" where
  "check_app_installed X cfg w blobProvider inst appRef =
     rbind (LoadAppTree X ctx_background blobProvider (platform_match X (cf_platform cfg)) appRef) (\<lambda>app.
       (case GetComposeRoot app of
          None \<Rightarrow> Panic ''nil pointer dereference''
        | Some root \<Rightarrow>
            rbind (missing_images X inst (t_children root)) (\<lambda>missing.
              rbind (CheckComposeInstallation X ctx_background blobProvider (w_fs w) app
                       (GetAppComposeDir cfg (a_Name app))) (\<lambda>errs.
                Ok \<lparr>air_name = a_Name app, air_missing = missing, air_bundle = errs\<rparr>))))"

fun check_installed_apps ::
  "('x, 'z) sys_scheme \<Rightarrow> config \<Rightarrow> 'x world \<Rightarrow> provider \<Rightarrow> installed_images \<Rightarrow> string list \<Rightarrow>
   (string, app_install_check_result) gomap \<Rightarrow> (string, app_install_check_result) gomap res"
where
  "check_installed_apps X cfg w pv inst [] res = Ok res"
| "check_installed_apps X cfg w pv inst (r # rs) res =
     rbind (check_app_installed X cfg w pv inst r) (\<lambda>air.
       check_installed_apps X cfg w pv inst rs (gm_put r air res))"

definition checkIfInstalled ::
  "('x, 'z) sys_scheme \<Rightarrow> config \<Rightarrow> 'x world \<Rightarrow> string list \<Rightarrow> provider \<Rightarrow>
   (string, app_install_check_result) gomap res" where
  "checkIfInstalled X cfg w appRefs blobProvider =
     rbind (GetInstalledImages X w cfg) (\<lambda>inst. check_installed_apps X cfg w blobProvider inst appRefs [])"

definition checkAppsCmd ::
  "('x, 'z) csys_scheme \<Rightarrow> config \<Rightarrow> string list \<Rightarrow> path option \<Rightarrow> bool \<Rightarrow> int \<Rightarrow> bool \<Rightarrow> bool \<Rightarrow> bool \<Rightarrow> 'x world \<Rightarrow>
   'x world \<times> (check_app_result \<times> usage_info \<times> (string, app_install_check_result) gomap) outcome" where
  "checkAppsCmd X cfg args srcStorePath local watermark json checkInstall quick w =
     obind (checkWatermark watermark w) (\<lambda>_ w.
       DieNotNil (w,
         rbind (getAppStoreAndDstBlobProvider X cfg w srcStorePath local) (\<lambda>(blobProvider, cs).
           rbind (checkApps X cfg w args blobProvider watermark json quick) (\<lambda>(cr, ui, apps).
             rbind (if checkInstall then checkIfInstalled X cfg w args (appStore_provider X w cs) else Ok []) (\<lambda>ir.
               Ok (cr, ui, ir))))))"

section \<open>Pulling apps\<close>

definition exitCodeInsufficientSpace :: int where "exitCodeInsufficientSpace = 100"

fun make_aklite_happy ::
  "('x, 'z) sys_scheme \<Rightarrow> config \<Rightarrow> app_store \<Rightarrow> app_ctx list \<Rightarrow> 'x world \<Rightarrow> 'x world \<times> unit res" where
  "make_aklite_happy X cfg cs [] w = (w, Ok ())"
| "make_aklite_happy X cfg cs (app # apps) w =
     (let (fs', r) = MakeAkliteHappy X cs app (platform_match X (cf_platform cfg)) w
      in sbind (w\<lparr>w_fs := fs'\<rparr>, r) (\<lambda>_ w. make_aklite_happy X cfg cs apps w))"

definition pull_fetch ::
  "('x, 'z) csys_scheme \<Rightarrow> config \<Rightarrow> path option \<Rightarrow> check_app_result \<Rightarrow> usage_info \<Rightarrow> 'x world \<Rightarrow>
   ('x world \<times> unit outcome) option" where
  "pull_fetch X cfg srcStorePath cr ui w =
     (if cr_missing cr = [] then Some (w, Done ())
      else if ui_available ui < ui_required ui
      then Some (w, Exit exitCodeInsufficientSpace (Err ''not enough storage available''))
      else map_option DieNotNil (FetchBlobs X cfg (cr_missing cr) srcStorePath w))"

definition pullApps ::
  "('x, 'z) csys_scheme \<Rightarrow> config \<Rightarrow> string list \<Rightarrow> path option \<Rightarrow> int \<Rightarrow> bool \<Rightarrow> 'x world \<Rightarrow>
   ('x world \<times> unit outcome) option" where
  "pullApps X cfg args srcStorePath watermark quick w =
     (case obind (checkWatermark watermark w) (\<lambda>_ w.
             DieNotNil (w,
               rbind (getAppStoreAndDstBlobProvider X cfg w srcStorePath False) (\<lambda>(blobProvider, cs).
                 rbind (checkApps X cfg w args blobProvider watermark False quick) (\<lambda>(cr, ui, apps).
                   Ok (cs, cr, ui, apps))))) of
        (w, Exit c e) \<Rightarrow> Some (w, Exit c e)
      | (w, Done (cs, cr, ui, apps)) \<Rightarrow>
          map_option (\<lambda>p. obind p (\<lambda>_ w. DieNotNil (make_aklite_happy X cfg cs apps w)))
            (pull_fetch X cfg srcStorePath cr ui w))"

section \<open>Installing, running, stopping and removing apps\<close>

definition installApp ::
  "('x, 'z) sys_scheme \<Rightarrow> config \<Rightarrow> string \<Rightarrow> 'x world \<Rightarrow> 'x world \<times> unit outcome" where
  "installApp X cfg ref w = (case Install X cfg ref True w of (w', evs, r) \<Rightarrow> DieNotNil (w', r))"

fun install_all ::
  "('x, 'z) sys_scheme \<Rightarrow> config \<Rightarrow> string list \<Rightarrow> 'x world \<Rightarrow> 'x world \<times> unit outcome" where
  "install_all X cfg [] w = (w, Done ())"
| "install_all X cfg (r # rs) w = obind (installApp X cfg r w) (\<lambda>_ w. install_all X cfg rs w)"

definition runApps ::
  "('x, 'z) sys_scheme \<Rightarrow> config \<Rightarrow> string list \<Rightarrow> string list \<Rightarrow> 'x world \<Rightarrow> 'x world \<times> unit outcome" where
  "runApps X cfg apps args w =
     (if apps \<noteq> [] \<and> args \<noteq> []
      then (w, Exit 1 (Err ''cannot use both app list in `--apps` parameter and as arguments''))
      else obind (DieNotNil (w, checkUserListedApps X cfg (if args \<noteq> [] then args else apps) True False w)) (\<lambda>appURIs w.
        obind (install_all X cfg appURIs w) (\<lambda>_ w.
          (case StartApps X cfg appURIs w of (w', evs, r) \<Rightarrow> DieNotNil (w', r)))))"

text \<open>The walk goes through everything below the directory; an entry that could not be read has no
  information, which panics.\<close>

fun stop_visit :: "path \<Rightarrow> path \<times> fentry option \<times> error option \<Rightarrow> string list res" where
  "stop_visit root (p, info, err) =
     (case info of
        None \<Rightarrow> Panic ''nil pointer dereference''
      | Some (FFile _) \<Rightarrow> Ok []
      | Some FDir \<Rightarrow> Ok (if p = root then [] else [path_base p]))"

definition getAllAppsToStop :: "'z lib_scheme \<Rightarrow> fs \<Rightarrow> path \<Rightarrow> string list res" where
  "getAllAppsToStop L fs composeRoot =
     rbind (map_res (stop_visit composeRoot) (fs_visits L fs composeRoot)) (\<lambda>xs. Ok (concat xs))"

fun compose_down ::
  "('x, 'z) sys_scheme \<Rightarrow> config \<Rightarrow> string list \<Rightarrow> 'x world \<Rightarrow> 'x world \<times> unit outcome" where
  "compose_down X cfg [] w = (w, Done ())"
| "compose_down X cfg (app # apps) w =
     obind (DieNotNil (serr (sh_compose X w (GetAppComposeDir cfg app) [''down'']))) (\<lambda>_ w.
       compose_down X cfg apps w)"

definition stopApps ::
  "('x, 'z) sys_scheme \<Rightarrow> config \<Rightarrow> string list \<Rightarrow> bool \<Rightarrow> 'x world \<Rightarrow> 'x world \<times> unit outcome" where
  "stopApps X cfg args stopAll w =
     (if args \<noteq> [] \<and> stopAll
      then (w, Exit 1 (Err ''`--all` flag cannot be specified if at least one app is specified as parameter''))
      else if args = [] \<and> \<not> stopAll
      then (w, Exit 1 (Err ''either `--all` flag or app name should be specified''))
      else obind (DieNotNil (w, getAllAppsToStop X (w_fs w) (cf_compose_root cfg))) (\<lambda>appsToStop w.
        if args \<noteq> [] \<and> \<not> stopAll
        then (case find (\<lambda>a. a \<notin> set appsToStop) args of
                Some a \<Rightarrow> (w, Exit 1 (Err (''the specified app is not installed: '' @ a)))
              | None \<Rightarrow> compose_down X cfg args w)
        else compose_down X cfg appsToStop w))"

definition uninstallApps ::
  "('x, 'z) sys_scheme \<Rightarrow> config \<Rightarrow> string list \<Rightarrow> bool \<Rightarrow> bool \<Rightarrow> 'x world \<Rightarrow> 'x world \<times> unit outcome" where
  "uninstallApps X cfg args ignoreNonInstalled prune w =
     obind (DieNotNil (w, checkUserListedApps X cfg args (\<not> ignoreNonInstalled) True w)) (\<lambda>appURIs w.
       DieNotNil (UninstallApps X cfg appURIs
         (Some (if prune then PruneTypeAllUnusedImages else PruneTypeOnlyAppImages)) w))"

definition rmApps ::
  "('x, 'z) sys_scheme \<Rightarrow> config \<Rightarrow> string list \<Rightarrow> bool \<Rightarrow> bool \<Rightarrow> 'x world \<Rightarrow> 'x world \<times> unit outcome" where
  "rmApps X cfg args prune quiet w =
     obind (DieNotNil (w, checkUserListedApps X cfg args (\<not> quiet) False w)) (\<lambda>appURIs w.
       DieNotNil (RemoveApps X cfg appURIs prune (\<not> quiet) w))"

definition pruneApps ::
  "('x, 'z) sys_scheme \<Rightarrow> config \<Rightarrow> 'x world \<Rightarrow> 'x world \<times> path list outcome" where
  "pruneApps X cfg w =
     obind (DieNotNil (w, NewAppStore X (cf_store_root cfg) (cf_platform cfg) [])) (\<lambda>cs w.
       DieNotNil (Prune X cs w))"

definition listApps ::
  "('x, 'z) sys_scheme \<Rightarrow> config \<Rightarrow> 'x world \<Rightarrow> 'x world \<times> (string \<times> string) list outcome" where
  "listApps X cfg w =
     DieNotNil (w, rbind (compose_ListApps X cfg w) (\<lambda>apps.
       Ok (map (\<lambda>a. (a_Name a, AppRef_String X (a_ref a))) apps)))"

section \<open>Which apps are found\<close>

definition meant_by :: "'z lib_scheme \<Rightarrow> string \<Rightarrow> app_ctx \<Rightarrow> bool" where
  "meant_by L nu app \<longleftrightarrow> a_Name app = nu \<or> AppRef_String L (a_ref app) = nu"

lemma find_user_app_ok:
  assumes "find_user_app L multi nu apps foundName found = Ok (fn, fu, found')"
  obtains new where "found' = found @ new" "\<forall>a\<in>set new. a \<in> set apps \<and> meant_by L nu a"
    "fn \<or> fu \<longleftrightarrow> foundName \<or> new \<noteq> []"
    "\<not> multi \<longrightarrow> (\<exists>a\<in>set apps. AppRef_String L (a_ref a) = nu) \<or>
       of_bool foundName + length (filter (\<lambda>a. a_Name a = nu) apps) \<le> 1"
  using assms
proof (induction apps arbitrary: foundName found thesis)
  case Nil
  show ?case by (rule Nil.prems(1) [of "[]"]) (use Nil.prems(2) in auto)
next
  case (Cons app apps)
  show ?case
  proof (cases "a_Name app = nu")
    case True
    with Cons.prems(2) have one: "\<not> multi \<longrightarrow> \<not> foundName"
      and r: "find_user_app L multi nu apps True (found @ [app]) = Ok (fn, fu, found')" by (auto split: if_splits)
    obtain new where new: "found' = (found @ [app]) @ new" "\<forall>a\<in>set new. a \<in> set apps \<and> meant_by L nu a"
      "fn \<or> fu \<longleftrightarrow> True \<or> new \<noteq> []"
      "\<not> multi \<longrightarrow> (\<exists>a\<in>set apps. AppRef_String L (a_ref a) = nu) \<or>
         of_bool True + length (filter (\<lambda>a. a_Name a = nu) apps) \<le> 1"
      by (rule Cons.IH [OF _ r])
    show ?thesis by (rule Cons.prems(1) [of "app # new"]) (use new one True in \<open>auto simp: meant_by_def\<close>)
  next
    case False
    show ?thesis
    proof (cases "AppRef_String L (a_ref app) = nu")
      case True
      show ?thesis
        by (rule Cons.prems(1) [of "[app]"]) (use Cons.prems(2) True False in \<open>auto simp: meant_by_def\<close>)
    next
      case other: False
      with False Cons.prems(2) have r: "find_user_app L multi nu apps foundName found = Ok (fn, fu, found')" by simp
      obtain new where new: "found' = found @ new" "\<forall>a\<in>set new. a \<in> set apps \<and> meant_by L nu a"
        "fn \<or> fu \<longleftrightarrow> foundName \<or> new \<noteq> []"
        "\<not> multi \<longrightarrow> (\<exists>a\<in>set apps. AppRef_String L (a_ref a) = nu) \<or>
           of_bool foundName + length (filter (\<lambda>a. a_Name a = nu) apps) \<le> 1"
        by (rule Cons.IH [OF _ r])
      show ?thesis by (rule Cons.prems(1) [of new]) (use new False in auto)
    qed
  qed
qed

definition ambiguous :: "'z lib_scheme \<Rightarrow> app_ctx list \<Rightarrow> string \<Rightarrow> bool" where
  "ambiguous L apps nu \<longleftrightarrow>
     1 < length (filter (\<lambda>a. a_Name a = nu) apps) \<and> (\<forall>a\<in>set apps. AppRef_String L (a_ref a) \<noteq> nu)"

lemma check_user_apps_ok:
  assumes "check_user_apps L chk multi apps nus checked = Ok checked'"
  shows "set checked \<subseteq> set checked' \<and>
    (\<forall>(k, vs)\<in>set checked'. (k, vs) \<in> set checked \<or>
       (\<exists>nu\<in>set nus. \<forall>a\<in>set vs. a \<in> set apps \<and> meant_by L nu a)) \<and>
    (\<forall>nu\<in>set nus. (chk \<longrightarrow> (\<exists>(k, vs)\<in>set checked'. \<exists>a\<in>set vs. a \<in> set apps \<and> meant_by L nu a)) \<and>
       (\<not> multi \<longrightarrow> \<not> ambiguous L apps nu))"
  using assms
proof (induction nus arbitrary: checked)
  case (Cons nu nus)
  from Cons.prems obtain fn fu found where f: "find_user_app L multi nu apps False [] = Ok (fn, fu, found)"
    by (auto simp: rbind_Ok_iff)
  obtain new where new: "found = [] @ new" "\<forall>a\<in>set new. a \<in> set apps \<and> meant_by L nu a"
    "fn \<or> fu \<longleftrightarrow> False \<or> new \<noteq> []"
    "\<not> multi \<longrightarrow> (\<exists>a\<in>set apps. AppRef_String L (a_ref a) = nu) \<or>
       of_bool False + length (filter (\<lambda>a. a_Name a = nu) apps) \<le> 1"
    by (rule find_user_app_ok [OF f])
  from new(4) have amb: "\<not> multi \<longrightarrow> \<not> ambiguous L apps nu" by (auto simp: ambiguous_def)
  show ?case
  proof (cases new)
    case Nil
    with Cons.prems f new(1,3) have "\<not> chk" and r: "check_user_apps L chk multi apps nus checked = Ok checked'"
      by (auto split: if_splits)
    with Cons.IH [OF r] amb show ?thesis by fastforce
  next
    case (Cons a as)
    with Cons.prems f new(1,3) have k: "\<not> gm_has checked (a_Name a)"
      and r: "check_user_apps L chk multi apps nus (gm_put (a_Name a) new checked) = Ok checked'"
      by (auto split: if_splits)
    have put: "set (gm_put (a_Name a) new checked) = insert (a_Name a, new) (set checked)"
      using k by (simp add: gm_put_fresh gm_has_iff)
    from Cons.IH [OF r] put have sub: "set checked \<subseteq> set checked'" and mem: "(a_Name a, new) \<in> set checked'" by auto
    have "a \<in> set new" using Cons by simp
    with new(2) have "\<exists>a\<in>set new. a \<in> set apps \<and> meant_by L nu a" by blast
    with mem have here: "\<exists>(k, vs)\<in>set checked'. \<exists>a\<in>set vs. a \<in> set apps \<and> meant_by L nu a" by blast
    have old: "(k, vs) \<in> set checked \<or> (\<exists>nu\<in>set (nu # nus). \<forall>a\<in>set vs. a \<in> set apps \<and> meant_by L nu a)"
      if "(k, vs) \<in> set checked'" for k vs
    proof -
      from Cons.IH [OF r] that have "(k, vs) \<in> set (gm_put (a_Name a) new checked) \<or>
          (\<exists>nu\<in>set nus. \<forall>a\<in>set vs. a \<in> set apps \<and> meant_by L nu a)" by blast
      with put new(2) show ?thesis by auto
    qed
    have rest: "(chk \<longrightarrow> (\<exists>(k, vs)\<in>set checked'. \<exists>a\<in>set vs. a \<in> set apps \<and> meant_by L m a)) \<and>
       (\<not> multi \<longrightarrow> \<not> ambiguous L apps m)" if "m \<in> set nus" for m
      using Cons.IH [OF r] that by blast
    have "(chk \<longrightarrow> (\<exists>(k, vs)\<in>set checked'. \<exists>a\<in>set vs. a \<in> set apps \<and> meant_by L m a)) \<and>
       (\<not> multi \<longrightarrow> \<not> ambiguous L apps m)" if "m \<in> set (nu # nus)" for m
    proof (cases "m = nu")
      case True
      then show ?thesis using here amb by blast
    next
      case False
      with that rest show ?thesis by simp
    qed
    with sub old show ?thesis by blast
  qed
qed simp

section \<open>The sums of a check\<close>

definition rest_of :: "blob_info \<Rightarrow> int" where
  "rest_of bi = (if bi_state bi = BlobFetching then d_size (bi_desc bi) - bi_bytes_fetched bi else d_size (bi_desc bi))"

definition store_rest_of :: "int \<Rightarrow> blob_info \<Rightarrow> int" where
  "store_rest_of bs bi =
     (if bi_state bi = BlobFetching
      then (case AlignToBlockSize (i64 (rest_of bi)) bs of Ok n \<Rightarrow> n | _ \<Rightarrow> 0) else bi_store_size bi)"

lemma i64_replace:
  assumes "i64 x = i64 y"
  shows "i64 (c + x + s) = i64 (c + (y + s))"
proof -
  have "i64 (c + s + x) = i64 (c + s + i64 x)" by simp
  also have "\<dots> = i64 (c + s + y)" unfolding assms by simp
  finally show ?thesis by (simp add: ac_simps)
qed

lemma sum_missing_ok:
  assumes "sum_missing bs bis cr = Ok cr'"
  shows "cr_missing cr' = cr_missing cr \<and>
    i64 (cr_pull cr') = i64 (cr_pull cr + (\<Sum>(d, bi)\<leftarrow>bis. rest_of bi)) \<and>
    i64 (cr_store cr') = i64 (cr_store cr + (\<Sum>(d, bi)\<leftarrow>bis. store_rest_of bs bi)) \<and>
    i64 (cr_runtime cr') = i64 (cr_runtime cr + (\<Sum>(d, bi)\<leftarrow>bis. bi_runtime_size bi)) \<and>
    (in_i64 (cr_pull cr) \<and> in_i64 (cr_store cr) \<and> in_i64 (cr_runtime cr) \<longrightarrow>
     in_i64 (cr_pull cr') \<and> in_i64 (cr_store cr') \<and> in_i64 (cr_runtime cr'))"
  using assms
proof (induction bis arbitrary: cr)
  case (Cons e bis)
  obtain d bi where e: "e = (d, bi)" by force
  from Cons.prems obtain pull store where ps: "i64 pull = i64 (rest_of bi)" "store = store_rest_of bs bi"
    and r: "sum_missing bs bis (cr\<lparr>cr_pull := i64 (cr_pull cr + pull), cr_store := i64 (cr_store cr + store),
             cr_runtime := i64 (cr_runtime cr + bi_runtime_size bi)\<rparr>) = Ok cr'"
    by (auto simp: e rbind_Ok_iff rest_of_def store_rest_of_def split: if_splits)
  note IH = Cons.IH [OF r]
  have "i64 (cr_pull cr') = i64 (cr_pull cr + pull + (\<Sum>(d, bi)\<leftarrow>bis. rest_of bi))"
    using IH by simp
  then have 1: "i64 (cr_pull cr') = i64 (cr_pull cr + (\<Sum>(d, bi)\<leftarrow>e # bis. rest_of bi))"
    using i64_replace [OF ps(1)] by (simp add: e)
  have 2: "i64 (cr_store cr') = i64 (cr_store cr + (\<Sum>(d, bi)\<leftarrow>e # bis. store_rest_of bs bi))"
    using IH by (simp add: e ps(2) add.assoc)
  have 3: "i64 (cr_runtime cr') = i64 (cr_runtime cr + (\<Sum>(d, bi)\<leftarrow>e # bis. bi_runtime_size bi))"
    using IH by (simp add: e add.assoc)
  have 4: "in_i64 (cr_pull cr') \<and> in_i64 (cr_store cr') \<and> in_i64 (cr_runtime cr')"
    using IH in_i64_i64 by simp
  from IH 1 2 3 4 show ?case by simp
qed simp

text \<open>A name stands for all its versions when several are allowed.\<close>

lemma find_user_app_versions:
  assumes "\<forall>a\<in>set apps. AppRef_String L (a_ref a) \<noteq> nu"
  shows "find_user_app L True nu apps fn found =
    Ok (fn \<or> (\<exists>a\<in>set apps. a_Name a = nu), False, found @ filter (\<lambda>a. a_Name a = nu) apps)"
  using assms by (induction apps arbitrary: fn found) auto

lemma check_user_apps_versions:
  assumes "check_user_apps L chk True apps nus checked = Ok checked'" and "nu \<in> set nus"
    and "\<forall>a\<in>set apps. AppRef_String L (a_ref a) \<noteq> nu" and "a \<in> set apps" and "a_Name a = nu"
  shows "\<exists>(k, vs)\<in>set checked'. a \<in> set vs"
  using assms(1,2)
proof (induction nus arbitrary: checked)
  case (Cons m nus)
  show ?case
  proof (cases "m = nu")
    case True
    let ?vs = "filter (\<lambda>a. a_Name a = nu) apps"
    have mem: "a \<in> set ?vs" using assms(4,5) by simp
    then obtain b bs where vs: "?vs = b # bs" by (cases ?vs) auto
    from Cons.prems(1) True find_user_app_versions [OF assms(3), of False "[]"] assms(4,5) vs
    have "check_user_apps L chk True apps nus (gm_put (a_Name b) ?vs checked) = Ok checked'"
      and k: "\<not> gm_has checked (a_Name b)"
      by (auto split: if_splits)
    from check_user_apps_ok [OF this(1)] have "set (gm_put (a_Name b) ?vs checked) \<subseteq> set checked'" by blast
    moreover have "(a_Name b, ?vs) \<in> set (gm_put (a_Name b) ?vs checked)"
      using k by (simp add: gm_put_fresh gm_has_iff)
    ultimately show ?thesis using mem by blast
  next
    case False
    with Cons.prems obtain checked1 where "check_user_apps L chk True apps nus checked1 = Ok checked'" "nu \<in> set nus"
      by (auto simp: rbind_Ok_iff split: if_splits list.splits)
    then show ?thesis by (rule Cons.IH)
  qed
qed simp

section \<open>The directories that are stopped\<close>

lemma map_res_concat_set:
  assumes "rbind (map_res f xs) (\<lambda>ys. Ok (concat ys)) = Ok zs"
  shows "set zs = {z. \<exists>x\<in>set xs. \<exists>ys. f x = Ok ys \<and> z \<in> set ys}"
  using assms by (fastforce simp: rbind_Ok_iff dest: map_res_Ok_set map_res_Ok_mem)

text \<open>A loop of stops that ends well ran \<open>docker compose down\<close> in the directory of every one of the names, one after the other.\<close>

lemma compose_down_Done:
  assumes "compose_down X cfg apps w = (w', Done ())"
  shows "w' = fold (\<lambda>app w. fst (sh_compose X w (GetAppComposeDir cfg app) [''down''])) apps w"
    and "app \<in> set apps \<Longrightarrow> \<exists>v. snd (sh_compose X v (GetAppComposeDir cfg app) [''down'']) = None"
proof -
  have "w' = fold (\<lambda>app w. fst (sh_compose X w (GetAppComposeDir cfg app) [''down''])) apps w \<and>
    (\<forall>app\<in>set apps. \<exists>v. snd (sh_compose X v (GetAppComposeDir cfg app) [''down'']) = None)"
    using assms
  proof (induction apps arbitrary: w)
    case (Cons app apps)
    obtain w1 e where sh: "sh_compose X w (GetAppComposeDir cfg app) [''down''] = (w1, e)" by force
    with Cons.prems have e: "e = None" and rest: "compose_down X cfg apps w1 = (w', Done ())"
      by (auto simp: obind_Done_iff DieNotNil_Done_iff serr_Ok_iff)
    have "\<exists>v. snd (sh_compose X v (GetAppComposeDir cfg app) [''down'']) = None" using sh e by (intro exI [of _ w]) simp
    with Cons.IH [OF rest] sh show ?case by simp
  qed simp
  then show "w' = fold (\<lambda>app w. fst (sh_compose X w (GetAppComposeDir cfg app) [''down''])) apps w"
    and "app \<in> set apps \<Longrightarrow> \<exists>v. snd (sh_compose X v (GetAppComposeDir cfg app) [''down'']) = None" by auto
qed

end
