(* ===== verification/Setup.thy ===== *)
theory Setup
  imports Publish Cli
begin

text \<open>
  What the commands set up before they work: the credentials for a registry (\<open>pkg/compose/auth.go\<close>), the
  Docker configuration and the flags of the root command (\<open>cmd/composectl/cmd/root.go\<close>); and the commands that
  publish an app (\<open>publish.go\<close>) and show what is published (\<open>manifest.go\<close>, \<open>compose.go\<close>).
\<close>

section \<open>Credentials\<close>

record auth_creds =
  au_user :: string
  au_password :: string
  au_token :: string

definition DefaultDockerRegistryHost :: string where
  "DefaultDockerRegistryHost = ''registry-1.docker.io''"

definition DefaultDockerIndexHost :: string where
  "DefaultDockerIndexHost = ''https://index.docker.io/v1/''"

text \<open>A user with a password, a token without a user, or neither for a host that is not configured.\<close>

definition getAuthCreds :: "(string, auth_creds) gomap res \<Rightarrow> string \<Rightarrow> (string \<times> string) res" where
  "getAuthCreds all_creds host =
     (let host = (if host = DefaultDockerRegistryHost then DefaultDockerIndexHost else host) in
      rbind all_creds (\<lambda>creds.
        (case map_of creds host of
           None \<Rightarrow> Ok ('''', '''')
         | Some auth \<Rightarrow>
             if au_user auth \<noteq> '''' \<and> au_password auth \<noteq> '''' then Ok (au_user auth, au_password auth)
             else if au_token auth \<noteq> '''' then Ok ('''', au_token auth)
             else Fail (Err (''neither user creds nor identity token is obtained for the given host: '' @ host)))))"

section \<open>The Docker configuration\<close>

text \<open>
  \<open>dl_load\<close>: \<open>config.Load\<close> of a directory; \<open>dl_new\<close>: an empty configuration for a file; \<open>dl_read\<close>:
  \<open>LoadFromReader\<close> on top of what a configuration has; \<open>dl_dir\<close>: the directory of the user's
  configuration.  An empty path stands for an empty string.
\<close>

record 'c docker_lib =
  dl_load :: "path \<Rightarrow> 'c res"
  dl_new :: "path \<Rightarrow> 'c"
  dl_read :: "'c \<Rightarrow> src \<Rightarrow> 'c res"
  dl_has_auth :: "'c \<Rightarrow> bool"
  dl_detect_store :: "'c \<Rightarrow> 'c"
  dl_dir :: path

text \<open>What is printed on the way.\<close>

datatype config_note = NoteMissing path | NoteApplied path

definition config_file :: "path \<Rightarrow> path" where
  "config_file dir = path_join dir [''config.json'']"

definition base_docker_config ::
  "'z lib_scheme \<Rightarrow> fs \<Rightarrow> ('c, 'y) docker_lib_scheme \<Rightarrow> path \<Rightarrow> bool \<Rightarrow> config_note list \<times> 'c option res" where
  "base_docker_config L fs D baseSystemConfig show =
     (if baseSystemConfig = [] then ([], Ok None)
      else (let cfgFile = config_file baseSystemConfig in
            if (case os_stat L fs cfgFile of Fail e \<Rightarrow> os_IsNotExist e | _ \<Rightarrow> False)
            then ([NoteMissing cfgFile], Ok None)
            else (case dl_load D baseSystemConfig of
                    Ok cfg \<Rightarrow> (if show then [NoteApplied cfgFile] else [], Ok (Some cfg))
                  | Fail e \<Rightarrow> ([], Fail e)
                  | Panic m \<Rightarrow> ([], Panic m))))"

text \<open>The user's configuration is read on top of the system's; it may be missing.\<close>

definition user_docker_config ::
  "'z lib_scheme \<Rightarrow> fs \<Rightarrow> ('c, 'y) docker_lib_scheme \<Rightarrow> path \<Rightarrow> string \<Rightarrow> bool \<Rightarrow> 'c option \<Rightarrow>
   config_note list \<times> 'c res" where
  "user_docker_config L fs D overrideConfigDir envDir show base =
     (let dir = (if overrideConfigDir \<noteq> [] \<and> envDir = '''' then overrideConfigDir else dl_dir D);
          cfgFile = config_file dir;
          cfg = (case base of None \<Rightarrow> dl_new D cfgFile | Some c \<Rightarrow> c)
      in case os_open L fs cfgFile of
           Fail e \<Rightarrow>
             (if os_IsNotExist e
              then (if overrideConfigDir \<noteq> [] \<or> envDir \<noteq> '''' then [NoteMissing cfgFile] else [], Ok cfg)
              else ([], Fail e))
         | Panic m \<Rightarrow> ([], Panic m)
         | Ok f \<Rightarrow>
             (case dl_read D cfg f of
                Ok cfg' \<Rightarrow> (if show then [NoteApplied cfgFile] else [], Ok cfg')
              | Fail e \<Rightarrow> ([], Fail e)
              | Panic m \<Rightarrow> ([], Panic m)))"

definition getDockerConfig ::
  "'z lib_scheme \<Rightarrow> fs \<Rightarrow> ('c, 'y) docker_lib_scheme \<Rightarrow> path \<Rightarrow> path \<Rightarrow> string \<Rightarrow> bool \<Rightarrow> config_note list \<times> 'c res"
where
  "getDockerConfig L fs D baseSystemConfig overrideConfigDir envDir show =
     (case base_docker_config L fs D baseSystemConfig show of
        (ns, Fail e) \<Rightarrow> (ns, Fail e)
      | (ns, Panic m) \<Rightarrow> (ns, Panic m)
      | (ns, Ok base) \<Rightarrow>
          (case user_docker_config L fs D overrideConfigDir envDir show base of
             (ns', r) \<Rightarrow> (ns @ ns', rbind r (\<lambda>cfg. Ok (if dl_has_auth D cfg then cfg else dl_detect_store D cfg)))))"

section \<open>The flags of the root command\<close>

text \<open>The configuration that the flags start from; the roots and the timeout can be set at compile time.\<close>

definition root_config ::
  "'z lib_scheme \<Rightarrow> 'e proc_env_scheme \<Rightarrow> path \<Rightarrow> path \<Rightarrow> string \<Rightarrow> 'x world \<Rightarrow> 'x world \<times> config outcome" where
  "root_config L E storeRoot composeRoot defConnectTimeout w =
     obind (DieNotNil (w, if defConnectTimeout = '''' then Ok []
                          else (case atoi L defConnectTimeout of
                                  Some n \<Rightarrow> Ok [WithConnectTimeout (i64 (n * 10 ^ 9))]
                                | None \<Rightarrow> Fail (Err (''strconv.Atoi: parsing '' @ defConnectTimeout))))) (\<lambda>timeout w.
       let (fs', r) = NewDefaultConfig L E (w_fs w)
             ([WithStoreRoot storeRoot, WithComposeRoot composeRoot, WithSkopeoSupport True] @ timeout)
       in DieNotNil (w\<lparr>w_fs := fs'\<rparr>, r))"

record root_flags =
  rf_store :: path
  rf_compose :: path
  rf_arch :: string
  rf_host :: string
  rf_connect_timeout :: int
  rf_read_timeout :: int

definition initConfig :: "root_flags \<Rightarrow> 'c res \<Rightarrow> config \<Rightarrow> 'x world \<Rightarrow> 'x world \<times> config outcome" where
  "initConfig fl dockerCfg cfg w =
     obind (DieNotNil (w, dockerCfg)) (\<lambda>_ w.
       (w, Done (cfg\<lparr>cf_store_root := rf_store fl, cf_compose_root := rf_compose fl,
                     cf_connect_timeout := i64 (rf_connect_timeout fl * 10 ^ 9),
                     cf_read_timeout := i64 (rf_read_timeout fl * 10 ^ 9), cf_docker_host := rf_host fl,
                     cf_platform := (if rf_arch fl \<noteq> '''' then (cf_platform cfg)\<lparr>p_arch := rf_arch fl\<rparr>
                                     else cf_platform cfg)\<rparr>)))"

section \<open>Publishing an app\<close>

record publish_options =
  po_file :: path
  po_digest_file :: "path option"
  po_dry :: bool
  po_pinned :: "string list"
  po_layers_meta :: "path option"
  po_layers_manifest :: bool

text \<open>Images are pinned by their digests, whose references have to have one.\<close>

fun pinned_images ::
  "('x, 'z) pub_scheme \<Rightarrow> string list \<Rightarrow> (string, digest) gomap \<Rightarrow> (string, digest) gomap res" where
  "pinned_images X [] pinned = Ok pinned"
| "pinned_images X (uri # uris) pinned =
     rbind (pn_normalized X uri) (\<lambda>named.
       (case nm_digest named of
          Some d \<Rightarrow> pinned_images X uris (gm_put (named_Name named) d pinned)
        | None \<Rightarrow> Fail (Err (''Image URI specified in `pinned-images` is not digested: '' @ uri))))"

definition publishApp ::
  "('x, 'z) pub_scheme \<Rightarrow> path \<Rightarrow> app_ref \<Rightarrow> string list \<Rightarrow> publish_options \<Rightarrow> 'x world \<Rightarrow> 'x world \<times> unit outcome"
where
  "publishApp X dir appRef archList opts w =
     obind (DieNotNil (w, pinned_images X (po_pinned opts) [])) (\<lambda>pinned w.
       DieNotNil (DoPublish X dir (ar_name appRef) (po_file opts) (AppRef_String X appRef) (po_digest_file opts)
         (po_dry opts) archList pinned (po_layers_meta opts) (po_layers_manifest opts) w))"

definition publishCmd ::
  "('x, 'z) pub_scheme \<Rightarrow> path \<Rightarrow> string \<Rightarrow> string option \<Rightarrow> publish_options \<Rightarrow> 'x world \<Rightarrow> 'x world \<times> unit outcome"
where
  "publishCmd X dir ref archs opts w =
     obind (DieNotNil (w, ParseAppRef X ref)) (\<lambda>appRef w.
       if ar_digest appRef \<noteq> ''''
       then (w, Exit 1 (Err ''invalid app reference specified: cannot be a reference with digest''))
       else if ar_tag appRef = ''''
       then (w, Exit 1 (Err ''invalid app reference specified: must be reference with a tag''))
       else publishApp X dir appRef (case archs of None \<Rightarrow> [] | Some s \<Rightarrow> split_on (CHR '','') s) opts w)"

section \<open>Showing a manifest or a compose file\<close>

definition show_provider :: "('x, 'z) sys_scheme \<Rightarrow> config \<Rightarrow> path option \<Rightarrow> bool \<Rightarrow> 'x world \<Rightarrow> provider" where
  "show_provider X cfg srcStorePath local w =
     (case (if local \<and> srcStorePath = None then Some (cf_store_root cfg) else srcStorePath) of
        Some p \<Rightarrow> NewStoreBlobProvider X (w_fs w) (GetBlobsRootFor p)
      | None \<Rightarrow> newRemoteBlobProvider X w)"

definition doOutputManifest ::
  "('x, 'z) sys_scheme \<Rightarrow> config \<Rightarrow> string \<Rightarrow> path option \<Rightarrow> bool \<Rightarrow> 'x world \<Rightarrow> 'x world \<times> bytes outcome" where
  "doOutputManifest X cfg ref srcStorePath local w =
     DieNotNil (w, ReadBlobWithReadLimit X (show_provider X cfg srcStorePath local w) ctx_background ref
                     AppManifestMaxSize)"

definition GetCompose :: "'z lib_scheme \<Rightarrow> ctx \<Rightarrow> provider \<Rightarrow> app_ctx \<Rightarrow> service_config list res" where
  "GetCompose L c pv app = rbind (readAndLoadComposeProject L c pv app) (\<lambda>(project, desc). Ok project)"

text \<open>\<open>yaml\<close> is the project's \<open>MarshalYAML\<close>.\<close>

definition doOutputComposeFile ::
  "('x, 'z) sys_scheme \<Rightarrow> (service_config list \<Rightarrow> bytes res) \<Rightarrow> config \<Rightarrow> string \<Rightarrow> path option \<Rightarrow> bool \<Rightarrow>
   'x world \<Rightarrow> 'x world \<times> bytes outcome" where
  "doOutputComposeFile X yaml cfg ref srcStorePath local w =
     (let pv = show_provider X cfg srcStorePath local w in
      DieNotNil (w,
        rbind (LoadAppTree X ctx_background pv (platform_match X (cf_platform cfg)) ref) (\<lambda>app.
          rbind (GetCompose X ctx_background pv app) yaml)))"

section \<open>What is set up\<close>

text \<open>A user is only sent with the password configured beside it; a host that is not configured is tried anonymously.\<close>

lemma getAuthCreds_user:
  assumes "getAuthCreds all_creds host = Ok (u, p)" and "u \<noteq> []"
  obtains creds a where "all_creds = Ok creds" "a \<in> snd ` set creds" "au_user a = u" "au_password a = p" "p \<noteq> []"
  using assms
  by (auto simp: getAuthCreds_def Let_def rbind_Ok_iff split: option.splits if_splits dest!: map_of_SomeD)
    (metis image_eqI snd_conv)+

lemma getAuthCreds_anonymous:
  "host \<noteq> DefaultDockerRegistryHost \<Longrightarrow> host \<notin> fst ` set creds \<Longrightarrow> getAuthCreds (Ok creds) host = Ok ([], [])"
  by (simp add: getAuthCreds_def map_of_eq_None_iff [THEN iffD2])

text \<open>The flags change neither the block size, which is that of the default store, nor the database of updates.\<close>

lemma initConfig_keeps:
  assumes "initConfig fl dockerCfg cfg w = (w', Done cfg')"
  shows "w' = w \<and> cf_block_size cfg' = cf_block_size cfg \<and> cf_db_file cfg' = cf_db_file cfg \<and>
    cf_proxy cfg' = cf_proxy cfg \<and> cf_store_root cfg' = rf_store fl"
  using assms by (auto simp: initConfig_def obind_Done_iff DieNotNil_Done_iff)

text \<open>The directory of the environment decides over the one that was set at compile time.\<close>

lemma user_docker_config_env:
  "envDir \<noteq> [] \<Longrightarrow> user_docker_config L fs D dir envDir show base = user_docker_config L fs D dir' envDir show base"
  unfolding user_docker_config_def Let_def by simp

lemma getDockerConfig_env:
  assumes "envDir \<noteq> []"
  shows "getDockerConfig L fs D base dir envDir show = getDockerConfig L fs D base dir' envDir show"
proof -
  have "user_docker_config L fs D dir envDir show = user_docker_config L fs D dir' envDir show"
    by (rule ext) (rule user_docker_config_env [OF assms])
  then show ?thesis by (simp only: getDockerConfig_def)
qed

lemma pinned_images_digested:
  "pinned_images X uris m = Ok m' \<Longrightarrow> \<forall>u\<in>set uris. \<exists>n. pn_normalized X u = Ok n \<and> nm_digest n \<noteq> None"
  by (induction uris arbitrary: m) (auto simp: rbind_Ok_iff split: option.splits)

lemma obind_DieNotNil_changed:
  assumes "obind (DieNotNil (w, r)) f = (w', q)" and "w' \<noteq> w"
  obtains v where "r = Ok v" "f v w = (w', q)"
  using assms by (cases r) (auto simp: DieNotNil_def DieNotNilWithCode_def)

end
