(* ===== verification/PubProps.thy ===== *)
theory PubProps
  imports Setup AppProps
begin

text \<open>The properties of publishing: layers, pinning, the archive with its index, and the manifest.\<close>

section \<open>A sample registry\<close>

text \<open>
  References are written \<open>h/n:t\<close> or \<open>h/n@d\<close>; the registry has an index of two manifests for the image
  \<open>h/i\<close> and a single manifest for \<open>h/u\<close>.  A hash is the text itself, and encoding is by the names of things.
\<close>

definition sample_named :: "string \<Rightarrow> named res" where
  "sample_named s =
     (let (dom, rest) = cut_at (CHR ''/'') s; (p, d) = cut_at (CHR ''@'') rest; (n, t) = cut_at (CHR '':'') p
      in Ok \<lparr>nm_domain = dom, nm_path = n, nm_tag = (if t = '''' then None else Some t),
             nm_digest = (if d = '''' then None else Some d)\<rparr>)"

definition arm_linux :: platform where "arm_linux = \<lparr>p_arch = ''arm'', p_os = ''linux'', p_variant = ''''\<rparr>"
definition amd_linux :: platform where "amd_linux = \<lparr>p_arch = ''amd'', p_os = ''linux'', p_variant = ''''\<rparr>"

definition layer_desc :: "string \<Rightarrow> descriptor" where
  "layer_desc d = zero_desc\<lparr>d_digest := d, d_size := 7\<rparr>"

definition sample_reg_manifest :: "digest \<Rightarrow> reg_manifest res" where
  "sample_reg_manifest d =
     (if d = ''I'' then Ok (ManifestList [\<lparr>le_digest = ''MA'', le_platform = arm_linux\<rparr>,
                                        \<lparr>le_digest = ''MX'', le_platform = amd_linux\<rparr>])
      else if d = ''U'' then Ok (Schema2 (layer_desc ''K'') [layer_desc ''L2'', layer_desc ''L1''])
      else if d = ''MA'' then Ok (OciSchema (layer_desc ''K'') [layer_desc ''L3'', layer_desc ''L1''])
      else Fail (ErrdefsNotFound d))"


definition tar_entry_of :: "string \<Rightarrow> bytes \<Rightarrow> tar_entry" where
  "tar_entry_of n b = \<lparr>te_name = n, te_regular = True, te_dir = False, te_size = int (length b), te_data = b\<rparr>"

definition dir_entry :: "string \<Rightarrow> tar_entry" where
  "dir_entry n = \<lparr>te_name = n, te_regular = False, te_dir = True, te_size = 0, te_data = []\<rparr>"

definition sample_project :: "proj_service list" where
  "sample_project = [\<lparr>ps_name = ''a'', ps_image = ''h/i:1'', ps_build = True, ps_labels = None\<rparr>,
     \<lparr>ps_name = ''b'', ps_image = ''h/u@U'', ps_build = False, ps_labels = Some [(''k'', ''v'')]\<rparr>]"

definition sample_compose :: "(string, jval) gomap" where
  "sample_compose = [(''services'', JMap [(''a'', JMap [(''image'', JStr ''h/i:1''), (''build'', JOther ''.'')]),
                                       (''b'', JMap [(''image'', JStr ''h/u@U'')])])]"

text \<open>The registry part of the sample world records what is put into it, by media type.\<close>

definition pub_sys :: "daemon pub" where
  "pub_sys = sys.extend (sys.truncate sample_sys)
     (pub.fields sample_named sample_named Ok
        (\<lambda>nm. Ok \<lparr>ri_name = nm, ri_secure = True\<rparr>) None
        (\<lambda>d. Ok [\<lparr>ep_url = d, ep_scheme = ''https'', ep_trim_hostname = True, ep_skip_verify = False\<rparr>])
        (\<lambda>i. \<lparr>ac_token = ''t'', ac_user = ''''\<rparr>) (\<lambda>w u. None) (\<lambda>r. None) (\<lambda>r. None)
        (\<lambda>w r d. sample_reg_manifest d)
        (\<lambda>w r m b t. (w\<lparr>w_ext := (w_ext w)\<lparr>dm_images := \<lparr>im_id = b, im_digests = [m], im_tags = [t]\<rparr> # dm_images (w_ext w)\<rparr>\<rparr>, Ok b))
        (\<lambda>w r d. Ok ''arch'') (\<lambda>w r d. Ok False)
        (\<lambda>w r m b. (w\<lparr>w_ext := (w_ext w)\<lparr>dm_images := \<lparr>im_id = b, im_digests = [m], im_tags = []\<rparr> # dm_images (w_ext w)\<rparr>\<rparr>,
           Ok (zero_desc\<lparr>d_media := m, d_digest := b, d_size := int (length b)\<rparr>)))
        (\<lambda>w r t. Ok (zero_desc\<lparr>d_digest := ''I''\<rparr>))
        [''HOME=/''] (\<lambda>b. Ok sample_compose) (\<lambda>n f b env. Ok sample_project) (\<lambda>v. Ok ''yaml'') (\<lambda>b. b)
        (\<lambda>b. None)
        (\<lambda>fs p ig. Ok ([dir_entry ''d/'', tar_entry_of ''docker-compose.yml'' ''old'', tar_entry_of ''d/f'' ''DATA''], None))
        (\<lambda>es. concat (map te_data es)) (\<lambda>e. None) (\<lambda>e b. None)
        (\<lambda>b. Ok [(''architecture'', JStr ''arm'')]) (\<lambda>m. Ok (concat (map snd m)))
        (\<lambda>m. am_media m @ concat (map d_digest (am_layers m))) (\<lambda>b. None)
        (\<lambda>m. Ok (al_arch m @ ''-layers'')) Ok (\<lambda>b. Ok []) (\<lambda>m. Ok ''meta''))"

definition sample_images :: "(string, string) gomap" where
  "sample_images = [(''a'', ''h/i@I''), (''b'', ''h/u@U'')]"

lemma sample_app_layers:
  "succeeds_with (\<lambda>ls. ls \<noteq> []) (GetAppLayersFromMap pub_sys empty_world sample_images [])"
  by code_simp

section \<open>Layers\<close>

text \<open>C32: The layers of an app are found for exactly those architectures, of the ones asked for, for which every image
  of the app has a manifest, and for each of them they are the layers of those manifests, every layer once, in the
  order of their digests.\<close>
theorem app_layers_exact:
  assumes "GetAppLayersFromMap X w imgs archList = Ok ls"
  shows "(\<forall>arch. arch \<in> fst ` set ls \<longleftrightarrow> imgs \<noteq> [] \<and> isInArchList archList arch \<and>
      (\<forall>(s, img)\<in>set imgs. image_manifest_for X w archList img arch \<noteq> None)) \<and>
    (\<forall>(arch, ds)\<in>set ls. \<exists>hs. sorted hs \<and> distinct hs \<and>
      list_all2 (\<lambda>h l. dg_encoded X (d_digest l) = Ok h) hs ds \<and>
      set hs = (\<Union>(s, img)\<in>set imgs. case image_manifest_for X w archList img arch of
                  None \<Rightarrow> {} | Some (r, d) \<Rightarrow> layer_keys X w r d))"
proof -
  from assms obtain m as where m: "arch_manifests X w archList 0 imgs [] = Ok m"
    and as: "app_layers X w archList (length imgs) m = Ok as"
    and ls: "ls = map (\<lambda>(arch, l). (arch, sorted_layers l)) as" by (auto simp: GetAppLayersFromMap_def rbind_Ok_iff)
  have e: "services_of m a = image_entries X w archList a 0 imgs" for a
    using arch_manifests_services [OF m, of a] by (simp add: services_of_def)
  have dist: "distinct (map fst m)" using arch_manifests_distinct [OF m] by simp
  have keys_ok: "\<forall>(a, ms)\<in>set m. ms \<noteq> []" using arch_manifests_keys [OF m] by simp
  have fst_ls: "fst ` set ls = fst ` set as" by (force simp: ls)
  have mem: "(a, ms) \<in> set m \<Longrightarrow> ms = image_entries X w archList a 0 imgs" for a ms
    using services_of_mem [OF dist] e by metis
  have arch: "a \<in> fst ` set ls \<longleftrightarrow> imgs \<noteq> [] \<and> isInArchList archList a \<and>
      (\<forall>(s, img)\<in>set imgs. image_manifest_for X w archList img a \<noteq> None)" for a
    using app_layers_archs [OF as dist keys_ok, of a] image_entries_full [of X w archList a 0 imgs]
    unfolding fst_ls e by (auto simp: eq_commute [of _ "length imgs"])
  have "\<exists>hs. sorted hs \<and> distinct hs \<and> list_all2 (\<lambda>h l. dg_encoded X (d_digest l) = Ok h) hs ds \<and>
      set hs = (\<Union>(s, img)\<in>set imgs. case image_manifest_for X w archList img a of
                  None \<Rightarrow> {} | Some (r, d) \<Rightarrow> layer_keys X w r d)" if ads: "(a, ds) \<in> set ls" for a ds
  proof -
    from ads obtain l where l: "(a, l) \<in> set as" "ds = sorted_layers l" by (auto simp: ls)
    obtain ms where "(a, ms) \<in> set m" and "arch_layer_map X w ms [] = Ok l"
      by (rule app_layers_memD [OF as l(1)])
    with mem have ms: "arch_layer_map X w ms [] = Ok l" "ms = image_entries X w archList a 0 imgs" by simp_all
    from arch_layer_map_keys [OF ms(1)] have ok: "layer_map_ok X l"
      and keys: "fst ` set l = (\<Union>e\<in>set ms. layer_keys X w (snd (fst e)) (snd e))" by blast+
    have "set (sort (map fst l)) = (\<Union>(s, img)\<in>set imgs. case image_manifest_for X w archList img a of
                  None \<Rightarrow> {} | Some (r, d) \<Rightarrow> layer_keys X w r d)"
      using keys by (simp add: ms(2) image_entries_Union)
    with sorted_layers_ok [OF ok] l(2) ok show ?thesis
      by (intro exI [of _ "sort (map fst l)"]) (simp add: layer_map_ok_def)
  qed
  with arch show ?thesis by blast
qed

theorem app_layers_exact_witness:
  "\<exists>ls. GetAppLayersFromMap pub_sys empty_world sample_images [] = Ok ls \<and>
     ''arm'' \<in> fst ` set ls \<and> ''amd'' \<notin> fst ` set ls"
proof -
  from sample_app_layers obtain ls where ls: "GetAppLayersFromMap pub_sys empty_world sample_images [] = Ok ls"
    by (rule succeeds_withE)
  have "\<forall>(s, img)\<in>set sample_images. image_manifest_for pub_sys empty_world [] img ''arm'' \<noteq> None"
    by code_simp
  moreover have "\<not> (\<forall>(s, img)\<in>set sample_images. image_manifest_for pub_sys empty_world [] img ''amd'' \<noteq> None)"
    by code_simp
  moreover have "sample_images \<noteq> []" "isInArchList [] ''arm''" by (simp_all add: sample_images_def isInArchList_def)
  moreover note app_layers_exact [OF ls, THEN conjunct1, rule_format]
  ultimately show ?thesis using ls by (intro exI [of _ ls]) (simp only: simp_thms)
qed

section \<open>The archive\<close>












section \<open>Pinning\<close>

text \<open>C29: Pinning gives every service of the project the reference of its image by digest and no build section, and then
  labels it with the hash of its configuration as pinned; an image with a tag is pinned to what the
  tag stands for in the registry, whatever digest its reference has.\<close>
theorem services_pinned:
  assumes "pinned_services X w config proj pinnedImages = Ok svcs'"
    and "map_of config ''services'' = Some (JMap svcs)" and "distinct (map ps_name proj)" and "s \<in> set proj"
    and "map_of svcs (ps_name s) = Some (JMap svc)"
  shows "\<exists>nm r d svc1 svc2 b labels. pn_normalized X (ps_image s) = Ok nm \<and> GetRepository X w nm = Ok r \<and>
    (case nm_tag nm of
       Some t \<Rightarrow> \<exists>desc. rg_tag_get X w r t = Ok desc \<and> d = d_digest desc
     | None \<Rightarrow> (case nm_digest nm of Some d' \<Rightarrow> d = d' | None \<Rightarrow> map_of pinnedImages (named_Name nm) = Some d)) \<and>
    map_of svc1 ''image'' = Some (JStr (pinned_ref nm d)) \<and> (ps_build s \<longrightarrow> map_of svc1 ''build'' = None) \<and>
    yaml_bytes X (JMap svc1) = Ok b \<and> map_of labels ''io.compose-spec.config-hash'' = Some (JStr (sha256_hex X b)) \<and>
    svc2 = gm_put ''labels'' (JMap labels) svc1 \<and> map_of svcs' (ps_name s) = Some (JMap svc2)"
proof -
  from assms(1,2) obtain svcs1 where i: "iterateServices (pin_image X w pinnedImages) proj svcs = Ok svcs1"
    and c: "iterateServices (pin_config X) proj svcs1 = Ok svcs'"
    by (auto simp: pinned_services_def pinServiceImages_def pinServiceConfigs_def rbind_Ok_iff)
  from iterateServices_ok [OF i assms(3)] assms(4,5) obtain svc1 where s1: "pin_image X w pinnedImages s svc = Ok svc1"
    "map_of svcs1 (ps_name s) = Some (JMap svc1)" by blast
  from iterateServices_ok [OF c assms(3)] assms(4) s1(2) obtain svc2 where s2: "pin_config X s svc1 = Ok svc2"
    "map_of svcs' (ps_name s) = Some (JMap svc2)" by blast
  obtain nm r d where p: "pn_normalized X (ps_image s) = Ok nm" "GetRepository X w nm = Ok r"
    "pinned_digest X w pinnedImages (ps_image s) nm r = Ok d" "map_of svc1 ''image'' = Some (JStr (pinned_ref nm d))"
    "ps_build s \<longrightarrow> map_of svc1 ''build'' = None"
    by (rule pin_image_ok [OF s1(1)])
  obtain b labels where l: "yaml_bytes X (JMap svc1) = Ok b"
    "map_of labels ''io.compose-spec.config-hash'' = Some (JStr (sha256_hex X b))"
    "svc2 = gm_put ''labels'' (JMap labels) svc1"
    by (rule pin_config_ok [OF s2(1)])
  from p(1,2,4,5) l s2(2) pinned_digest_ok [OF p(3)] show ?thesis by blast
qed

lemma sample_pinned: "succeeds_with (\<lambda>u. True) (pinned_services pub_sys empty_world sample_compose sample_project [])"
  by code_simp

theorem services_pinned_witness:
  "\<exists>svcs svc. pinned_services pub_sys empty_world sample_compose sample_project [] = Ok svcs \<and>
     map_of svcs ''a'' = Some (JMap svc)"
proof -
  from sample_pinned obtain svcs where u: "pinned_services pub_sys empty_world sample_compose sample_project [] = Ok svcs"
    by (rule succeeds_withE)
  let ?s = "\<lparr>ps_name = ''a'', ps_image = ''h/i:1'', ps_build = True, ps_labels = None\<rparr>"
  let ?svcs = "[(''a'', JMap [(''image'', JStr ''h/i:1''), (''build'', JOther ''.'')]), (''b'', JMap [(''image'', JStr ''h/u@U'')])]"
  have "map_of sample_compose ''services'' = Some (JMap ?svcs)" by (simp add: sample_compose_def)
  from services_pinned [OF u this, of ?s] u show ?thesis by (auto simp: sample_project_def)
qed

section \<open>Publishing\<close>

text \<open>C39: Only a publish command that is no dry run, for a reference with a tag and without a digest, with digests for all
  images it pins, changes anything but files; a dry run, and a command refused for its arguments, leave the registry as it was.\<close>
theorem publish_guard:
  assumes "w_ext (fst (publishCmd X dir ref archs opts w)) \<noteq> w_ext w"
  shows "\<not> po_dry opts \<and> (\<exists>a. ParseAppRef X ref = Ok a \<and> ar_digest a = '''' \<and> ar_tag a \<noteq> '''') \<and>
    (\<forall>u\<in>set (po_pinned opts). \<exists>n. pn_normalized X u = Ok n \<and> nm_digest n \<noteq> None)"
proof -
  obtain w' r where c: "publishCmd X dir ref archs opts w = (w', r)" by (metis surj_pair)
  with assms have ne: "w' \<noteq> w" and ext: "w_ext w' \<noteq> w_ext w" by auto
  obtain a where a: "ParseAppRef X ref = Ok a" and c1: "(if ar_digest a \<noteq> ''''
       then (w, Exit 1 (Err ''invalid app reference specified: cannot be a reference with digest''))
       else if ar_tag a = ''''
       then (w, Exit 1 (Err ''invalid app reference specified: must be reference with a tag''))
       else publishApp X dir a (case archs of None \<Rightarrow> [] | Some s \<Rightarrow> split_on (CHR '','') s) opts w) = (w', r)"
    by (rule obind_DieNotNil_changed [OF c [unfolded publishCmd_def] ne]) (rule that)
  with ne have p: "ar_digest a = ''''" "ar_tag a \<noteq> ''''"
    "publishApp X dir a (case archs of None \<Rightarrow> [] | Some s \<Rightarrow> split_on (CHR '','') s) opts w = (w', r)"
    by (auto split: if_splits)
  obtain pinned where m: "pinned_images X (po_pinned opts) [] = Ok pinned"
    and d: "DieNotNil (DoPublish X dir (ar_name a) (po_file opts) (AppRef_String X a) (po_digest_file opts)
         (po_dry opts) (case archs of None \<Rightarrow> [] | Some s \<Rightarrow> split_on (CHR '','') s) pinned (po_layers_meta opts)
         (po_layers_manifest opts) w) = (w', r)"
    by (rule obind_DieNotNil_changed [OF p(3) [unfolded publishApp_def] ne]) (rule that)
  have "\<not> po_dry opts"
  proof
    assume "po_dry opts"
    then have dry: "po_dry opts = True" by simp
    from d have "w' = fst (DoPublish X dir (ar_name a) (po_file opts) (AppRef_String X a) (po_digest_file opts)
         (po_dry opts) (case archs of None \<Rightarrow> [] | Some s \<Rightarrow> split_on (CHR '','') s) pinned (po_layers_meta opts)
         (po_layers_manifest opts) w)"
      unfolding DieNotNil_def DieNotNilWithCode_def prod.inject by (rule conjunct1 [THEN sym])
    from this [unfolded dry] have "w_ext w' = w_ext w" by (simp only: DoPublish_dry)
    with ext show False ..
  qed
  with a p(1,2) pinned_images_digested [OF m] show ?thesis by blast
qed

definition publish_world :: "daemon world" where
  "publish_world = sample_world (dirs [[], [''a'']] @ [([''a'', ''docker-compose.yml''], FFile ''P'')])"

definition publish_opts :: publish_options where
  "publish_opts = \<lparr>po_file = [''a'', ''docker-compose.yml''], po_digest_file = None, po_dry = False,
     po_pinned = [''h/p@D''], po_layers_meta = None, po_layers_manifest = False\<rparr>"

definition tag_sys :: "daemon pub" where
  "tag_sys = pub_sys\<lparr>ref_parse := (\<lambda>s. Ok \<lparr>rs_locator = ''h/n'', rs_object = ''t''\<rparr>),
     ref_split_object := (\<lambda>s. (s, ''''))\<rparr>"

lemma publish_changes: "dm_images (w_ext (fst (publishCmd tag_sys [''a''] ''h/n:t'' None publish_opts publish_world))) \<noteq> []"
  by code_simp

theorem publish_guard_witness:
  "\<exists>a n. ParseAppRef tag_sys ''h/n:t'' = Ok a \<and> ar_tag a \<noteq> '''' \<and>
     pn_normalized tag_sys ''h/p@D'' = Ok n \<and> nm_digest n \<noteq> None"
proof -
  have "dm_images (w_ext publish_world) = []" by code_simp
  with publish_changes have "w_ext (fst (publishCmd tag_sys [''a''] ''h/n:t'' None publish_opts publish_world)) \<noteq> w_ext publish_world"
    by metis
  from publish_guard [OF this] show ?thesis by (simp add: publish_opts_def) blast
qed



end
