(* ===== verification/UpdateCli.thy ===== *)
theory UpdateCli
  imports Cli
begin

text \<open>
  The commands on updates, \<open>composectl update ...\<close> (\<open>cmd/composectl/cmd/update\<close>): each makes the default
  configuration, takes the update that is in progress, or a new one, and makes one call on its runner.
\<close>

text \<open>An error ends the command with status 1; one that is not a cancellation is printed.\<close>

definition ExitIfNotNil :: "'x world \<times> 'a res \<Rightarrow> 'x world \<times> 'a outcome" where
  "ExitIfNotNil p =
     (fst p, case snd p of Ok v \<Rightarrow> Done v | Fail e \<Rightarrow> Exit 1 e | Panic m \<Rightarrow> Exit 2 (Err m))"

definition default_config ::
  "'z lib_scheme \<Rightarrow> 'e proc_env_scheme \<Rightarrow> 'x world \<Rightarrow> 'x world \<times> config outcome" where
  "default_config L E w =
     (let (fs', r) = NewDefaultConfig L E (w_fs w) [] in ExitIfNotNil (w\<lparr>w_fs := fs'\<rparr>, r))"

text \<open>What a call on the runner leaves of the world, and its result.\<close>

definition end_call :: "'x rstate \<times> unit res \<Rightarrow> 'x world \<times> unit outcome" where
  "end_call p = ExitIfNotNil (snd (fst p), snd p)"

definition with_current_update ::
  "('x, 'z) usys_scheme \<Rightarrow> 'e proc_env_scheme \<Rightarrow> (config \<Rightarrow> 'x rstate \<Rightarrow> 'x rstate \<times> unit res) \<Rightarrow> 'x world \<Rightarrow>
   'x world \<times> unit outcome" where
  "with_current_update X E call w =
     obind (default_config X E w) (\<lambda>cfg w.
       obind (ExitIfNotNil (GetCurrentUpdate X cfg w)) (\<lambda>u w. end_call (call cfg (u, w))))"

definition initUpdateCmd ::
  "('x, 'z) usys_scheme \<Rightarrow> 'e proc_env_scheme \<Rightarrow> string list \<Rightarrow> string \<Rightarrow> bool \<Rightarrow> 'x world \<Rightarrow> 'x world \<times> unit outcome"
where
  "initUpdateCmd X E args updateRef allowEmpty w =
     obind (default_config X E w) (\<lambda>cfg w.
       obind (ExitIfNotNil (if args \<noteq> [] \<or> allowEmpty then NewUpdate X cfg updateRef w else GetCurrentUpdate X cfg w)) (\<lambda>u w.
         end_call (Init X cfg args
           ([WithInitAllowEmptyAppList allowEmpty, WithInitCheckStatus True] @
            (if args \<noteq> [] \<or> u_URIs u \<noteq> [] then [WithInitProgress] else [])) (u, w))))"

text \<open>\<open>reports\<close> are the polls of the progress beside the fetch.\<close>

definition fetchUpdateCmd ::
  "('x, 'z) usys_scheme \<Rightarrow> 'e proc_env_scheme \<Rightarrow> fetch_progress list \<Rightarrow> 'x world \<Rightarrow>
   ('x world \<times> unit outcome) option" where
  "fetchUpdateCmd X E reports w =
     (case obind (default_config X E w) (\<lambda>cfg w.
             obind (ExitIfNotNil (GetCurrentUpdate X cfg w)) (\<lambda>u w. (w, Done (cfg, u)))) of
        (w, Exit c e) \<Rightarrow> Some (w, Exit c e)
      | (w, Done (cfg, u)) \<Rightarrow> map_option end_call (Fetch X cfg None reports (u, w)))"

definition installUpdateCmd ::
  "('x, 'z) usys_scheme \<Rightarrow> 'e proc_env_scheme \<Rightarrow> (load_progress list \<Rightarrow> load_progress list) \<Rightarrow> 'x world \<Rightarrow>
   'x world \<times> unit outcome" where
  "installUpdateCmd X E sched = with_current_update X E (\<lambda>cfg. runner_Install X cfg sched)"

definition runUpdateCmd ::
  "('x, 'z) usys_scheme \<Rightarrow> 'e proc_env_scheme \<Rightarrow> 'x world \<Rightarrow> 'x world \<times> unit outcome" where
  "runUpdateCmd X E = with_current_update X E (runner_Start X)"

definition cancelUpdateCmd ::
  "('x, 'z) usys_scheme \<Rightarrow> 'e proc_env_scheme \<Rightarrow> 'x world \<Rightarrow> 'x world \<times> unit outcome" where
  "cancelUpdateCmd X E = with_current_update X E (Cancel X)"

definition complete_cmd_opts :: "bool \<Rightarrow> bool \<Rightarrow> complete_opt list" where
  "complete_cmd_opts prune pruneAllImages =
     (if prune
      then [CompleteWithPruning [if pruneAllImages then PruneTypeAllUnusedImages else PruneTypeOnlyAppImages]]
      else [])"

definition completeUpdateCmd ::
  "('x, 'z) usys_scheme \<Rightarrow> 'e proc_env_scheme \<Rightarrow> bool \<Rightarrow> bool \<Rightarrow> 'x world \<Rightarrow> 'x world \<times> unit outcome" where
  "completeUpdateCmd X E prune pruneAllImages =
     with_current_update X E (\<lambda>cfg. Complete X cfg (complete_cmd_opts prune pruneAllImages))"

text \<open>
  The status is that of the update in progress, or else of the last one that ended, with the state of its
  apps if it is asked for: whether they are fetched, installed and running.
\<close>

definition status_update :: "('x, 'z) usys_scheme \<Rightarrow> config \<Rightarrow> 'x world \<Rightarrow> 'x world \<times> update res" where
  "status_update X cfg w =
     (case GetCurrentUpdate X cfg w of
        (w1, Ok u) \<Rightarrow> (w1, Ok u)
      | (w1, Panic m) \<Rightarrow> (w1, Panic m)
      | (w1, Fail e) \<Rightarrow> if errors_Is e ErrUpdateNotFound then GetFinalizedUpdate X cfg w1 else (w1, Fail e))"

definition status_apps ::
  "('x, 'z) sys_scheme \<Rightarrow> config \<Rightarrow> string list \<Rightarrow> 'x world \<Rightarrow> (bool \<times> bool \<times> bool) res" where
  "status_apps X cfg uris w =
     rbind (CheckAppsStatus X w cfg uris []) (\<lambda>st.
       rbind (AreInstalled st) (\<lambda>i. rbind (AreRunning st) (\<lambda>r. Ok (AreFetched st, i, r))))"

definition updateStatusCmd ::
  "('x, 'z) usys_scheme \<Rightarrow> 'e proc_env_scheme \<Rightarrow> bool \<Rightarrow> 'x world \<Rightarrow>
   'x world \<times> (update \<times> (bool \<times> bool \<times> bool) option) outcome" where
  "updateStatusCmd X E check w =
     obind (default_config X E w) (\<lambda>cfg w.
       obind (ExitIfNotNil (status_update X cfg w)) (\<lambda>u w.
         ExitIfNotNil (w,
           rbind (map_res (\<lambda>(d, b). dg_encoded X d) (u_Blobs u)) (\<lambda>_.
             if check then rbind (status_apps X cfg (u_URIs u) w) (\<lambda>st. Ok (u, Some st)) else Ok (u, None)))))"

end
