(* ===== verification/Ps.thy ===== *)
theory Ps
  imports Cli
begin

text \<open>
  The commands that report on apps: \<open>ps\<close>, which relates the containers of the daemon to the apps of the
  store (\<open>cmd/composectl/cmd/ps.go\<close>), and \<open>inspect\<close>, which lists the blobs of an app by image and
  manifest (\<open>cmd/composectl/cmd/inspect.go\<close>).
\<close>

section \<open>The apps that have containers\<close>

definition WorkingDirLabel :: string where
  "WorkingDirLabel = ''com.docker.compose.project.working_dir''"

record ps_app =
  pa_uri :: string
  pa_name :: string
  pa_state :: string
  pa_services :: "service list"
  pa_in_store :: bool
  pa_bundle :: "(string, string) gomap"
  pa_missing :: "string list"

text \<open>\<open>path.Base\<close>: the last element, without trailing slashes.\<close>

definition path_Base :: "string \<Rightarrow> string" where
  "path_Base p =
     (if p = '''' then ''.''
      else (let q = rev (dropWhile (\<lambda>c. c = CHR ''/'') (rev p))
            in if q = '''' then ''/'' else last (split_on (CHR ''/'') q)))"

definition checkAppInStore :: "app_ref list \<Rightarrow> string \<Rightarrow> app_ref list" where
  "checkAppInStore storeApps appName = filter (\<lambda>a. ar_name a = appName) storeApps"

definition ctr_service :: "('x, 'z) sys_scheme \<Rightarrow> 'x world \<Rightarrow> ctr \<Rightarrow> service" where
  "ctr_service X w c =
     \<lparr>sv_name = label_get (ct_labels c) ServiceLabel, sv_image = ct_image c,
      sv_hash = label_get (ct_labels c) AppServiceHashLabelKey, sv_ctr = ct_id c, sv_state = ct_state c,
      sv_status = ct_status c, sv_health = GetServiceHealth X w (ct_id c)\<rparr>"

text \<open>A container of a compose project belongs to the app its working directory is named after.\<close>

definition add_container ::
  "('x, 'z) sys_scheme \<Rightarrow> 'x world \<Rightarrow> app_ref list \<Rightarrow> ctr \<Rightarrow> (string, ps_app) gomap \<Rightarrow> (string, ps_app) gomap" where
  "add_container X w storeApps c found =
     (case map_of (ct_labels c) WorkingDirLabel of
        None \<Rightarrow> found
      | Some workDir \<Rightarrow>
          (let appName = path_Base workDir; srv = ctr_service X w c in
           case map_of found appName of
             Some app \<Rightarrow>
               gm_put appName
                 (app\<lparr>pa_services := pa_services app @ [srv],
                      pa_state := (if ct_state c \<noteq> ''running'' then ''not running'' else pa_state app)\<rparr>) found
           | None \<Rightarrow>
               (let inStore = checkAppInStore storeApps appName in
                gm_put appName
                  \<lparr>pa_uri = (case inStore of [a] \<Rightarrow> AppRef_String X a | _ \<Rightarrow> ''''),
                   pa_name = appName, pa_state = ct_state c, pa_services = [srv],
                   pa_in_store = (inStore \<noteq> []), pa_bundle = [], pa_missing = []\<rparr> found)))"

definition getAllAppStatuses ::
  "('x, 'z) sys_scheme \<Rightarrow> config \<Rightarrow> 'x world \<Rightarrow> (string, ps_app) gomap res" where
  "getAllAppStatuses X cfg w =
     rbind (NewAppStore X (cf_store_root cfg) (cf_platform cfg) []) (\<lambda>store.
       rbind (ListApps X store (w_fs w)) (\<lambda>storeApps.
         (case dk_client X (cf_docker_host cfg) of
            Some e \<Rightarrow> Fail e
          | None \<Rightarrow>
              rbind (dk_container_list X w) (\<lambda>ctrs. Ok (fold (add_container X w storeApps) ctrs [])))))"

section \<open>The status of given apps\<close>

definition app_in_store ::
  "('x, 'z) sys_scheme \<Rightarrow> config \<Rightarrow> 'x world \<Rightarrow> app_store \<Rightarrow> string \<Rightarrow> (ps_app \<times> app_ctx option) res" where
  "app_in_store X cfg w store appRef =
     (let st = \<lparr>pa_uri = appRef, pa_name = '''', pa_state = ''undefined'', pa_services = [], pa_in_store = False,
                pa_bundle = [], pa_missing = []\<rparr>
      in rcatch (LoadAppTree X ctx_background (appStore_provider X w store) (platform_match X (cf_platform cfg)) appRef)
           (\<lambda>app. Ok (st\<lparr>pa_name := a_Name app, pa_in_store := True, pa_state := ''found in store''\<rparr>, Some app))
           (\<lambda>err.
             let st1 = st\<lparr>pa_state := (if errors_Is err ErrAppNotFound then ''not found in store'' else err_msg err)\<rparr> in
             rcatch (ParseAppRef X appRef) (\<lambda>r. Ok (st1\<lparr>pa_name := ar_name r\<rparr>, None))
               (\<lambda>_. Ok (st1\<lparr>pa_name := ''unknown app name for '' @ appRef\<rparr>, None))))"

definition bare_service :: "string \<Rightarrow> string \<Rightarrow> string \<Rightarrow> service" where
  "bare_service imageUri state status =
     \<lparr>sv_name = '''', sv_image = imageUri, sv_hash = '''', sv_ctr = '''', sv_state = state, sv_status = status,
      sv_health = ''''\<rparr>"

text \<open>
  The services with the image of a service are looked through for the first with the configuration hash; one without
  any hash is listed as unknown on the way.
\<close>

fun match_service :: "string \<Rightarrow> string \<Rightarrow> service list \<Rightarrow> service list \<times> bool \<times> service option" where
  "match_service imageUri h [] = ([], False, None)"
| "match_service imageUri h (s # ss) =
     (if sv_hash s = ''''
      then (let (us, unknown, found) = match_service imageUri h ss
            in (bare_service imageUri ''unknown'' ''no config hash'' # us, True, found))
      else if sv_hash s = h then ([], False, Some s)
      else match_service imageUri h ss)"

definition image_status :: "service list \<Rightarrow> tree \<Rightarrow> string \<Rightarrow> service list \<times> string" where
  "image_status services imageNode appState =
     (let imageUri = t_Ref imageNode; foundSrvs = filter (\<lambda>s. sv_image s = imageUri) services in
      if foundSrvs = [] then ([bare_service imageUri ''missing'' ''''], ''not running'')
      else (let (us, unknown, found) =
                  match_service imageUri (annot_get (d_annot (t_desc imageNode)) AppServiceHashLabelKey) foundSrvs;
                state1 = (if unknown then ''unknown'' else appState)
            in case found of
                 Some s \<Rightarrow> (us @ [s], if sv_state s = '''' \<or> sv_state s \<noteq> ''running'' then ''not running'' else state1)
               | None \<Rightarrow> (us @ [bare_service imageUri ''missing'' ''config hash mismatch''], ''not running'')))"

fun images_status :: "service list \<Rightarrow> tree list \<Rightarrow> string \<Rightarrow> service list \<times> string" where
  "images_status services [] appState = ([], appState)"
| "images_status services (n # ns) appState =
     (let (ss, state1) = image_status services n appState;
          (rest, state2) = images_status services ns state1
      in (ss @ rest, state2))"

definition running_app_status ::
  "(string, ps_app) gomap \<Rightarrow> string \<Rightarrow> ps_app \<Rightarrow> app_ctx \<Rightarrow> ps_app res" where
  "running_app_status runningApps appRef st app =
     (case map_of runningApps (a_Name app) of
        None \<Rightarrow> Ok (st\<lparr>pa_state := ''not running''\<rparr>)
      | Some runningApp \<Rightarrow>
          (if \<not> pa_in_store runningApp then Ok st
           else if pa_uri runningApp \<noteq> '''' \<and> pa_uri runningApp \<noteq> appRef
           then Ok (st\<lparr>pa_state := ''running another app version than found in the store'' @ pa_uri runningApp\<rparr>)
           else (case GetComposeRoot app of
                   None \<Rightarrow> Panic (''failed to get app tree for '' @ a_Name app)
                 | Some root \<Rightarrow>
                     (let (ss, state) = images_status (pa_services runningApp) (t_children root) ''running''
                      in Ok (st\<lparr>pa_state := state, pa_services := ss\<rparr>)))))"

fun apps_status_of ::
  "('x, 'z) sys_scheme \<Rightarrow> config \<Rightarrow> 'x world \<Rightarrow> app_store \<Rightarrow> (string, ps_app) gomap \<Rightarrow> string list \<Rightarrow>
   (string, ps_app) gomap \<Rightarrow> (string, ps_app) gomap res"
where
  "apps_status_of X cfg w store running [] m = Ok m"
| "apps_status_of X cfg w store running (r # rs) m =
     rbind (app_in_store X cfg w store r) (\<lambda>(st, app).
       rbind (case app of None \<Rightarrow> Ok st | Some a \<Rightarrow> running_app_status running r st a) (\<lambda>st'.
         apps_status_of X cfg w store running rs (gm_put r st' m)))"

definition add_install :: "app_install_check_result \<Rightarrow> ps_app \<Rightarrow> ps_app" where
  "add_install air st =
     st\<lparr>pa_bundle := air_bundle air, pa_missing := air_missing air,
        pa_state := (if pa_state st = ''running'' \<and> air_bundle air \<noteq> []
                     then ''running with an invalid app bundle'' else pa_state st)\<rparr>"

definition getAppsStatus ::
  "('x, 'z) sys_scheme \<Rightarrow> config \<Rightarrow> 'x world \<Rightarrow> string list \<Rightarrow> (string, ps_app) gomap \<Rightarrow> bool \<Rightarrow>
   (string, ps_app) gomap res" where
  "getAppsStatus X cfg w appRefs runningApps checkInstall =
     rbind (NewAppStore X (cf_store_root cfg) (cf_platform cfg) []) (\<lambda>store.
       rbind (apps_status_of X cfg w store runningApps appRefs []) (\<lambda>m.
         if \<not> checkInstall then Ok m
         else rbind (checkIfInstalled X cfg w (map fst (filter (\<lambda>(r, st). pa_in_store st) m))
                       (appStore_provider X w store)) (\<lambda>irs.
           Ok (map (\<lambda>(r, st). (r, case map_of irs r of None \<Rightarrow> st | Some air \<Rightarrow> add_install air st)) m))))"

definition psApps ::
  "('x, 'z) sys_scheme \<Rightarrow> config \<Rightarrow> string list \<Rightarrow> bool \<Rightarrow> 'x world \<Rightarrow> 'x world \<times> (string, ps_app) gomap outcome" where
  "psApps X cfg args checkInstall w =
     DieNotNil (w,
       rbind (getAllAppStatuses X cfg w) (\<lambda>runningApps.
         if args = [] then Ok runningApps else getAppsStatus X cfg w args runningApps checkInstall))"

section \<open>Inspecting an app\<close>

record blob_line =
  bl_digest :: digest
  bl_size :: int

record manifest_info =
  mf_blob :: blob_line
  mf_arch :: string
  mf_config :: blob_line
  mf_layers :: "blob_line list"

record service_info =
  si_name :: string
  si_ref :: string
  si_manifests :: "manifest_info list"

record app_info =
  ap_name :: string
  ap_ref :: string
  ap_meta :: blob_line
  ap_index :: blob_line
  ap_bundle :: blob_line
  ap_services :: "service_info list"

definition line_of :: "tree \<Rightarrow> blob_line" where
  "line_of n = \<lparr>bl_digest = d_digest (t_desc n), bl_size = d_size (t_desc n)\<rparr>"

definition no_line :: blob_line where "no_line = \<lparr>bl_digest = '''', bl_size = 0\<rparr>"

definition manifest_of :: "tree \<Rightarrow> string \<Rightarrow> manifest_info" where
  "manifest_of n arch = \<lparr>mf_blob = line_of n, mf_arch = arch, mf_config = no_line, mf_layers = []\<rparr>"

text \<open>The last element of a slice is changed in place; an empty slice panics.\<close>

definition on_last :: "('a \<Rightarrow> 'a res) \<Rightarrow> 'a list \<Rightarrow> 'a list res" where
  "on_last f xs =
     (if xs = [] then Panic ''index out of range''
      else rbind (f (last xs)) (\<lambda>x. Ok (butlast xs @ [x])))"

definition on_last_service :: "(service_info \<Rightarrow> service_info res) \<Rightarrow> app_info \<Rightarrow> app_info res" where
  "on_last_service f a = rbind (on_last f (ap_services a)) (\<lambda>ss. Ok (a\<lparr>ap_services := ss\<rparr>))"

definition on_last_manifest :: "(manifest_info \<Rightarrow> manifest_info) \<Rightarrow> app_info \<Rightarrow> app_info res" where
  "on_last_manifest f =
     on_last_service (\<lambda>s. rbind (on_last (\<lambda>m. Ok (f m)) (si_manifests s)) (\<lambda>ms. Ok (s\<lparr>si_manifests := ms\<rparr>)))"

definition inspect_component :: "tree \<Rightarrow> app_info \<Rightarrow> app_info" where
  "inspect_component n a =
     (case t_type n of
        BlobTypeAppLayersMeta \<Rightarrow> a\<lparr>ap_meta := line_of n\<rparr>
      | BlobTypeAppIndex \<Rightarrow> a\<lparr>ap_index := line_of n\<rparr>
      | BlobTypeAppBundle \<Rightarrow> a\<lparr>ap_bundle := line_of n, ap_services := []\<rparr>
      | _ \<Rightarrow> a)"

definition inspect_image :: "tree \<Rightarrow> app_info \<Rightarrow> app_info res" where
  "inspect_image n a =
     (case d_urls (t_desc n) of
        [] \<Rightarrow> Panic ''index out of range''
      | url # _ \<Rightarrow>
          Ok (a\<lparr>ap_services := ap_services a @
                  [\<lparr>si_name = annot_get (d_annot (t_desc n)) AnnotationKeyAppServiceName, si_ref = url,
                    si_manifests = (if t_type n = BlobTypeImageManifest then [manifest_of n ''unknown''] else [])\<rparr>]\<rparr>))"

definition inspect_manifest :: "tree \<Rightarrow> app_info \<Rightarrow> app_info res" where
  "inspect_manifest n a =
     (case d_platform (t_desc n) of
        None \<Rightarrow> Panic ''nil pointer dereference''
      | Some p \<Rightarrow>
          on_last_service (\<lambda>s. Ok (s\<lparr>si_manifests := si_manifests s @ [manifest_of n (p_arch p)]\<rparr>)) a)"

definition inspect_content :: "tree \<Rightarrow> app_info \<Rightarrow> app_info res" where
  "inspect_content n a =
     (case t_type n of
        BlobTypeImageConfig \<Rightarrow> on_last_manifest (\<lambda>m. m\<lparr>mf_config := line_of n\<rparr>) a
      | BlobTypeImageLayer \<Rightarrow> on_last_manifest (\<lambda>m. m\<lparr>mf_layers := mf_layers m @ [line_of n]\<rparr>) a
      | _ \<Rightarrow> Ok a)"

definition inspect_node :: "tree \<Rightarrow> nat \<Rightarrow> app_info \<Rightarrow> app_info res" where
  "inspect_node n depth a =
     (if depth = 1 then Ok (inspect_component n a)
      else if depth = 2 then inspect_image n a
      else if depth = 3 \<and> t_type n = BlobTypeImageManifest then inspect_manifest n a
      else if depth = 4 \<or> depth = 3 then inspect_content n a
      else Ok a)"

definition inspect_visit :: "app_info processor" where
  "inspect_visit n depth a =
     (case inspect_node n depth a of
        Ok a' \<Rightarrow> (Ok (), a')
      | Fail e \<Rightarrow> (Fail e, a)
      | Panic m \<Rightarrow> (Panic m, a))"

definition inspect_app :: "'z lib_scheme \<Rightarrow> app_ctx \<Rightarrow> app_info res" where
  "inspect_app L app =
     (case Walk (a_tree app) inspect_visit
             \<lparr>ap_name = a_Name app, ap_ref = ref_string L (ar_spec (a_ref app)), ap_meta = no_line, ap_index = no_line,
              ap_bundle = no_line, ap_services = []\<rparr> of
        (Ok _, a) \<Rightarrow> Ok a
      | (Fail e, a) \<Rightarrow> Fail e
      | (Panic m, a) \<Rightarrow> Panic m)"

text \<open>Every platform of an image is inspected; the plain format prints the tree and the number of its nodes.\<close>

definition inspectApp ::
  "('x, 'z) sys_scheme \<Rightarrow> string \<Rightarrow> bool \<Rightarrow> 'x world \<Rightarrow> 'x world \<times> (app_info option \<times> int) outcome" where
  "inspectApp X appRef plain w =
     DieNotNil (w,
       rbind (LoadAppTree X ctx_background (newRemoteBlobProvider X w) (\<lambda>_. True) appRef) (\<lambda>app.
         if plain then rbind (NodeCount (a_tree app)) (\<lambda>n. Ok (None, n))
         else rbind (inspect_app X app) (\<lambda>a. Ok (Some a, 0))))"

section \<open>When an app is reported as running\<close>

lemma match_service_found:
  assumes "match_service u h ss = (us, unknown, Some s)"
  shows "s \<in> set ss \<and> sv_hash s = h"
  using assms by (induction ss arbitrary: us unknown) (auto split: if_splits prod.splits)

lemma image_status_running:
  assumes "image_status services n st = (ss, ''running'')"
  shows "st = ''running'' \<and> (\<exists>s\<in>set services. sv_image s = t_Ref n \<and>
    sv_hash s = annot_get (d_annot (t_desc n)) AppServiceHashLabelKey \<and> sv_state s = ''running'')"
proof -
  let ?ss = "filter (\<lambda>s. sv_image s = t_Ref n) services"
  let ?h = "annot_get (d_annot (t_desc n)) AppServiceHashLabelKey"
  obtain us unknown found where m: "match_service (t_Ref n) ?h ?ss = (us, unknown, found)" by (metis prod_cases3)
  from assms m obtain s where f: "found = Some s" and r: "sv_state s = ''running''" "st = ''running''"
    by (auto simp: image_status_def Let_def split: if_splits option.splits)
  from match_service_found [OF m [unfolded f]] r show ?thesis by auto
qed

lemma images_status_running:
  assumes "images_status services ns st = (ss, ''running'')"
  shows "st = ''running'' \<and> (\<forall>n\<in>set ns. \<exists>s\<in>set services. sv_image s = t_Ref n \<and>
    sv_hash s = annot_get (d_annot (t_desc n)) AppServiceHashLabelKey \<and> sv_state s = ''running'')"
  using assms
proof (induction ns arbitrary: st ss)
  case (Cons n ns)
  obtain ss1 st1 where i: "image_status services n st = (ss1, st1)" by force
  with Cons.prems obtain ss2 where r: "images_status services ns st1 = (ss2, ''running'')"
    by (auto split: prod.splits)
  from Cons.IH [OF r] image_status_running [of services n st ss1] i show ?case by simp
qed simp

definition app_up ::
  "('x, 'z) sys_scheme \<Rightarrow> config \<Rightarrow> 'x world \<Rightarrow> app_store \<Rightarrow> (string, ps_app) gomap \<Rightarrow> string \<Rightarrow> bool" where
  "app_up X cfg w store running r \<longleftrightarrow> (\<exists>app rapp root.
     LoadAppTree X ctx_background (appStore_provider X w store) (platform_match X (cf_platform cfg)) r = Ok app \<and>
     map_of running (a_Name app) = Some rapp \<and> pa_in_store rapp \<and> (pa_uri rapp = '''' \<or> pa_uri rapp = r) \<and>
     GetComposeRoot app = Some root \<and>
     (\<forall>n\<in>set (t_children root). \<exists>s\<in>set (pa_services rapp). sv_image s = t_Ref n \<and>
        sv_hash s = annot_get (d_annot (t_desc n)) AppServiceHashLabelKey \<and> sv_state s = ''running''))"

lemma running_app_status_up:
  assumes "running_app_status running r st app = Ok st'" and "pa_state st' = ''running''" and "pa_state st = ''found in store''"
  shows "\<exists>rapp root. map_of running (a_Name app) = Some rapp \<and> pa_in_store rapp \<and>
    (pa_uri rapp = '''' \<or> pa_uri rapp = r) \<and> GetComposeRoot app = Some root \<and>
    (\<forall>n\<in>set (t_children root). \<exists>s\<in>set (pa_services rapp). sv_image s = t_Ref n \<and>
        sv_hash s = annot_get (d_annot (t_desc n)) AppServiceHashLabelKey \<and> sv_state s = ''running'')"
proof -
  from assms obtain rapp root ss where m: "map_of running (a_Name app) = Some rapp" "pa_in_store rapp"
    "pa_uri rapp = '''' \<or> pa_uri rapp = r" "GetComposeRoot app = Some root"
    and i: "images_status (pa_services rapp) (t_children root) ''running'' = (ss, ''running'')"
    by (auto simp: running_app_status_def split: option.splits if_splits prod.splits)
  from m images_status_running [OF i] show ?thesis by blast
qed

lemma app_in_store_cases:
  assumes "app_in_store X cfg w store r = Ok (st, app)"
  shows "case app of
      Some a \<Rightarrow> LoadAppTree X ctx_background (appStore_provider X w store) (platform_match X (cf_platform cfg)) r = Ok a \<and>
        pa_state st = ''found in store'' \<and> pa_in_store st \<and> pa_bundle st = []
    | None \<Rightarrow> \<not> pa_in_store st"
  using assms by (auto simp: app_in_store_def Let_def rcatch_Ok_iff)

lemma running_app_status_keeps:
  "running_app_status running r st app = Ok st' \<Longrightarrow> pa_in_store st' = pa_in_store st \<and> pa_bundle st' = pa_bundle st"
  by (auto simp: running_app_status_def split: option.splits if_splits prod.splits)

lemma apps_status_of_up:
  assumes "apps_status_of X cfg w store running rs m = Ok m'"
    and "\<forall>(r, st)\<in>set m. pa_in_store st \<longrightarrow> pa_bundle st = [] \<and> (pa_state st = ''running'' \<longrightarrow> app_up X cfg w store running r)"
  shows "\<forall>(r, st)\<in>set m'. pa_in_store st \<longrightarrow> pa_bundle st = [] \<and> (pa_state st = ''running'' \<longrightarrow> app_up X cfg w store running r)"
  using assms
proof (induction rs arbitrary: m)
  case (Cons r rs)
  from Cons.prems(1) obtain st app st' where a: "app_in_store X cfg w store r = Ok (st, app)"
    and s: "(case app of None \<Rightarrow> Ok st | Some a \<Rightarrow> running_app_status running r st a) = Ok st'"
    and rest: "apps_status_of X cfg w store running rs (gm_put r st' m) = Ok m'" by (auto simp: rbind_Ok_iff)
  note c = app_in_store_cases [OF a]
  have new: "pa_in_store st' \<longrightarrow> pa_bundle st' = [] \<and> (pa_state st' = ''running'' \<longrightarrow> app_up X cfg w store running r)"
  proof (cases app)
    case None
    with c s show ?thesis by simp
  next
    case (Some b)
    with s have rs: "running_app_status running r st b = Ok st'" by simp
    from Some c have b: "LoadAppTree X ctx_background (appStore_provider X w store) (platform_match X (cf_platform cfg)) r = Ok b"
      "pa_state st = ''found in store''" "pa_bundle st = []" by auto
    have "app_up X cfg w store running r" if "pa_state st' = ''running''"
      using running_app_status_up [OF rs that b(2)] b(1) unfolding app_up_def by blast
    with running_app_status_keeps [OF rs] b(3) show ?thesis by simp
  qed
  have "\<forall>(q, st)\<in>set (gm_put r st' m). pa_in_store st \<longrightarrow> pa_bundle st = [] \<and>
      (pa_state st = ''running'' \<longrightarrow> app_up X cfg w store running q)"
  proof
    fix e assume "e \<in> set (gm_put r st' m)"
    from gm_put_memD [OF this] Cons.prems(2) new
    show "case e of (q, st) \<Rightarrow> pa_in_store st \<longrightarrow> pa_bundle st = [] \<and>
      (pa_state st = ''running'' \<longrightarrow> app_up X cfg w store running q)" by (elim disjE) (simp, blast)
  qed
  from Cons.IH [OF rest this] show ?case .
qed simp

lemma getAppsStatus_up:
  assumes "getAppsStatus X cfg w rs running chk = Ok m" and "(r, st) \<in> set m"
    and "pa_in_store st" and "pa_state st = ''running''"
  obtains store where "NewAppStore X (cf_store_root cfg) (cf_platform cfg) [] = Ok store"
    "app_up X cfg w store running r" "pa_bundle st = []"
proof -
  from assms(1) obtain store m1 where store: "NewAppStore X (cf_store_root cfg) (cf_platform cfg) [] = Ok store"
    and m1: "apps_status_of X cfg w store running rs [] = Ok m1"
    and m: "\<not> chk \<and> m = m1 \<or> (\<exists>irs. m = map (\<lambda>(r, st). (r, case map_of irs r of None \<Rightarrow> st | Some air \<Rightarrow> add_install air st)) m1)"
    unfolding getAppsStatus_def rbind_Ok_iff by (cases chk) (simp_all add: rbind_Ok_iff, blast+)
  from apps_status_of_up [OF m1] have up: "pa_in_store s \<Longrightarrow> pa_bundle s = [] \<and>
      (pa_state s = ''running'' \<longrightarrow> app_up X cfg w store running q)" if "(q, s) \<in> set m1" for q s
    using that by fastforce
  from m show thesis
  proof
    assume "\<not> chk \<and> m = m1"
    with assms(2-4) up store that show thesis by blast
  next
    assume "\<exists>irs. m = map (\<lambda>(r, st). (r, case map_of irs r of None \<Rightarrow> st | Some air \<Rightarrow> add_install air st)) m1"
    then obtain irs st1 where st1: "(r, st1) \<in> set m1"
      and st: "st = (case map_of irs r of None \<Rightarrow> st1 | Some air \<Rightarrow> add_install air st1)" using assms(2) by auto
    have "pa_in_store st1 \<and> pa_state st1 = ''running'' \<and> pa_bundle st = (case map_of irs r of None \<Rightarrow> pa_bundle st1 | Some air \<Rightarrow> [])"
      using assms(3,4) st by (auto simp: add_install_def split: option.splits if_splits)
    with up [OF st1] store show thesis by (auto split: option.splits intro!: that)
  qed
qed

end
