(* ===== verification/CliProps.thy ===== *)
theory CliProps
  imports UpdateCli Ps AppProps UpdateProps
begin

text \<open>The properties of the commands: what they do to which apps, and what they report.\<close>

section \<open>The apps a user names\<close>

text \<open>C34: The commands that take names or URIs of apps work on apps of the store that the user named, or on all of
  them if none is named: every URI they get is that of a listed app that is meant by an argument, and every argument
  that has to exist means one of them.  A name that several versions of an app have is refused by the commands that
  allow one version only; for the one that allows several (uninstall) it means all of them.\<close>
theorem user_apps_ok:
  assumes "checkUserListedApps X cfg listed chk multi w = Ok uris" and "compose_ListApps X cfg w = Ok apps"
  shows "\<exists>args. args = (if listed = [] then map a_Name apps else listed) \<and>
    (\<forall>u\<in>set uris. \<exists>nu\<in>set args. \<exists>app\<in>set apps. meant_by X nu app \<and> u = AppRef_String X (a_ref app)) \<and>
    (\<forall>nu\<in>set args. (chk \<longrightarrow> (\<exists>app\<in>set apps. meant_by X nu app \<and> AppRef_String X (a_ref app) \<in> set uris)) \<and>
       (if multi
        then (\<forall>app\<in>set apps. AppRef_String X (a_ref app) \<noteq> nu) \<longrightarrow>
          (\<forall>app\<in>set apps. a_Name app = nu \<longrightarrow> AppRef_String X (a_ref app) \<in> set uris)
        else \<not> ambiguous X apps nu))"
proof -
  let ?args = "if listed = [] then map a_Name apps else listed"
  from assms obtain checked where c: "check_user_apps X chk multi apps ?args [] = Ok checked"
    and u: "uris = concat (map (\<lambda>(n, versions). map (\<lambda>app. AppRef_String X (a_ref app)) versions) checked)"
    by (auto simp: checkUserListedApps_def rbind_Ok_iff Let_def)
  note ok = check_user_apps_ok [OF c]
  have mem: "v \<in> set uris \<longleftrightarrow> (\<exists>(k, vs)\<in>set checked. \<exists>a\<in>set vs. v = AppRef_String X (a_ref a))" for v
    by (auto simp: u)
  have f1: "\<exists>nu\<in>set ?args. \<exists>app\<in>set apps. meant_by X nu app \<and> v = AppRef_String X (a_ref app)" if v: "v \<in> set uris" for v
  proof -
    from v mem obtain k vs a where "(k, vs) \<in> set checked" "a \<in> set vs" "v = AppRef_String X (a_ref a)" by blast
    with ok show ?thesis by fastforce
  qed
  have f2: "\<exists>app\<in>set apps. meant_by X nu app \<and> AppRef_String X (a_ref app) \<in> set uris"
    if nu: "nu \<in> set ?args" "chk" for nu
  proof -
    from ok nu obtain k vs a where "(k, vs) \<in> set checked" "a \<in> set vs" "a \<in> set apps" "meant_by X nu a" by blast
    then show ?thesis using mem by blast
  qed
  have f3: "AppRef_String X (a_ref a) \<in> set uris"
    if m: multi and nu: "nu \<in> set ?args" "\<forall>app\<in>set apps. AppRef_String X (a_ref app) \<noteq> nu" "a \<in> set apps" "a_Name a = nu" for nu a
  proof -
    from c m have c1: "check_user_apps X chk True apps ?args [] = Ok checked" by simp
    show ?thesis using check_user_apps_versions [OF c1 nu] mem by blast
  qed
  have f4: "\<not> ambiguous X apps nu" if "\<not> multi" "nu \<in> set ?args" for nu
    using ok that by blast
  have f5: "if multi
     then (\<forall>app\<in>set apps. AppRef_String X (a_ref app) \<noteq> nu) \<longrightarrow>
       (\<forall>app\<in>set apps. a_Name app = nu \<longrightarrow> AppRef_String X (a_ref app) \<in> set uris)
     else \<not> ambiguous X apps nu" if "nu \<in> set ?args" for nu
  proof (cases multi)
    case True
    then show ?thesis using f3 [OF True that] by simp
  next
    case False
    then show ?thesis using f4 [OF False that] by simp
  qed
  show ?thesis
    by (rule exI [of _ ?args], intro conjI ballI impI refl) (rule f1 f2 f5, assumption+)+
qed

lemma sample_user_apps:
  "succeeds_with (\<lambda>u. True) (checkUserListedApps sample_sys sample_config [''n''] True False fetched_world)"
  by code_simp

lemma sample_listed: "succeeds_with (\<lambda>u. True) (compose_ListApps sample_sys sample_config fetched_world)"
  by code_simp

theorem user_apps_ok_witness:
  "\<exists>uris. checkUserListedApps sample_sys sample_config [''n''] True False fetched_world = Ok uris \<and> uris \<noteq> []"
proof -
  from sample_user_apps obtain uris where u: "checkUserListedApps sample_sys sample_config [''n''] True False fetched_world = Ok uris"
    by (rule succeeds_withE)
  from sample_listed obtain apps where "compose_ListApps sample_sys sample_config fetched_world = Ok apps"
    by (rule succeeds_withE)
  from user_apps_ok [OF u this] u show ?thesis by auto
qed

section \<open>Checking and pulling\<close>

text \<open>The sizes that a check reports are the sums over the missing blobs on 64 bits: of a blob whose fetch has
  begun only the rest counts, and what is required of the file system is the store size and the run-time size together.\<close>
theorem check_totals:
  assumes "checkApps X cfg w refs pv watermark quiet quick = Ok (cr, ui, apps)"
  shows "cr_pull cr = i64 (\<Sum>(d, bi)\<leftarrow>cr_missing cr. rest_of bi) \<and>
    cr_store cr = i64 (\<Sum>(d, bi)\<leftarrow>cr_missing cr. store_rest_of (cf_block_size cfg) bi) \<and>
    cr_runtime cr = i64 (\<Sum>(d, bi)\<leftarrow>cr_missing cr. bi_runtime_size bi) \<and>
    ui_required ui = u64 (i64 (cr_store cr + cr_runtime cr))"
proof -
  from assms obtain status :: apps_status where
    s: "sum_missing (cf_block_size cfg) (fst_missing (st_fetch status))
         \<lparr>cr_missing = fst_missing (st_fetch status), cr_pull = 0, cr_store = 0, cr_runtime = 0\<rparr> = Ok cr"
    and g: "GetUsageInfo (cs_statfs X w (cf_store_root cfg)) (cs_reserve X) (i64 (cr_store cr + cr_runtime cr)) watermark = Ok ui"
    unfolding checkApps_def rbind_Ok_iff res.inject prod.inject by (elim exE conjE) (hypsubst_thin, blast)
  have z: "in_i64 0" by (simp add: in_i64_def)
  have ok: "cr_missing cr = fst_missing (st_fetch status)"
    "i64 (cr_pull cr) = i64 (\<Sum>(d, bi)\<leftarrow>fst_missing (st_fetch status). rest_of bi)"
    "i64 (cr_store cr) = i64 (\<Sum>(d, bi)\<leftarrow>fst_missing (st_fetch status). store_rest_of (cf_block_size cfg) bi)"
    "i64 (cr_runtime cr) = i64 (\<Sum>(d, bi)\<leftarrow>fst_missing (st_fetch status). bi_runtime_size bi)"
    "in_i64 (cr_pull cr)" "in_i64 (cr_store cr)" "in_i64 (cr_runtime cr)"
    using sum_missing_ok [OF s] z by simp_all
  note ok(1) ok(2-4) [unfolded i64_id [OF ok(5)] i64_id [OF ok(6)] i64_id [OF ok(7)]]
  moreover from g have "ui_required ui = u64 (i64 (cr_store cr + cr_runtime cr))"
    by (auto simp: GetUsageInfo_def rbind_Ok_iff Let_def)
  ultimately show ?thesis by simp
qed

definition cli_sys :: "daemon csys" where
  "cli_sys = usys.extend (usys.truncate sample_sys)
     (csys.fields (\<lambda>w p. Ok \<lparr>sfs_block = 4096, sfs_blocks = 1000, sfs_bfree = 900\<rparr>) (\<lambda>p s. s div 20))"

lemma sample_check:
  "succeeds_with (\<lambda>(cr, ui, apps). cr_missing cr \<noteq> [])
     (checkApps cli_sys sample_config empty_world [''h/n@A''] (newRemoteBlobProvider cli_sys empty_world) 95 True False)"
  by code_simp

theorem check_totals_witness:
  "\<exists>cr ui apps. checkApps cli_sys sample_config empty_world [''h/n@A''] (newRemoteBlobProvider cli_sys empty_world) 95
     True False = Ok (cr, ui, apps) \<and> cr_pull cr = i64 (\<Sum>(d, bi)\<leftarrow>cr_missing cr. rest_of bi)"
proof -
  from sample_check obtain r where "checkApps cli_sys sample_config empty_world [''h/n@A'']
      (newRemoteBlobProvider cli_sys empty_world) 95 True False = Ok r" by (rule succeeds_withE)
  moreover obtain cr ui apps where "r = (cr, ui, apps)" by (metis prod_cases3)
  ultimately have u: "checkApps cli_sys sample_config empty_world [''h/n@A'']
      (newRemoteBlobProvider cli_sys empty_world) 95 True False = Ok (cr, ui, apps)" by simp
  from check_totals [OF u] u show ?thesis by blast
qed

text \<open>C36: A pull that finds too little space available for what it requires ends with its own exit status before
  anything is fetched; a pull that ends well had enough space, or nothing to fetch, and its fetch succeeded.\<close>
theorem pull_ok:
  assumes "MinUsageWatermark \<le> watermark" and "watermark \<le> MaxUsageWatermark"
    and "getAppStoreAndDstBlobProvider X cfg w src False = Ok (pv, cs)"
    and "checkApps X cfg w args pv watermark False quick = Ok (cr, ui, apps)"
  shows "(cr_missing cr \<noteq> [] \<and> ui_available ui < ui_required ui \<longrightarrow>
       pullApps X cfg args src watermark quick w =
         Some (w, Exit exitCodeInsufficientSpace (Err ''not enough storage available''))) \<and>
    (\<forall>w'. pullApps X cfg args src watermark quick w = Some (w', Done ()) \<longrightarrow>
       cr_missing cr = [] \<or>
       ui_required ui \<le> ui_available ui \<and> (\<exists>w1. FetchBlobs X cfg (cr_missing cr) src w = Some (w1, Ok ())))"
proof -
  have p: "pullApps X cfg args src watermark quick w =
      map_option (\<lambda>p. obind p (\<lambda>_ w. DieNotNil (make_aklite_happy X cfg cs apps w))) (pull_fetch X cfg src cr ui w)"
    using assms by (simp add: pullApps_def checkWatermark_def DieNotNil_def DieNotNilWithCode_def)
  show ?thesis
    by (auto simp: p pull_fetch_def obind_Done_iff DieNotNil_Done_iff split: if_splits)
qed

lemma sample_pull:
  "succeeds_with (\<lambda>(cr, ui, apps). True)
     (checkApps cli_sys sample_config empty_world [''h/n@A''] (newRemoteBlobProvider cli_sys empty_world) 95 False False)"
  by code_simp

lemma sample_source:
  "succeeds_with (\<lambda>p. True) (getAppStoreAndDstBlobProvider cli_sys sample_config empty_world None False)"
  by code_simp

theorem pull_ok_witness:
  "\<exists>cr ui apps. checkApps cli_sys sample_config empty_world [''h/n@A''] (newRemoteBlobProvider cli_sys empty_world) 95
     False False = Ok (cr, ui, apps) \<and>
     (cr_missing cr \<noteq> [] \<and> ui_available ui < ui_required ui \<longrightarrow>
      pullApps cli_sys sample_config [''h/n@A''] None 95 False empty_world =
        Some (empty_world, Exit 100 (Err ''not enough storage available'')))"
proof -
  from sample_source obtain pv cs where
    s: "getAppStoreAndDstBlobProvider cli_sys sample_config empty_world None False = Ok (pv, cs)"
    by (metis succeeds_withE surj_pair)
  then have pv: "pv = newRemoteBlobProvider cli_sys empty_world"
    by (auto simp: getAppStoreAndDstBlobProvider_def rbind_Ok_iff)
  from sample_pull obtain r where "checkApps cli_sys sample_config empty_world [''h/n@A'']
      (newRemoteBlobProvider cli_sys empty_world) 95 False False = Ok r" by (rule succeeds_withE)
  moreover obtain cr ui apps where "r = (cr, ui, apps)" by (metis prod_cases3)
  ultimately have c: "checkApps cli_sys sample_config empty_world [''h/n@A''] pv 95 False False = Ok (cr, ui, apps)"
    using pv by simp
  have "MinUsageWatermark \<le> 95" "95 \<le> MaxUsageWatermark" by (simp_all add: MinUsageWatermark_def MaxUsageWatermark_def)
  from pull_ok [OF this s c] c pv show ?thesis by (auto simp: exitCodeInsufficientSpace_def)
qed

section \<open>The commands on updates\<close>

lemma default_config_db: "default_config L E w = (w', r) \<Longrightarrow> w_db w' = w_db w"
  by (auto simp: default_config_def ExitIfNotNil_def split: prod.splits)

lemma ExitIfNotNil_Done_iff: "ExitIfNotNil p = (w, Done a) \<longleftrightarrow> p = (w, Ok a)"
  by (cases p) (auto simp: ExitIfNotNil_def split: res.splits)

lemma GetCurrentUpdate_db:
  "GetCurrentUpdate X cfg w = (w', r) \<Longrightarrow> db_wf X (cf_db_file cfg) w \<Longrightarrow> db_wf X (cf_db_file cfg) w'"
  using last_update_result(1) newStore_keeps_wf unfolding GetCurrentUpdate_def by blast

text \<open>The database of the default configuration is in the home directory, or else in the working directory.\<close>

lemma default_config_db_file:
  assumes "default_config L E w = (w', Done cfg)"
  shows "\<exists>d. rcatch (en_home E) Ok (\<lambda>_. rcatch (en_cwd E) Ok (\<lambda>e. Fail (Err (''failed to get the user's home and current working directory: '' @ err_msg e)))) = Ok d \<and>
    cf_db_file cfg = path_join (path_join d [''.composeapps'', ''store'']) [''updates.db'']"
  using assms
  by (auto simp: default_config_def ExitIfNotNil_Done_iff NewDefaultConfig_def default_opts_def Let_def rcatch_Ok_iff rbind_Ok_iff
      split: res.splits prod.splits option.splits)

lemma same_db_file:
  assumes "default_config L E w = (w', Done cfg)" and "default_config L' E' v = (v', Done cfg')"
    and "en_home E' = en_home E" and "en_cwd E' = en_cwd E"
  shows "cf_db_file cfg' = cf_db_file cfg"
  using default_config_db_file [OF assms(1)] default_config_db_file [OF assms(2)] assms(3,4) by auto

text \<open>A command that ends well made a call on the current update that succeeded.\<close>

lemma with_current_update_Done:
  assumes "with_current_update X E call w = (w', Done ())"
  obtains cfg w1 u w2 u' where "default_config X E w = (w1, Done cfg)" "GetCurrentUpdate X cfg w1 = (w2, Ok u)"
    "call cfg (u, w2) = ((u', w'), Ok ())"
proof -
  from assms obtain cfg w1 u w2 where c: "default_config X E w = (w1, Done cfg)" "GetCurrentUpdate X cfg w1 = (w2, Ok u)"
    and e: "end_call (call cfg (u, w2)) = (w', Done ())"
    unfolding with_current_update_def obind_Done_iff ExitIfNotNil_Done_iff by blast
  obtain u' w3 r where r: "call cfg (u, w2) = ((u', w3), r)" by (metis surj_pair)
  with e have "call cfg (u, w2) = ((u', w'), Ok ())" by (simp add: end_call_def ExitIfNotNil_Done_iff)
  with c show ?thesis by (rule that)
qed

lemma with_current_update_next:
  assumes "default_config X E w = (w1, Done cfg)" and "GetCurrentUpdate X cfg w1 = (w1, Ok u)"
  shows "with_current_update X E call w = end_call (call cfg (u, w1))"
  using assms by (simp add: with_current_update_def ExitIfNotNil_def)

text \<open>C9: Each command on an update is a process of its own, and the database hands over between them.  After an install
  command that ended well, a start command of the same user (with the same home and working directory), whose
  configuration can be made and which can open the database, makes its call on exactly the update that was left,
  which is installed, so that the call is not refused for its state; unless the last write of the install
  has failed, which is only printed.\<close>
theorem start_continues_install:
  assumes "installUpdateCmd X E sched w = (w', Done ())" and "default_config X E w = (w0, Done cfg)"
    and "db_wf X (cf_db_file cfg) w" and "json_ok X" and "effects_keep_db X"
    and "default_config X E' w' = (w1, Done cfg')" and "en_home E' = en_home E" and "en_cwd E' = en_cwd E"
    and "db_open_err X w1 (cf_db_file cfg) False = None" and "db_open_err X w1 (cf_db_file cfg) True = None"
  shows "\<exists>u0 w2 u. GetCurrentUpdate X cfg w0 = (w2, Ok u0) \<and>
    runner_Install X cfg sched (u0, w2) = ((u, w'), Ok ()) \<and>
    u_State u = StateInstalled \<and> u_State u \<in> set (entry_states KStart) \<and>
    (runUpdateCmd X E' w' = end_call (runner_Start X cfg' (u, w1)) \<or>
     (\<exists>e. json_update X u = Fail e) \<or> (\<exists>e. db_commit_err X w' (cf_db_file cfg) = Some e))"
proof -
  obtain cfg1 v1 u0 w2 u where c: "default_config X E w = (v1, Done cfg1)" "GetCurrentUpdate X cfg1 v1 = (w2, Ok u0)"
    "runner_Install X cfg1 sched (u0, w2) = ((u, w'), Ok ())"
    by (rule with_current_update_Done [OF assms(1) [unfolded installUpdateCmd_def]])
  from c(1) assms(2) have [simp]: "v1 = w0" "cfg1 = cfg" by simp_all
  have dbfile: "cf_db_file cfg' = cf_db_file cfg" by (rule same_db_file [OF assms(2,6,7,8)])
  have "db_wf X (cf_db_file cfg) w0"
    using db_wf_cong [of w0 "cf_db_file cfg" w X] default_config_db [OF assms(2)] assms(3) by simp
  then have wf: "wf_state X (cf_db_file cfg) (u0, w2)"
    using GetCurrentUpdate_db [OF c(2)] by (simp add: wf_state_def)
  have run: "(\<lambda>s. Some (runner_Install X cfg sched s)) (u0, w2) = Some ((u, w'), Ok ())" using c(3) by simp
  from install_call.success [OF run] have st: "u_State u = StateInstalled" by simp
  have "runUpdateCmd X E' w' = end_call (runner_Start X cfg' (u, w1))"
    if nf: "\<not> write_failed X (cf_db_file cfg) (u, w')"
  proof -
    have op: "db_opens X (cf_db_file cfg) w1"
      unfolding db_opens_def using assms(9,10) by (metis (full_types))
    have db: "w_db w1 (cf_db_file cfg) = w_db (snd (u, w')) (cf_db_file cfg)"
      using default_config_db [OF assms(6)] by simp
    have "last_update X (cf_db_file cfg) current_states w1 = (w1, Ok u)"
      using install_call.found_next(2) [OF run assms(4,5) wf nf op db] st by (simp add: current_states_def)
    then have "GetCurrentUpdate X cfg' w1 = (w1, Ok u)" by (simp add: GetCurrentUpdate_def dbfile)
    from with_current_update_next [OF assms(6) this] show ?thesis by (simp add: runUpdateCmd_def)
  qed
  then have "runUpdateCmd X E' w' = end_call (runner_Start X cfg' (u, w1)) \<or>
      (\<exists>e. json_update X u = Fail e) \<or> (\<exists>e. db_commit_err X w' (cf_db_file cfg) = Some e)"
    unfolding write_failed_def by fastforce
  moreover have "u_State u \<in> set (entry_states KStart)" using st by simp
  moreover have "GetCurrentUpdate X cfg w0 = (w2, Ok u0)" "runner_Install X cfg sched (u0, w2) = ((u, w'), Ok ())"
    using c by simp_all
  ultimately show ?thesis using st by blast
qed

definition sample_env :: proc_env where
  "sample_env = \<lparr>en_home = Ok [''c''], en_cwd = Ok [], en_getenv = (\<lambda>n. ''''), en_path = (\<lambda>s. []),
     en_statfs_bsize = (\<lambda>p. Ok 4096), en_platform = sample_platform, parse_uri = (\<lambda>s. Fail CtxCanceled),
     pem_ok = (\<lambda>b. True), load_docker_cfg = None\<rparr>"

definition install_table :: "update list" where
  "install_table =
     [(new_update ''02'' ''r'' 0)\<lparr>u_State := StateFetched\<rparr>, (new_update ''02'' ''r'' 0)\<lparr>u_State := StateInstalling\<rparr>,
      (new_update ''02'' ''r'' 0)\<lparr>u_State := StateInstalled, u_Progress := 100, u_LoadedImages := Some []\<rparr>]"

definition install_sys :: "daemon usys" where "install_sys = sample_usys install_table"

definition install_world :: "daemon world" where
  "install_world = created_world [''c'', ''.composeapps'', ''store'', ''updates.db'']"

definition after_install :: "daemon world" where
  "after_install = fst (installUpdateCmd install_sys sample_env id install_world)"

definition sample_done :: "'a outcome \<Rightarrow> bool" where
  "sample_done r = (case r of Done _ \<Rightarrow> True | _ \<Rightarrow> False)"

lemma sample_doneE:
  assumes "sample_done (snd p)"
  obtains w v where "p = (w, Done v)"
  using assms by (cases p) (auto simp: sample_done_def split: outcome.splits)

lemma install_encodes:
  "case default_config install_sys sample_env install_world of
     (w0, Done cfg) \<Rightarrow>
       (case GetCurrentUpdate install_sys cfg w0 of
          (w2, Ok u0) \<Rightarrow> is_ok (json_update install_sys (fst (fst (runner_Install install_sys cfg id (u0, w2)))))
        | _ \<Rightarrow> False)
   | _ \<Rightarrow> False"
  by code_simp

theorem start_continues_install_witness:
  "\<exists>u cfg w1. u_State u = StateInstalled \<and>
     runUpdateCmd install_sys sample_env after_install = end_call (runner_Start install_sys cfg (u, w1))"
proof -
  have "sample_done (snd (installUpdateCmd install_sys sample_env id install_world))" by code_simp
  then obtain v where "installUpdateCmd install_sys sample_env id install_world = (after_install, Done v)"
    unfolding after_install_def by (metis fst_conv sample_doneE)
  then have i: "installUpdateCmd install_sys sample_env id install_world = (after_install, Done ())" by simp
  have "sample_done (snd (default_config install_sys sample_env install_world))" by code_simp
  then obtain w0 cfg where c: "default_config install_sys sample_env install_world = (w0, Done cfg)" by (rule sample_doneE)
  have "sample_done (snd (default_config install_sys sample_env after_install))" by code_simp
  then obtain w1 cfg' where c': "default_config install_sys sample_env after_install = (w1, Done cfg')" by (rule sample_doneE)
  have dbfile: "cf_db_file cfg = [''c'', ''.composeapps'', ''store'', ''updates.db'']"
    using default_config_db_file [OF c]
    by (auto simp: sample_env_def path_join_def push_comp_def)
  have "succeeds_with (\<lambda>us. tl us = []) (bucket_updates install_sys [(''02:cref:r'', '''')])" by code_simp
  then have wf: "db_wf install_sys (cf_db_file cfg) install_world"
    by (auto simp: db_wf_def install_world_def created_world_def dbfile elim!: succeeds_withE)
  have "json_ok install_sys" "effects_keep_db install_sys" "db_open_err install_sys w1 (cf_db_file cfg) False = None"
    "db_open_err install_sys w1 (cf_db_file cfg) True = None" "db_commit_err install_sys after_install (cf_db_file cfg) = None"
    using sample_json_ok sample_keeps_db by (simp_all add: install_sys_def)
  with start_continues_install [OF i c wf _ _ c' refl refl] obtain u0 w2 u where
    g: "GetCurrentUpdate install_sys cfg w0 = (w2, Ok u0)" and u: "runner_Install install_sys cfg id (u0, w2) = ((u, after_install), Ok ())"
    and st: "u_State u = StateInstalled" and run: "runUpdateCmd install_sys sample_env after_install = end_call (runner_Start install_sys cfg' (u, w1)) \<or>
     (\<exists>e. json_update install_sys u = Fail e)" by auto
  from install_encodes c g u have "is_ok (json_update install_sys u)" by simp
  with st run show ?thesis by auto
qed

section \<open>Stopping and reporting\<close>

lemma all_dirs:
  assumes "getAllAppsToStop L fs root = Ok names" and "map_of fs root = Some FDir"
    and "\<forall>q. io_fault L ''walk'' q = None" and "distinct (map fst fs)"
  shows "set names = {path_base p | p. strict_prefix root p \<and> map_of fs p = Some FDir}"
proof -
  have v: "fs_visits L fs root = map (\<lambda>(q, n). (q, Some n, None)) (fs_walk fs root)"
    using assms(2,3) by (intro fs_visits_no_fault) (simp_all add: gm_has_def)
  have "set names = {z. \<exists>x\<in>set (fs_visits L fs root). \<exists>ys. stop_visit root x = Ok ys \<and> z \<in> set ys}"
    using assms(1) unfolding getAllAppsToStop_def by (rule map_res_concat_set)
  also have "\<dots> = {path_base p | p. strict_prefix root p \<and> (p, FDir) \<in> set fs}"
  proof -
    have e: "(\<exists>ys. stop_visit root (q, Some n, None) = Ok ys \<and> z \<in> set ys) \<longleftrightarrow> n = FDir \<and> q \<noteq> root \<and> z = path_base q"
      for q n z by (cases n) auto

    have "(\<exists>x\<in>set (fs_visits L fs root). \<exists>ys. stop_visit root x = Ok ys \<and> z \<in> set ys) \<longleftrightarrow>
        (\<exists>(q, n)\<in>set (fs_walk fs root). \<exists>ys. stop_visit root (q, Some n, None) = Ok ys \<and> z \<in> set ys)" for z
      unfolding v set_map by (simp only: bex_simps case_prod_unfold)
    then have "(\<exists>x\<in>set (fs_visits L fs root). \<exists>ys. stop_visit root x = Ok ys \<and> z \<in> set ys) \<longleftrightarrow>
        (\<exists>(q, n)\<in>set (fs_walk fs root). n = FDir \<and> q \<noteq> root \<and> z = path_base q)" for z
      by (simp only: e)
    moreover have "(\<exists>(q, n)\<in>set (fs_walk fs root). n = FDir \<and> q \<noteq> root \<and> z = path_base q) \<longleftrightarrow>
        (\<exists>p. z = path_base p \<and> strict_prefix root p \<and> (p, FDir) \<in> set fs)" for z
      by (auto simp: strict_prefix_def)
    ultimately show ?thesis by simp
  qed
  finally show ?thesis using assms(4) by simp
qed

text \<open>C37: To stop all apps is to run \<open>docker compose down\<close> for the name of every directory below the directory of the
  projects, at any depth, and so also for the name of a directory inside of an app; it is run in the directory of
  that name directly below the directory of the projects, one after the other, and for the command to end well
  it has to succeed for every one of these names.\<close>
theorem stop_all_dirs:
  assumes "stopApps X cfg [] True w = (w', Done ())" and "map_of (w_fs w) (cf_compose_root cfg) = Some FDir"
    and "\<forall>q. io_fault X ''walk'' q = None" and "distinct (map fst (w_fs w))"
  shows "\<exists>names. set names = {path_base p | p. strict_prefix (cf_compose_root cfg) p \<and> map_of (w_fs w) p = Some FDir} \<and>
    w' = fold (\<lambda>n w. fst (sh_compose X w (path_join (cf_compose_root cfg) [n]) [''down''])) names w \<and>
    (\<forall>n\<in>set names. \<exists>v. snd (sh_compose X v (path_join (cf_compose_root cfg) [n]) [''down'']) = None)"
proof -
  from assms(1) obtain names where n: "getAllAppsToStop X (w_fs w) (cf_compose_root cfg) = Ok names"
    and d: "compose_down X cfg names w = (w', Done ())"
    by (auto simp: stopApps_def obind_Done_iff DieNotNil_Done_iff)
  from all_dirs [OF n assms(2-4)] compose_down_Done [OF d] show ?thesis
    by (intro exI [of _ names]) (simp add: GetAppComposeDir_def)
qed

definition nested_fs :: fs where
  "nested_fs = dirs [[''c''], [''c'', ''n''], [''c'', ''n'', ''conf'']]"

lemma map_of_dirs: "map_of (dirs ps) p = Some FDir \<longleftrightarrow> p \<in> set ps"
  by (induction ps) (simp_all add: dirs_def)

definition nested_world :: "daemon world" where "nested_world = sample_world nested_fs"

definition down_sys :: "daemon usys" where
  "down_sys = sample_sys\<lparr>sh_compose := \<lambda>w d args. (w\<lparr>w_clock := w_clock w + 1\<rparr>, None)\<rparr>"

theorem stop_all_dirs_witness:
  "\<exists>w' names. stopApps down_sys sample_config [] True nested_world = (w', Done ()) \<and> set names = {''n'', ''conf''}"
proof -
  have "sample_done (snd (stopApps down_sys sample_config [] True nested_world))" by code_simp
  then obtain w' v where "stopApps down_sys sample_config [] True nested_world = (w', Done v)" by (rule sample_doneE)
  then have s: "stopApps down_sys sample_config [] True nested_world = (w', Done ())" by simp
  have "map_of (w_fs nested_world) (cf_compose_root sample_config) = Some FDir" "distinct (map fst (w_fs nested_world))"
    "\<forall>q. io_fault down_sys ''walk'' q = None"
    using no_fault by (simp_all add: nested_world_def sample_world_def nested_fs_def dirs_def sample_config_def down_sys_def)
  from stop_all_dirs [OF s this(1,3,2)] obtain names where
    "set names = {path_base p | p. strict_prefix [''c''] p \<and> map_of nested_fs p = Some FDir}"
    by (auto simp: nested_world_def sample_world_def sample_config_def)
  also have "\<dots> = {''n'', ''conf''}"
  proof -
    have "{path_base p | p. strict_prefix [''c''] p \<and> map_of nested_fs p = Some FDir} =
        path_base ` set (filter (strict_prefix [''c'']) [[''c''], [''c'', ''n''], [''c'', ''n'', ''conf'']])"
      unfolding nested_fs_def map_of_dirs set_filter by blast
    also have "\<dots> = {''n'', ''conf''}" by code_simp
    finally show ?thesis .
  qed
  finally show ?thesis using s by blast
qed

text \<open>C38: An app of the store is reported as running only if it can be loaded, the containers of its project are of this
  version or the store has several, and for every one of its images there is a container with the image and the
  configuration hash of the service that runs; and no file of its bundle is wrong.\<close>
theorem ps_running:
  assumes "getAppsStatus X cfg w refs running chk = Ok m" and "(r, st) \<in> set m"
    and "pa_in_store st" and "pa_state st = ''running''"
  shows "\<exists>store. NewAppStore X (cf_store_root cfg) (cf_platform cfg) [] = Ok store \<and> app_up X cfg w store running r \<and>
    pa_bundle st = []"
  using getAppsStatus_up [OF assms] by blast

definition sample_running_apps :: "(string, ps_app) gomap" where
  "sample_running_apps = [(''n'', \<lparr>pa_uri = '''', pa_name = ''n'', pa_state = ''running'',
     pa_services = [\<lparr>sv_name = ''svc'', sv_image = ''h/i@I'', sv_hash = ''hash'', sv_ctr = ''k'', sv_state = ''running'',
       sv_status = '''', sv_health = ''''\<rparr>], pa_in_store = True, pa_bundle = [], pa_missing = []\<rparr>)]"

definition sample_ps :: "(string, ps_app) gomap res" where
  "sample_ps = getAppsStatus sample_sys sample_config fetched_world [''h/n@A''] sample_running_apps False"

lemma sample_ps_ok: "succeeds_with (\<lambda>m. map (\<lambda>(r, st). (r, pa_in_store st, pa_state st)) m = [(''h/n@A'', True, ''running'')]) sample_ps"
  by code_simp

theorem ps_running_witness:
  "\<exists>store. app_up sample_sys sample_config fetched_world store sample_running_apps ''h/n@A''"
proof -
  from sample_ps_ok obtain m where m: "getAppsStatus sample_sys sample_config fetched_world [''h/n@A''] sample_running_apps False = Ok m"
    and s: "map (\<lambda>(r, st). (r, pa_in_store st, pa_state st)) m = [(''h/n@A'', True, ''running'')]"
    unfolding sample_ps_def by (rule succeeds_withE)
  then obtain st where "(''h/n@A'', st) \<in> set m" "pa_in_store st" "pa_state st = ''running''" by auto
  from ps_running [OF m this] show ?thesis by blast
qed

end
