(* ===== verification/TarStream.thy ===== *)
theory TarStream
  imports World
begin

text \<open>
  The archive that is streamed to the Docker daemon: \<open>pkg/compose/tar_streamer.go\<close> with the goroutine of
  \<open>LoadImages\<close> that fills it (\<open>pkg/compose/image_loader.go\<close>).  The writer of \<open>archive/tar\<close> and the pipe it
  writes to are modelled as the standard library has them; what passes the pipe is a list of items, each of
  which the reader takes or, once it has closed its end, refuses.
\<close>

section \<open>The pipe and the archive writer\<close>

text \<open>One write to the pipe: a header with its extended records, data, padding, or a block of the trailer.\<close>

datatype tar_item = TarHeader string int | TarData bytes | TarPad nat | TarZero

text \<open>
  \<open>ts_left\<close> and \<open>ts_pad\<close> are what is left of the current entry and its padding, \<open>ts_err\<close> the error the
  writer keeps, \<open>ts_open\<close> whether the writing end is open, and \<open>ts_taken\<close> how many writes the reader still
  takes before it closes its end (\<open>None\<close> when it never does).
\<close>

record tar_stream =
  ts_out :: "tar_item list"
  ts_left :: int
  ts_pad :: nat
  ts_err :: "error option"
  ts_open :: bool
  ts_taken :: "nat option"

definition NewTarStreamer :: "nat option \<Rightarrow> tar_stream" where
  "NewTarStreamer taken =
     \<lparr>ts_out = [], ts_left = 0, ts_pad = 0, ts_err = None, ts_open = True, ts_taken = taken\<rparr>"

definition ErrClosedPipe :: error where "ErrClosedPipe = Err ''io: read/write on closed pipe''"

definition ErrWriteTooLong :: error where "ErrWriteTooLong = Err ''archive/tar: write too long''"

definition ErrWriteAfterClose :: error where "ErrWriteAfterClose = Err ''archive/tar: write after close''"

definition pipe_write :: "tar_item \<Rightarrow> tar_stream \<Rightarrow> tar_stream \<times> error option" where
  "pipe_write item s =
     (if \<not> ts_open s \<or> ts_taken s = Some 0 then (s, Some ErrClosedPipe)
      else (s\<lparr>ts_out := ts_out s @ [item], ts_taken := map_option (\<lambda>n. n - 1) (ts_taken s)\<rparr>, None))"

text \<open>A write to the pipe by the writer, which keeps an error.\<close>

definition tar_emit :: "tar_item \<Rightarrow> tar_stream \<Rightarrow> tar_stream \<times> error option" where
  "tar_emit item s =
     (case pipe_write item s of (s', None) \<Rightarrow> (s', None) | (s', Some e) \<Rightarrow> (s'\<lparr>ts_err := Some e\<rparr>, Some e))"

definition tar_flush :: "tar_stream \<Rightarrow> tar_stream \<times> error option" where
  "tar_flush s =
     (case ts_err s of
        Some e \<Rightarrow> (s, Some e)
      | None \<Rightarrow>
          (if 0 < ts_left s
           then (s, Some (Err (''archive/tar: missed writing '' @ show_int (ts_left s) @ '' bytes'')))
           else (case tar_emit (TarPad (ts_pad s)) s of
                   (s', Some e) \<Rightarrow> (s', Some e)
                 | (s', None) \<Rightarrow> (s'\<lparr>ts_pad := 0\<rparr>, None))))"

text \<open>What the PAX format, which the source asks for, cannot encode: a name with a zero byte, a negative size.\<close>

definition tar_header_ok :: "string \<Rightarrow> int \<Rightarrow> bool" where
  "tar_header_ok name sz \<longleftrightarrow> CHR 0x00 \<notin> set name \<and> 0 \<le> sz"

definition tar_padding :: "int \<Rightarrow> nat" where
  "tar_padding sz = nat (- sz mod 512)"

definition tar_write_header :: "string \<Rightarrow> int \<Rightarrow> tar_stream \<Rightarrow> tar_stream \<times> error option" where
  "tar_write_header name sz s =
     (case tar_flush s of
        (s1, Some e) \<Rightarrow> (s1, Some e)
      | (s1, None) \<Rightarrow>
          (if \<not> tar_header_ok name sz then (s1, Some (Err ''archive/tar: cannot encode header''))
           else (case tar_emit (TarHeader name sz) s1 of
                   (s2, Some e) \<Rightarrow> (s2, Some e)
                 | (s2, None) \<Rightarrow> (s2\<lparr>ts_left := sz, ts_pad := tar_padding sz\<rparr>, None))))"

text \<open>No more is written than the header announced; what is written is the result.\<close>

definition tar_write :: "bytes \<Rightarrow> tar_stream \<Rightarrow> tar_stream \<times> int \<times> error option" where
  "tar_write b s =
     (case ts_err s of
        Some e \<Rightarrow> (s, 0, Some e)
      | None \<Rightarrow>
          (let b' = take (nat (ts_left s)) b;
               overwrite = (if ts_left s < int (length b) then Some ErrWriteTooLong else None) in
           if b' = [] then (s, 0, overwrite)
           else (case tar_emit (TarData b') s of
                   (s', Some e) \<Rightarrow> (s', 0, Some e)
                 | (s', None) \<Rightarrow> (s'\<lparr>ts_left := ts_left s - int (length b')\<rparr>, int (length b'), overwrite))))"

definition tar_close :: "tar_stream \<Rightarrow> tar_stream \<times> error option" where
  "tar_close s =
     (if ts_err s = Some ErrWriteAfterClose then (s, None)
      else
        (let (s', e) =
           (case tar_flush s of
              (s1, Some e) \<Rightarrow> (s1, Some e)
            | (s1, None) \<Rightarrow>
                (case pipe_write TarZero s1 of
                   (s2, Some e) \<Rightarrow> (s2, Some e)
                 | (s2, None) \<Rightarrow> pipe_write TarZero s2))
         in (s'\<lparr>ts_err := Some ErrWriteAfterClose\<rparr>, e)))"

section \<open>The streamer\<close>

text \<open>\<open>io.Copy\<close> from a reader that delivers its bytes in pieces.\<close>

fun tar_copy :: "src \<Rightarrow> int \<Rightarrow> tar_stream \<Rightarrow> tar_stream \<times> int \<times> error option" where
  "tar_copy [] n s = (s, n, None)"
| "tar_copy ((b, err) # rest) n s =
     (case (if b = [] then (s, 0, None) else tar_write b s) of
        (s', k, Some e) \<Rightarrow> (s', n + k, Some e)
      | (s', k, None) \<Rightarrow>
          (case err of
             None \<Rightarrow> tar_copy rest (n + k) s'
           | Some e \<Rightarrow> (s', n + k, if e = EOF then None else Some e)))"

definition ts_write :: "string \<Rightarrow> int \<Rightarrow> src \<Rightarrow> tar_stream \<Rightarrow> tar_stream \<times> unit res" where
  "ts_write name sz r s =
     (case tar_write_header name sz s of
        (s1, Some e) \<Rightarrow> (s1, Fail e)
      | (s1, None) \<Rightarrow>
          (case tar_copy r 0 s1 of
             (s2, n, Some e) \<Rightarrow> (s2, Fail e)
           | (s2, n, None) \<Rightarrow>
               (s2, if n \<noteq> sz
                    then Fail (Err (''failed to write required number of bytes to tar streamer; required: '' @
                           show_int sz @ '', written: '' @ show_int n))
                    else Ok ())))"

definition WriteFileData :: "bytes \<Rightarrow> string \<Rightarrow> tar_stream \<Rightarrow> tar_stream \<times> unit res" where
  "WriteFileData data name s = ts_write name (int (length data)) [(data, None)] s"

text \<open>
  The file system is shared with the rest of the system: \<open>at p\<close> is what it is like when the file is looked
  up and when it is opened.
\<close>

definition file_size :: "fentry \<Rightarrow> int" where
  "file_size n = (case n of FFile b \<Rightarrow> int (length b) | FDir \<Rightarrow> 0)"

definition ts_writeFile ::
  "'z lib_scheme \<Rightarrow> (path \<Rightarrow> fs \<times> fs) \<Rightarrow> path \<Rightarrow> tar_stream \<Rightarrow> tar_stream \<times> unit res" where
  "ts_writeFile L at p s =
     sbind (slift (os_stat L (fst (at p)) p) s) (\<lambda>fi s.
       sbind (slift (os_open L (snd (at p)) p) s) (\<lambda>f s. ts_write (path_base p) (file_size fi) f s))"

definition WriteFiles ::
  "'z lib_scheme \<Rightarrow> (path \<Rightarrow> fs \<times> fs) \<Rightarrow> path list \<Rightarrow> tar_stream \<Rightarrow> tar_stream \<times> unit res" where
  "WriteFiles L at files s = sfor (ts_writeFile L at) files s"

text \<open>The writing end of the pipe is closed first.\<close>

definition ts_Close :: "tar_stream \<Rightarrow> tar_stream \<times> error option" where
  "ts_Close s = tar_close (s\<lparr>ts_open := False\<rparr>)"

text \<open>What the goroutine of \<open>LoadImages\<close> does; its result goes to a channel that is never read.\<close>

definition stream_images ::
  "'z lib_scheme \<Rightarrow> (path \<Rightarrow> fs \<times> fs) \<Rightarrow> bytes \<Rightarrow> bool \<Rightarrow> path list \<Rightarrow> tar_stream \<Rightarrow> tar_stream \<times> unit res"
where
  "stream_images L at manifestData fromStore blobPaths s =
     (let (s', r) = sbind (WriteFileData manifestData ''manifest.json'' s) (\<lambda>_ s.
            if \<not> fromStore then WriteFiles L at blobPaths s else (s, Ok ()))
      in (fst (ts_Close s'), r))"

section \<open>What the reader of the archive sees\<close>

text \<open>The entries of an archive: name, size and data; the last one may be incomplete.\<close>

type_synonym tar_file = "string \<times> int \<times> bytes"

fun add_item :: "tar_file list \<Rightarrow> tar_item \<Rightarrow> tar_file list" where
  "add_item es (TarHeader name sz) = es @ [(name, sz, [])]"
| "add_item es (TarData b) =
     (if es = [] then [] else butlast es @ [case last es of (name, sz, d) \<Rightarrow> (name, sz, d @ b)])"
| "add_item es (TarPad n) = es"
| "add_item es TarZero = es"

definition tar_entries :: "tar_item list \<Rightarrow> tar_file list" where
  "tar_entries items = foldl add_item [] items"

definition data_items :: "tar_item list \<Rightarrow> bytes \<Rightarrow> bool" where
  "data_items is b \<longleftrightarrow> (\<exists>bs. is = map TarData bs \<and> concat bs = b)"

lemma add_data: "add_item (es @ [(name, sz, d)]) (TarData b) = es @ [(name, sz, d @ b)]"
  by simp

lemma data_items_Nil [simp]: "data_items [] []"
  by (simp add: data_items_def)

lemma data_items_append: "data_items is b \<Longrightarrow> data_items js c \<Longrightarrow> data_items (is @ js) (b @ c)"
  unfolding data_items_def by (metis concat_append map_append)

lemma tar_entries_simps [simp]:
  "tar_entries [] = []"
  "tar_entries (is @ [TarPad n]) = tar_entries is"
  "tar_entries (is @ [TarPad n, TarHeader name sz]) = tar_entries is @ [(name, sz, [])]"
  by (simp_all add: tar_entries_def)

lemma tar_entries_data:
  "tar_entries is = es @ [(name, sz, d)] \<Longrightarrow> data_items js b \<Longrightarrow> tar_entries (is @ js) = es @ [(name, sz, d @ b)]"
proof -
  have "foldl add_item (es @ [(name, sz, d)]) (map TarData bs) = es @ [(name, sz, d @ concat bs)]" for bs
    by (induction bs arbitrary: d) (simp_all add: add_data)
  then show "tar_entries is = es @ [(name, sz, d)] \<Longrightarrow> data_items js b \<Longrightarrow> ?thesis"
    by (auto simp: tar_entries_def data_items_def)
qed

section \<open>What one call writes\<close>

lemma tar_emit_cases:
  assumes "tar_emit item s = (s', e)"
  shows "case e of None \<Rightarrow> ts_out s' = ts_out s @ [item] \<and> ts_left s' = ts_left s \<and> ts_err s' = ts_err s
    | Some _ \<Rightarrow> ts_out s' = ts_out s"
  using assms by (auto simp: tar_emit_def pipe_write_def split: if_splits)

lemma tar_flush_cases:
  assumes "tar_flush s = (s', e)"
  shows "(\<exists>n. ts_out s' = ts_out s @ [TarPad n]) \<and> e = None \<or> ts_out s' = ts_out s \<and> e \<noteq> None"
proof (cases "ts_err s")
  case None
  obtain s1 e1 where m: "tar_emit (TarPad (ts_pad s)) s = (s1, e1)" by fastforce
  from None assms m tar_emit_cases [OF m] show ?thesis
    by (cases e1) (auto simp: tar_flush_def split: if_splits)
next
  case (Some x)
  with assms have "s' = s \<and> e = Some x" by (simp add: tar_flush_def)
  then show ?thesis by simp
qed

lemma tar_write_header_cases:
  assumes "tar_write_header name sz s = (s', e)"
  shows "tar_entries (ts_out s') = tar_entries (ts_out s) @ (if e = None then [(name, sz, [])] else [])"
    and "TarZero \<in> set (ts_out s') \<Longrightarrow> TarZero \<in> set (ts_out s)"
proof -
  obtain s1 e1 where f: "tar_flush s = (s1, e1)" by fastforce
  obtain s2 e2 where m: "tar_emit (TarHeader name sz) s1 = (s2, e2)" by fastforce
  from assms f m tar_flush_cases [OF f] tar_emit_cases [OF m]
  show "tar_entries (ts_out s') = tar_entries (ts_out s) @ (if e = None then [(name, sz, [])] else [])"
    and "TarZero \<in> set (ts_out s') \<Longrightarrow> TarZero \<in> set (ts_out s)"
    by (auto simp: tar_write_header_def split: option.splits if_splits)
qed

lemma tar_write_cases:
  assumes "tar_write b s = (s', k, e)"
  shows "\<exists>is d. ts_out s' = ts_out s @ is \<and> data_items is d \<and> k = int (length d) \<and> (e = None \<longrightarrow> d = b)"
proof (cases "ts_err s")
  case None
  let ?b = "take (nat (ts_left s)) b"
  have full: "?b = b" if "\<not> ts_left s < int (length b)" using that by simp
  show ?thesis
  proof (cases "?b = []")
    case True
    with full have "b = []" if "\<not> ts_left s < int (length b)" using that by simp
    with None assms True show ?thesis
      by (intro exI [of _ "[]"] exI [of _ "[]"]) (auto simp: tar_write_def Let_def split: if_splits)
  next
    case False
    obtain s1 e1 where m: "tar_emit (TarData ?b) s = (s1, e1)" by fastforce
    have d: "data_items [TarData ?b] ?b" unfolding data_items_def by (rule exI [of _ "[?b]"]) simp
    show ?thesis
    proof (cases e1)
      case None
      with \<open>ts_err s = None\<close> m False assms tar_emit_cases [OF m] d full show ?thesis
        by (intro exI [of _ "[TarData ?b]"] exI [of _ ?b]) (auto simp: tar_write_def Let_def split: if_splits)
    next
      case (Some x)
      with \<open>ts_err s = None\<close> m False assms tar_emit_cases [OF m] show ?thesis
        by (intro exI [of _ "[]"] exI [of _ "[]"]) (auto simp: tar_write_def Let_def)
    qed
  qed
next
  case (Some x)
  with assms show ?thesis by (intro exI [of _ "[]"] exI [of _ "[]"]) (auto simp: tar_write_def)
qed

lemma data_items_no_zero: "data_items is b \<Longrightarrow> TarZero \<notin> set is"
  by (auto simp: data_items_def)

text \<open>A copy that ends well has written all that a reader without an error delivers.\<close>

lemma tar_copy_cases:
  assumes "tar_copy r n s = (s', m, e)"
  shows "\<exists>is d. ts_out s' = ts_out s @ is \<and> data_items is d \<and> m = n + int (length d) \<and>
    (e = None \<longrightarrow> (\<forall>c\<in>set r. snd c = None) \<longrightarrow> d = concat (map fst r))"
  using assms
proof (induction r n s rule: tar_copy.induct)
  case (1 n s)
  then show ?case by (intro exI [of _ "[]"] exI [of _ "[]"]) simp
next
  case (2 b err rest n s)
  obtain s1 k e1 where w: "(if b = [] then (s, 0, None) else tar_write b s) = (s1, k, e1)"
    by (metis prod_cases3)
  have "\<exists>is d. ts_out s1 = ts_out s @ is \<and> data_items is d \<and> k = int (length d) \<and> (e1 = None \<longrightarrow> d = b)"
    using w tar_write_cases [of b s s1 k e1]
    by (cases "b = []") (auto intro!: exI [of _ "[]"])
  then obtain ks d where 1: "ts_out s1 = ts_out s @ ks" "data_items ks d" "k = int (length d)"
    "e1 = None \<longrightarrow> d = b" by blast
  show ?case
  proof (cases "e1 = None \<and> err = None")
    case True
    with 2(2) w have c: "tar_copy rest (n + k) s1 = (s', m, e)" by simp
    from True w have "(s1, k, None) = (if b = [] then (s, 0, None) else tar_write b s)" by simp
    from 2(1) [OF this refl refl _ c] True have
      "\<exists>js f. ts_out s' = ts_out s1 @ js \<and> data_items js f \<and> m = n + k + int (length f) \<and>
         (e = None \<longrightarrow> (\<forall>c\<in>set rest. snd c = None) \<longrightarrow> f = concat (map fst rest))" by blast
    then obtain js f where
      2: "ts_out s' = ts_out s1 @ js" "data_items js f" "m = n + k + int (length f)"
      "e = None \<longrightarrow> (\<forall>c\<in>set rest. snd c = None) \<longrightarrow> f = concat (map fst rest)" by blast
    from data_items_append [OF 1(2) 2(2)] 1 2 True show ?thesis
      by (intro exI [of _ "ks @ js"] exI [of _ "d @ f"]) simp
  next
    case False
    with 2(2) w have "s' = s1" "m = n + k" "e = None \<longrightarrow> err \<noteq> None"
      by (auto split: option.splits if_splits)
    with 1 show ?thesis by auto
  qed
qed

text \<open>
  A file is one entry of the archive, whole when the call ended well; when it did not the last entry may be
  incomplete.
\<close>

lemma ts_write_cases:
  assumes "ts_write name sz r s = (s', x)"
  obtains (none) "tar_entries (ts_out s') = tar_entries (ts_out s)" "x \<noteq> Ok ()"
  | (entry) d where "tar_entries (ts_out s') = tar_entries (ts_out s) @ [(name, sz, d)]"
      "x = Ok () \<Longrightarrow> sz = int (length d)"
      "x = Ok () \<Longrightarrow> \<forall>c\<in>set r. snd c = None \<Longrightarrow> d = concat (map fst r)"
proof -
  obtain s1 e1 where h: "tar_write_header name sz s = (s1, e1)" by fastforce
  obtain s2 n e2 where c: "tar_copy r 0 s1 = (s2, n, e2)" by (metis prod_cases3)
  note H = tar_write_header_cases(1) [OF h]
  obtain ks d where C: "ts_out s2 = ts_out s1 @ ks" "data_items ks d" "n = int (length d)"
    "e2 = None \<longrightarrow> (\<forall>c\<in>set r. snd c = None) \<longrightarrow> d = concat (map fst r)"
    using tar_copy_cases [OF c] by (metis add_0)
  show thesis
  proof (cases e1)
    case None
    with H have "tar_entries (ts_out s1) = tar_entries (ts_out s) @ [(name, sz, [])]" by simp
    from tar_entries_data [OF this C(2)] C(1) have
      E: "tar_entries (ts_out s2) = tar_entries (ts_out s) @ [(name, sz, d)]" by simp
    from None assms h c have "s' = s2" "x = Ok () \<Longrightarrow> e2 = None \<and> n = sz"
      by (auto simp: ts_write_def split: option.splits if_splits)
    with E C(3,4) show thesis by (intro entry [of d]) auto
  next
    case (Some e)
    with H assms h have "tar_entries (ts_out s') = tar_entries (ts_out s)" "x \<noteq> Ok ()"
      by (auto simp: ts_write_def)
    then show thesis by (rule none)
  qed
qed

lemma ts_write_no_zero:
  assumes "TarZero \<notin> set (ts_out s)"
  shows "TarZero \<notin> set (ts_out (fst (ts_write name sz r s)))"
proof -
  obtain s1 e1 where h: "tar_write_header name sz s = (s1, e1)" by fastforce
  obtain s2 n e2 where c: "tar_copy r 0 s1 = (s2, n, e2)" by (metis prod_cases3)
  from tar_write_header_cases(2) [OF h] assms have z: "TarZero \<notin> set (ts_out s1)" by blast
  moreover from tar_copy_cases [OF c] z have "TarZero \<notin> set (ts_out s2)"
    by (auto dest: data_items_no_zero)
  ultimately show ?thesis by (auto simp: ts_write_def h c split: option.splits)
qed

text \<open>The entry of a file, by what it is when it is opened.\<close>

definition file_bytes :: "fs \<Rightarrow> path \<Rightarrow> bytes" where
  "file_bytes fs p = (case map_of fs p of Some (FFile b) \<Rightarrow> b | _ \<Rightarrow> [])"

definition whole_file :: "(path \<Rightarrow> fs \<times> fs) \<Rightarrow> path \<Rightarrow> tar_file" where
  "whole_file at p =
     (path_base p, int (length (file_bytes (snd (at p)) p)), file_bytes (snd (at p)) p)"

lemma fst_whole_file [simp]: "fst \<circ> whole_file at = path_base"
  by (simp add: fun_eq_iff whole_file_def)

text \<open>At most one incomplete entry, for the first of the files that are left.\<close>

definition cut_entry :: "string list \<Rightarrow> tar_file list \<Rightarrow> bool" where
  "cut_entry names es \<longleftrightarrow> es = [] \<or> (\<exists>name rest sz d. names = name # rest \<and> es = [(name, sz, d)])"

lemma os_open_file:
  assumes "os_open L fs p = Ok f" and "\<forall>c\<in>set f. snd c = None"
  shows "concat (map fst f) = file_bytes fs p"
  using assms by (auto simp: os_open_def file_bytes_def split: option.splits fentry.splits)

lemma ts_writeFile_cases:
  assumes "ts_writeFile L at p s = (s', r)"
  obtains (failed) es where
      "tar_entries (ts_out s') = tar_entries (ts_out s) @ es" "r \<noteq> Ok ()"
      "cut_entry (path_base p # names) es"
  | (whole) "tar_entries (ts_out s') = tar_entries (ts_out s) @ [whole_file at p]" "r = Ok ()"
proof -
  consider (early) "s' = s" "r \<noteq> Ok ()"
    | (opened) fi f where "os_open L (snd (at p)) p = Ok f" "ts_write (path_base p) (file_size fi) f s = (s', r)"
    using assms by (cases "os_stat L (fst (at p)) p"; cases "os_open L (snd (at p)) p")
      (auto simp: ts_writeFile_def slift_def)
  then show thesis
  proof cases
    case early
    then show thesis by (intro failed [of "[]"]) (simp_all add: cut_entry_def)
  next
    case opened
    then show thesis
    proof (cases rule: ts_write_cases [OF opened(2)])
      case 1
      then show thesis by (intro failed [of "[]"]) (simp_all add: cut_entry_def)
    next
      case (2 d)
      show thesis
      proof (cases "r = Ok ()")
        case True
        have clean: "\<forall>c\<in>set f. snd c = None"
        proof (rule ccontr)
          assume "\<not> ?thesis"
          with opened(1) obtain m where "f = [([], Some (PathError m))]"
            by (auto simp: os_open_def split: option.splits fentry.splits)
          with opened(2) True show False by (auto simp: ts_write_def split: option.splits prod.splits)
        qed
        from 2(3) [OF True clean] os_open_file [OF opened(1) clean] have "d = file_bytes (snd (at p)) p" by simp
        with 2(1,2) True show thesis by (intro whole) (simp_all add: whole_file_def)
      next
        case False
        with 2(1) show thesis by (intro failed [OF 2(1)]) (simp_all add: cut_entry_def)
      qed
    qed
  qed
qed

lemma WriteFiles_entries:
  assumes "WriteFiles L at ps s = (s', r)"
  shows "\<exists>k es. tar_entries (ts_out s') = tar_entries (ts_out s) @ map (whole_file at) (take k ps) @ es \<and>
    cut_entry (map path_base (drop k ps)) es \<and> (r = Ok () \<longrightarrow> length ps \<le> k \<and> es = [])"
  using assms unfolding WriteFiles_def
proof (induction ps arbitrary: s)
  case Nil
  then show ?case by (intro exI [of _ 0] exI [of _ "[]"]) (simp add: cut_entry_def)
next
  case (Cons p ps)
  obtain s1 x where w: "ts_writeFile L at p s = (s1, x)" by fastforce
  show ?case
  proof (cases rule: ts_writeFile_cases [OF w, of "map path_base ps"])
    case (1 es)
    with Cons.prems w have "s' = s1" "r \<noteq> Ok ()" by (cases x; simp)+
    with 1 show ?thesis by (intro exI [of _ 0] exI [of _ es]) simp
  next
    case 2
    with Cons.prems w have "sfor (ts_writeFile L at) ps s1 = (s', r)" by simp
    from Cons.IH [OF this] obtain k es where
      "tar_entries (ts_out s') = tar_entries (ts_out s1) @ map (whole_file at) (take k ps) @ es"
      "cut_entry (map path_base (drop k ps)) es" "r = Ok () \<longrightarrow> length ps \<le> k \<and> es = []" by blast
    with 2 show ?thesis by (intro exI [of _ "Suc k"] exI [of _ es]) simp
  qed
qed

section \<open>Closing the streamer\<close>

text \<open>
  With the pipe closed first nothing passes it any more: the first close of the archive always fails, a second one does
  nothing.
\<close>

lemma ts_Close_fails:
  assumes "ts_err s \<noteq> Some ErrWriteAfterClose"
  obtains s' e where "ts_Close s = (s', Some e)" "ts_out s' = ts_out s" "ts_Close s' = (s', None)"
proof -
  have "\<exists>s1 e. tar_flush (s\<lparr>ts_open := False\<rparr>) = (s1, Some e) \<and> ts_out s1 = ts_out s \<and> \<not> ts_open s1"
    by (auto simp: tar_flush_def tar_emit_def pipe_write_def split: option.splits)
  then obtain s1 e where f: "tar_flush (s\<lparr>ts_open := False\<rparr>) = (s1, Some e)" "ts_out s1 = ts_out s" "\<not> ts_open s1"
    by blast
  with assms have "ts_Close s = (s1\<lparr>ts_err := Some ErrWriteAfterClose\<rparr>, Some e)"
    by (simp add: ts_Close_def tar_close_def)
  then show thesis by (rule that) (use f in \<open>simp_all add: ts_Close_def tar_close_def\<close>)
qed

lemma ts_Close_out: "ts_out (fst (ts_Close s)) = ts_out s"
proof (cases "ts_err s = Some ErrWriteAfterClose")
  case True
  then show ?thesis by (simp add: ts_Close_def tar_close_def)
next
  case False
  from ts_Close_fails [OF this] show ?thesis by (metis fst_conv)
qed

lemma WriteFiles_no_zero:
  assumes "TarZero \<notin> set (ts_out s)"
  shows "TarZero \<notin> set (ts_out (fst (WriteFiles L at ps s)))"
  unfolding WriteFiles_def
proof (rule sfor_keeps [where P = "\<lambda>s. TarZero \<notin> set (ts_out s)", OF _ assms])
  show "TarZero \<notin> set (ts_out (fst (ts_writeFile L at p s)))" if "TarZero \<notin> set (ts_out s)" for p s
    unfolding ts_writeFile_def
    by (intro sbind_keeps [where P = "\<lambda>s. TarZero \<notin> set (ts_out s)"]
        slift_keeps [where P = "\<lambda>s. TarZero \<notin> set (ts_out s)"] ts_write_no_zero) (use that in simp)
qed

section \<open>The archive of the images\<close>

definition image_files :: "(path \<Rightarrow> fs \<times> fs) \<Rightarrow> bytes \<Rightarrow> bool \<Rightarrow> path list \<Rightarrow> tar_file list" where
  "image_files at manifestData fromStore blobPaths =
     (''manifest.json'', int (length manifestData), manifestData) #
     (if fromStore then [] else map (whole_file at) blobPaths)"

lemma image_files_fst:
  "map fst (image_files at m fromStore ps) = ''manifest.json'' # (if fromStore then [] else map path_base ps)"
  by (simp add: image_files_def whole_file_def)

lemma WriteFileData_cases:
  assumes "WriteFileData b name s = (s', r)"
  obtains (failed) es where
      "tar_entries (ts_out s') = tar_entries (ts_out s) @ es" "r \<noteq> Ok ()" "cut_entry (name # names) es"
  | (whole) "tar_entries (ts_out s') = tar_entries (ts_out s) @ [(name, int (length b), b)]" "r = Ok ()"
proof (cases rule: ts_write_cases [OF assms [unfolded WriteFileData_def]])
  case 1
  then show ?thesis by (intro failed [of "[]"]) (simp_all add: cut_entry_def)
next
  case (2 d)
  show ?thesis
  proof (cases "r = Ok ()")
    case True
    from 2(3) [OF True] have "d = b" by simp
    with 2(1) have "tar_entries (ts_out s') = tar_entries (ts_out s) @ [(name, int (length b), b)]" by simp
    then show ?thesis using True by (rule whole)
  next
    case False
    with 2(1) show ?thesis by (intro failed [OF 2(1)]) (simp_all add: cut_entry_def)
  qed
qed

lemma stream_images_entries:
  assumes "stream_images L at m fromStore ps s = (s', r)" and "ts_out s = []"
  shows "\<exists>k es. tar_entries (ts_out s') = take k (image_files at m fromStore ps) @ es \<and>
    cut_entry (map fst (drop k (image_files at m fromStore ps))) es \<and>
    (r = Ok () \<longrightarrow> length (image_files at m fromStore ps) \<le> k \<and> es = [])"
proof -
  let ?fs = "image_files at m fromStore ps"
  have fsts: "map fst (drop k ?fs) = drop k (''manifest.json'' # (if fromStore then [] else map path_base ps))" for k
    by (simp only: drop_map [symmetric] image_files_fst)
  obtain s1 x where w: "WriteFileData m ''manifest.json'' s = (s1, x)" by fastforce
  show ?thesis
  proof (cases rule: WriteFileData_cases [OF w, of "if fromStore then [] else map path_base ps"])
    case (1 es)
    with w assms have "ts_out s' = ts_out s1" "r \<noteq> Ok ()"
      by (cases x; auto simp: stream_images_def ts_Close_out)+
    with 1 assms(2) show ?thesis
      by (intro exI [of _ 0] exI [of _ es]) (simp add: image_files_fst)
  next
    case 2
    show ?thesis
    proof (cases fromStore)
      case True
      with 2 w assms have "ts_out s' = ts_out s1" by (auto simp: stream_images_def ts_Close_out)
      with 2 True assms(2) show ?thesis
        by (intro exI [of _ 1] exI [of _ "[]"]) (simp add: image_files_def cut_entry_def)
    next
      case False
      obtain s2 y where f: "WriteFiles L at ps s1 = (s2, y)" by fastforce
      with 2 w assms(1) False have o: "ts_out s' = ts_out s2" "r = y"
        by (auto simp: stream_images_def ts_Close_out)
      from WriteFiles_entries [OF f] obtain k es where
        "tar_entries (ts_out s2) = tar_entries (ts_out s1) @ map (whole_file at) (take k ps) @ es"
        "cut_entry (map path_base (drop k ps)) es" "y = Ok () \<longrightarrow> length ps \<le> k \<and> es = []" by blast
      with 2 o assms(2) False show ?thesis
        by (intro exI [of _ "Suc k"] exI [of _ es]) (simp only: fsts, simp add: image_files_def take_map drop_map)
    qed
  qed
qed

lemma stream_images_no_zero:
  assumes "TarZero \<notin> set (ts_out s)"
  shows "TarZero \<notin> set (ts_out (fst (stream_images L at m fromStore ps s)))"
proof -
  have "TarZero \<notin> set (ts_out (fst (sbind (WriteFileData m ''manifest.json'' s) (\<lambda>_ s.
      if \<not> fromStore then WriteFiles L at ps s else (s, Ok ())))))"
    by (rule sbind_keeps [where P = "\<lambda>s. TarZero \<notin> set (ts_out s)"])
      (auto simp: WriteFileData_def ts_write_no_zero WriteFiles_no_zero assms)
  then show ?thesis
    by (simp add: stream_images_def ts_Close_out case_prod_unfold Let_def)
qed

end
