(* ===== verification/StreamProps.thy ===== *)
theory StreamProps
  imports TarStream Samples
begin

text \<open>The properties of the archive that is streamed to the Docker daemon.\<close>

text \<open>C35: When the goroutine that streams the images ends without an error, the archive that the daemon reads has the load
  manifest and then every blob file, in order, with the content each file had when it was opened and a size that is
  its length, however the files change between the look at their size and the read, and whenever the daemon stops
  reading.  When it ends with an error the archive is cut after some of these files, with at most one incomplete entry,
  for the file that comes next.  In no case does the archive have its end marker, so that a cut between two
  files looks like success.\<close>
theorem images_streamed:
  assumes "stream_images L at manifestData fromStore blobPaths (NewTarStreamer taken) = (s, r)"
  shows "(r = Ok () \<longrightarrow> tar_entries (ts_out s) = image_files at manifestData fromStore blobPaths) \<and>
    (\<exists>k es. tar_entries (ts_out s) = take k (image_files at manifestData fromStore blobPaths) @ es \<and>
       cut_entry (map fst (drop k (image_files at manifestData fromStore blobPaths))) es) \<and>
    TarZero \<notin> set (ts_out s)"
proof -
  have new: "ts_out (NewTarStreamer taken) = []" by (simp add: NewTarStreamer_def)
  have "TarZero \<notin> set (ts_out s)"
    using stream_images_no_zero [of "NewTarStreamer taken" L at manifestData fromStore blobPaths] assms new by simp
  moreover obtain k es where
    "tar_entries (ts_out s) = take k (image_files at manifestData fromStore blobPaths) @ es"
    "cut_entry (map fst (drop k (image_files at manifestData fromStore blobPaths))) es"
    "r = Ok () \<longrightarrow> length (image_files at manifestData fromStore blobPaths) \<le> k \<and> es = []"
    using stream_images_entries [OF assms new] by blast
  ultimately show ?thesis by auto
qed

text \<open>
  Two blobs of the sample: streamed as they are; and with the second one cut short before it is opened, for which the
  stream ends with an error that nobody sees.
\<close>

definition stream_paths :: "path list" where
  "stream_paths = [sample_blob_file ''C'', sample_blob_file ''L'']"

definition steady :: "path \<Rightarrow> fs \<times> fs" where
  "steady p = (base_fs registry, base_fs registry)"

definition shrinking :: "path \<Rightarrow> fs \<times> fs" where
  "shrinking p = (base_fs registry, gm_put (sample_blob_file ''L'') (FFile []) (base_fs registry))"

lemma steady_run:
  "snd (stream_images sample_lib0 steady ''m'' False stream_paths (NewTarStreamer None)) = Ok ()"
  by code_simp

lemma shrinking_run:
  "let (s, r) = stream_images sample_lib0 shrinking ''m'' False stream_paths (NewTarStreamer None)
   in \<not> is_ok r \<and> length (tar_entries (ts_out s)) = 3"
  by code_simp

theorem images_streamed_witness:
  "tar_entries (ts_out (fst (stream_images sample_lib0 steady ''m'' False stream_paths (NewTarStreamer None)))) =
     image_files steady ''m'' False stream_paths"
proof -
  obtain s r where s: "stream_images sample_lib0 steady ''m'' False stream_paths (NewTarStreamer None) = (s, r)"
    by fastforce
  with steady_run have "r = Ok ()" by simp
  with images_streamed [OF s] s show ?thesis by simp
qed

end
