(* ===== verification/Display.thy ===== *)
theory Display
  imports Runner
begin

text \<open>
  What is shown of a progress: the printers of \<open>pkg/update/status_printer.go\<close> and the handler of a pull
  (\<open>cmd/composectl/cmd/pull.go\<close>).  A printer is a state and a step that maps a report to what is shown, as
  data, and the next state.  The layout of the text is not modelled, the bar is, since it can panic.
\<close>

section \<open>Fractions in double precision\<close>

text \<open>
  \<open>int(float64(c)/float64(t)*f)\<close> for \<open>0 \<le> c \<le> t\<close>, \<open>0 < t\<close> below \<open>2^53\<close>, as in \<open>float_percent\<close>.
\<close>

definition float_scaled :: "nat \<Rightarrow> int \<Rightarrow> int \<Rightarrow> int" where
  "float_scaled f c t =
     (let k = scale (nat c) (nat t) + 52;
          m = rne (nat c * 2 ^ k) (nat t) * f;
          r = bit_length m - 53
      in int (rne m (2 ^ r) * 2 ^ r div 2 ^ k))"

lemma float_percent_scaled: "float_percent c t = float_scaled 100 c t"
  by (simp add: float_percent_def float_scaled_def)

section \<open>The bar\<close>

text \<open>
  The number of filled places for \<open>c\<close> of \<open>t\<close>, none of them negative; \<open>nan_int\<close> is what the machine converts
  \<open>0/0\<close> to: the least \<open>int64\<close> on amd64, 0 on arm64.
\<close>

definition bar_filled :: "int \<Rightarrow> int \<Rightarrow> int \<Rightarrow> nat \<Rightarrow> int" where
  "bar_filled nan_int c t width =
     (if t = 0 \<and> c = 0 then nan_int else if t < c then int width else float_scaled width c t)"

definition renderBar :: "int \<Rightarrow> int \<Rightarrow> int \<Rightarrow> nat \<Rightarrow> string res" where
  "renderBar nan_int c t width =
     (let filled = bar_filled nan_int c t width in
      if filled < 0 \<or> int width < filled then Panic ''strings: negative Repeat count''
      else Ok (''['' @ replicate (nat filled) (CHR ''='') @ replicate (width - nat filled) (CHR '' '') @ '']''))"

section \<open>Initialisation\<close>

datatype init_phase = UpdateInitStateLoadingTree | UpdateInitStateCheckingBlobs

record init_progress =
  ip_state :: init_phase
  ip_current :: int
  ip_total :: int

datatype shown =
    NewLine
  | ShowInit init_phase int int string
  | ShowFetch int int string int nat int "int option" int "int option" bool
  | ShowInstalling string
  | ShowImage string
  | ShowLayer string int int string
  | ShowLoaded string
  | ShowExists string
  | ShowUnknown image_load_state

text \<open>The state is whether the second phase was seen.\<close>

definition init_printer :: "int \<Rightarrow> init_progress \<Rightarrow> bool \<Rightarrow> (shown list \<times> bool) res" where
  "init_printer nan_int p stateSwitch =
     rbind (renderBar nan_int (ip_current p) (ip_total p) 25) (\<lambda>bar.
       let line = ShowInit (ip_state p) (ip_current p) (ip_total p) bar in
       (case ip_state p of
          UpdateInitStateLoadingTree \<Rightarrow> Ok ([line], stateSwitch)
        | UpdateInitStateCheckingBlobs \<Rightarrow>
            Ok ((if stateSwitch then [] else [NewLine]) @ [line] @
                (if ip_current p = ip_total p then [NewLine] else []), True)))"

section \<open>Fetching\<close>

text \<open>Times are in nanoseconds; 0 is the zero time.\<close>

record fetch_printer =
  pr_start :: int
  pr_start_bytes :: int
  pr_avg :: "int option"
  pr_done :: bool
  pr_fetched :: "digest list"

definition new_fetch_printer :: fetch_printer where
  "new_fetch_printer = \<lparr>pr_start = 0, pr_start_bytes = 0, pr_avg = None, pr_done = False, pr_fetched = []\<rparr>"

record fetch_sums =
  fs_printer :: fetch_printer
  fs_blobs :: int
  fs_cur :: int

text \<open>One blob of the loop; one that was counted when it was complete is not counted again.\<close>

definition fetch_printer_blob :: "int \<Rightarrow> digest \<times> blob_fetch \<Rightarrow> fetch_sums \<Rightarrow> fetch_sums" where
  "fetch_printer_blob currentBytes e s =
     (let (d, b) = e; p = fs_printer s in
      if d \<in> set (pr_fetched p) then s
      else (let p1 = (if pr_start p = 0 \<or> bf_start b \<noteq> 0 \<and> bf_start b < pr_start p
                      then p\<lparr>pr_start := bf_start b, pr_start_bytes := currentBytes\<rparr> else p);
                p2 = (if d_size (bi_desc (bf_info b)) \<le> bf_fetched b
                      then p1\<lparr>pr_fetched := d # pr_fetched p1\<rparr> else p1)
            in \<lparr>fs_printer = p2, fs_blobs = fs_blobs s + 1, fs_cur = i64 (fs_cur s + bf_cur b)\<rparr>))"

definition round_seconds :: "int \<Rightarrow> int" where
  "round_seconds d =
     (if 0 \<le> d then (d + 500000000) div 1000000000 else - ((500000000 - d) div 1000000000))"

text \<open>
  \<open>mix avg cur\<close> is \<open>int64(avg*0.6 + cur*0.4)\<close> in double precision.  The estimate is the time in seconds, and
  none without a speed.
\<close>

definition fetch_eta :: "(int \<Rightarrow> int \<Rightarrow> int) \<Rightarrow> int \<Rightarrow> int \<Rightarrow> int \<Rightarrow> int option res" where
  "fetch_eta mix left avgSpeed curSpeed =
     (if 0 < avgSpeed
      then rbind (go_div left (if 0 < curSpeed then mix avgSpeed curSpeed else avgSpeed)) (\<lambda>s. Ok (Some s))
      else Ok None)"

definition fetch_printer_show ::
  "int \<Rightarrow> (int \<Rightarrow> int \<Rightarrow> int) \<Rightarrow> int \<Rightarrow> fetch_progress \<Rightarrow> fetch_sums \<Rightarrow> (shown list \<times> fetch_printer) res" where
  "fetch_printer_show nan_int mix now st s =
     (let p = fs_printer s; elapsed = (if pr_start p \<noteq> 0 then round_seconds (now - pr_start p) else 0) in
      rbind (if 0 < fs_blobs s then go_div (fs_cur s) (fs_blobs s) else Ok 0) (\<lambda>curSpeed.
        rbind (if 0 < elapsed then go_div (i64 (fp_current st - pr_start_bytes p)) elapsed else Ok 0) (\<lambda>avgSpeed.
          rbind (fetch_eta mix (i64 (fp_total st - fp_current st)) avgSpeed curSpeed) (\<lambda>eta.
            let fin = (fp_total st \<le> fp_current st);
                p' = p\<lparr>pr_done := fin, pr_avg := (if 0 < avgSpeed then Some avgSpeed else pr_avg p)\<rparr>
            in rbind (renderBar nan_int (fp_current st) (fp_total st) 25) (\<lambda>bar.
                 Ok ([ShowFetch (fp_current st) (fp_total st) bar (fp_count st) (length (fp_blobs st)) curSpeed
                        (pr_avg p') elapsed (if fin then None else eta) fin], p'))))))"

definition fetch_printer_step ::
  "int \<Rightarrow> (int \<Rightarrow> int \<Rightarrow> int) \<Rightarrow> int \<Rightarrow> fetch_progress \<Rightarrow> fetch_printer \<Rightarrow> (shown list \<times> fetch_printer) res" where
  "fetch_printer_step nan_int mix now st p =
     (if pr_done p then Ok ([], p)
      else fetch_printer_show nan_int mix now st
             (fold (fetch_printer_blob (fp_current st)) (fp_blobs st) \<lparr>fs_printer = p, fs_blobs = 0, fs_cur = 0\<rparr>))"

section \<open>Installing\<close>

text \<open>\<open>imageLoadingContext\<close>: the image and the layer that are shown.\<close>

record image_loading_context =
  ic_image :: string
  ic_layer :: string

definition show_image :: "string \<Rightarrow> image_loading_context \<Rightarrow> shown list" where
  "show_image i c = (if ic_image c \<noteq> i then [ShowImage i] else [])"

definition renderImageLoadingProgress ::
  "int \<Rightarrow> load_progress \<Rightarrow> image_loading_context \<Rightarrow> (shown list \<times> image_loading_context) res" where
  "renderImageLoadingProgress nan_int p c =
     (case lp_state p of
        ImageLoadStateImageLoading \<Rightarrow> Ok (show_image (lp_image p) c, c\<lparr>ic_image := lp_image p\<rparr>)
      | ImageLoadStateLayerLoading \<Rightarrow>
          (let c1 = (if ic_image c \<noteq> lp_image p then \<lparr>ic_image = lp_image p, ic_layer = ''''\<rparr> else c);
               line = (if ic_layer c1 \<noteq> lp_id p then [NewLine] else [])
           in rbind (renderBar nan_int (lp_current p) (lp_total p) 25) (\<lambda>bar.
                Ok (show_image (lp_image p) c @ line @ [ShowLayer (lp_id p) (lp_current p) (lp_total p) bar],
                    c1\<lparr>ic_layer := lp_id p\<rparr>)))
      | ImageLoadStateLayerSyncing \<Rightarrow> Ok ([], c)
      | ImageLoadStateLayerLoaded \<Rightarrow> Ok ([], c\<lparr>ic_layer := ''''\<rparr>)
      | ImageLoadStateImageLoaded \<Rightarrow> Ok ([ShowLoaded (lp_image p)], c)
      | ImageLoadStateImageExist \<Rightarrow> Ok ([ShowExists (lp_image p)], c)
      | ImageLoadStateImageWaiting \<Rightarrow> Ok ([ShowUnknown (lp_state p)], c))"

datatype install_report =
    ComposeInstalling string
  | ComposeChecking string
  | ImagesLoading load_progress

definition install_printer ::
  "int \<Rightarrow> install_report \<Rightarrow> image_loading_context \<Rightarrow> (shown list \<times> image_loading_context) res" where
  "install_printer nan_int r c =
     (case r of
        ComposeInstalling app \<Rightarrow> Ok ([ShowInstalling app], c)
      | ComposeChecking app \<Rightarrow> Ok ([], c)
      | ImagesLoading p \<Rightarrow> renderImageLoadingProgress nan_int p c)"

text \<open>A printer run over the reports in their order.\<close>

fun show_all :: "('r \<Rightarrow> 's \<Rightarrow> (shown list \<times> 's) res) \<Rightarrow> 'r list \<Rightarrow> 's \<Rightarrow> (shown list \<times> 's) res" where
  "show_all f [] s = Ok ([], s)"
| "show_all f (r # rs) s =
     rbind (f r s) (\<lambda>(out, s1). rbind (show_all f rs s1) (\<lambda>(outs, s2). Ok (out @ outs, s2)))"

section \<open>The handler of a pull\<close>

text \<open>The blobs in the order in which their fetch was first seen, with whether they were shown as done.\<close>

type_synonym pull_lines = "(digest \<times> bool) list"

definition pull_add :: "digest \<times> blob_fetch \<Rightarrow> pull_lines \<Rightarrow> pull_lines" where
  "pull_add e ls =
     (let d = d_digest (bi_desc (bf_info (snd e))) in
      if d \<notin> fst ` set ls \<and> (bf_state (snd e) = BlobFetching \<or> bf_state (snd e) = BlobOk)
      then ls @ [(d, False)] else ls)"

text \<open>One line: its blob is looked up among the blobs of the progress, which the lines share.\<close>

definition pull_line :: "(digest, blob_fetch) gomap \<Rightarrow> digest \<times> bool \<Rightarrow> (digest \<times> bool) \<times> (digest \<times> int) list" where
  "pull_line blobs l =
     (if snd l then (l, [])
      else (case find (\<lambda>b. d_digest (bi_desc (bf_info b)) = fst l) (map snd blobs) of
              None \<Rightarrow> (l, [])
            | Some b \<Rightarrow> ((fst l, bf_fetched b = d_size (bi_desc (bf_info b))), [(fst l, bf_fetched b)])))"

definition pull_handler :: "fetch_progress \<Rightarrow> pull_lines \<Rightarrow> (digest \<times> int) list \<times> pull_lines" where
  "pull_handler p ls =
     (let rs = map (pull_line (fp_blobs p)) (fold pull_add (fp_blobs p) ls)
      in (concat (map snd rs), map fst rs))"

section \<open>The bar does not panic\<close>

lemma rne_le: "0 < b \<Longrightarrow> a \<le> n * b \<Longrightarrow> rne a b \<le> n"
proof -
  assume b: "0 < b" and a: "a \<le> n * b"
  show ?thesis
  proof (cases "a div b < n")
    case True
    then show ?thesis by (simp add: rne_def Let_def)
  next
    case False
    with a b have "a div b = n" using div_le_mono [OF a, of b] by simp
    with a b have "a mod b = 0" by (metis add_le_same_cancel1 div_mult_mod_eq le_zero_eq)
    with \<open>a div b = n\<close> b show ?thesis by (simp add: rne_def)
  qed
qed

lemma bit_length_le: "m < 2 ^ n \<Longrightarrow> bit_length m \<le> n"
proof (induction n arbitrary: m)
  case 0
  then show ?case by (simp add: bit_length.simps)
next
  case (Suc n)
  show ?case
  proof (cases "m = 0")
    case False
    from Suc.prems have "m div 2 < 2 ^ n" by (simp add: less_mult_imp_div_less mult.commute)
    from Suc.IH [OF this] False show ?thesis by (subst bit_length.simps) simp
  qed (simp add: bit_length.simps)
qed

lemma scale_le: "0 < c \<Longrightarrow> c \<le> t \<Longrightarrow> c * 2 ^ scale c t < 2 * t"
proof (induction c t rule: scale.induct)
  case (1 c t)
  show ?case
  proof (cases "t \<le> c")
    case True
    with 1(2,3) show ?thesis by (simp add: scale.simps)
  next
    case False
    then have s: "scale c t = Suc (scale (2 * c) t)" using 1(2) by (subst scale.simps) simp
    show ?thesis
    proof (cases "2 * c \<le> t")
      case True
      with 1(1) 1(2) False have "2 * c * 2 ^ scale (2 * c) t < 2 * t" by simp
      then show ?thesis by (simp add: s mult.assoc mult.left_commute)
    next
      case ge: False
      then have "scale (2 * c) t = 0" by (subst scale.simps) simp
      with False s show ?thesis by simp
    qed
  qed
qed

lemma float_scaled_range:
  assumes "0 \<le> c" and "c \<le> t" and "0 < t" and "f < 2 ^ 52"
  shows "0 \<le> float_scaled f c t \<and> float_scaled f c t \<le> int f"
proof -
  define k where "k = scale (nat c) (nat t) + 52"
  define q where "q = rne (nat c * 2 ^ k) (nat t)"
  define r where "r = bit_length (q * f) - 53"
  have "nat c * 2 ^ k \<le> 2 ^ k * nat t" using assms(1-3) by simp
  then have q: "q \<le> 2 ^ k" unfolding q_def using assms(3) by (intro rne_le) simp_all
  have "q * f \<le> 2 ^ k * f" using q by simp
  also have "\<dots> < 2 ^ k * 2 ^ 52" using assms(4) by simp
  finally have "q * f < 2 ^ (k + 52)" by (simp add: power_add)
  from bit_length_le [OF this] have rk: "r \<le> k" by (simp add: r_def)
  have e: "(2::nat) ^ k = 2 ^ (k - r) * 2 ^ r" using rk by (simp flip: power_add)
  have "q * f \<le> f * 2 ^ (k - r) * 2 ^ r" using \<open>q * f \<le> 2 ^ k * f\<close> by (simp add: e mult.commute mult.left_commute)
  then have "rne (q * f) (2 ^ r) \<le> f * 2 ^ (k - r)" by (intro rne_le) simp_all
  then have "rne (q * f) (2 ^ r) * 2 ^ r \<le> f * 2 ^ (k - r) * 2 ^ r" by (rule mult_right_mono) simp
  also have "\<dots> = f * 2 ^ k" by (simp add: e mult.assoc)
  finally have "rne (q * f) (2 ^ r) * 2 ^ r div 2 ^ k \<le> f * 2 ^ k div 2 ^ k" by (rule div_le_mono)
  then have "rne (q * f) (2 ^ r) * 2 ^ r div 2 ^ k \<le> f" by simp
  moreover have "float_scaled f c t = int (rne (q * f) (2 ^ r) * 2 ^ r div 2 ^ k)"
    by (simp add: float_scaled_def Let_def k_def [symmetric] q_def [symmetric] r_def [symmetric])
  ultimately show ?thesis by simp
qed

lemma renderBar_ok:
  assumes "0 \<le> c" and "0 \<le> t" and "0 < c \<or> 0 < t" and "width < 2 ^ 52"
  shows "\<exists>n\<le>width. renderBar nan_int c t width =
    Ok (''['' @ replicate n (CHR ''='') @ replicate (width - n) (CHR '' '') @ '']'')"
proof -
  have "0 \<le> bar_filled nan_int c t width \<and> bar_filled nan_int c t width \<le> int width"
    using assms float_scaled_range [of c t width] by (auto simp: bar_filled_def)
  then show ?thesis
    by (intro exI [of _ "nat (bar_filled nan_int c t width)"]) (auto simp: renderBar_def Let_def)
qed

lemma renderBar_nan: "nan_int < 0 \<Longrightarrow> renderBar nan_int 0 0 width = Panic ''strings: negative Repeat count''"
  by (simp add: renderBar_def bar_filled_def)

section \<open>The printer of a fetch\<close>

lemma go_div_ok: "b \<noteq> 0 \<Longrightarrow> \<exists>n. go_div a b = Ok n"
  by (simp add: go_div_def)

lemma if_go_div_ok: "\<exists>n. (if 0 < b then go_div a b else Ok 0) = Ok n"
  by (simp add: go_div_def)

lemma fetch_eta_ok:
  assumes "\<forall>a c. 0 < a \<longrightarrow> 0 < c \<longrightarrow> 0 < mix a c"
  shows "\<exists>e. fetch_eta mix left a c = Ok e"
proof (cases "0 < a")
  case True
  with assms have "(if 0 < c then mix a c else a) \<noteq> 0" by (metis less_irrefl)
  from go_div_ok [OF this] obtain n where "go_div left (if 0 < c then mix a c else a) = Ok n" ..
  with True show ?thesis by (simp add: fetch_eta_def)
qed (simp add: fetch_eta_def)

lemma fetch_printer_show_ok:
  assumes "\<forall>a c. 0 < a \<longrightarrow> 0 < c \<longrightarrow> 0 < mix a c" and "0 \<le> fp_current st" and "0 < fp_total st"
  shows "\<exists>line p'. fetch_printer_show nan_int mix now st s = Ok ([line], p') \<and>
    (pr_done p' \<longleftrightarrow> fp_total st \<le> fp_current st)"
proof -
  define p where "p = fs_printer s"
  define elapsed where "elapsed = (if pr_start p \<noteq> 0 then round_seconds (now - pr_start p) else 0)"
  obtain cur where cur: "(if 0 < fs_blobs s then go_div (fs_cur s) (fs_blobs s) else Ok 0) = Ok cur"
    using if_go_div_ok by blast
  obtain avg where avg: "(if 0 < elapsed then go_div (i64 (fp_current st - pr_start_bytes p)) elapsed else Ok 0) = Ok avg"
    using if_go_div_ok by blast
  obtain eta where eta: "fetch_eta mix (i64 (fp_total st - fp_current st)) avg cur = Ok eta"
    using fetch_eta_ok [OF assms(1)] by blast
  obtain bar where bar: "renderBar nan_int (fp_current st) (fp_total st) 25 = Ok bar"
    using renderBar_ok [of "fp_current st" "fp_total st" 25] assms(2,3) by auto
  show ?thesis
    unfolding fetch_printer_show_def Let_def p_def [symmetric] elapsed_def [symmetric] cur avg rbind.simps eta bar
    by simp
qed

section \<open>Lines of a pull\<close>

lemma pull_add_distinct: "distinct (map fst ls) \<Longrightarrow> distinct (map fst (fold pull_add bs ls))"
  by (induction bs arbitrary: ls) (auto simp: pull_add_def Let_def)

lemma pull_add_keeps: "set ls \<subseteq> set (fold pull_add bs ls)"
  by (induction bs arbitrary: ls) (auto simp: pull_add_def Let_def subset_iff)

lemma pull_line_fst: "fst (fst (pull_line blobs l)) = fst l"
  by (simp add: pull_line_def split: option.split)

lemma pull_handler_lines:
  assumes "distinct (map fst ls)" and "pull_handler p ls = (out, ls')"
  shows "distinct (map fst ls') \<and> (\<forall>d. (d, True) \<in> set ls \<longrightarrow> (d, True) \<in> set ls' \<and> d \<notin> fst ` set out)"
proof -
  let ?ls = "fold pull_add (fp_blobs p) ls"
  have out: "out = concat (map (snd \<circ> pull_line (fp_blobs p)) ?ls)" and ls': "ls' = map (fst \<circ> pull_line (fp_blobs p)) ?ls"
    using assms(2) by (simp_all add: pull_handler_def Let_def)
  have dist: "distinct (map fst ?ls)" by (rule pull_add_distinct [OF assms(1)])
  have "map fst ls' = map fst ?ls" by (simp add: ls' pull_line_fst)
  moreover have "(d, True) \<in> set ls' \<and> d \<notin> fst ` set out" if "(d, True) \<in> set ls" for d
  proof
    from that pull_add_keeps have l: "(d, True) \<in> set ?ls" by blast
    then show "(d, True) \<in> set ls'" by (force simp: ls' pull_line_def)
    have "snd (pull_line (fp_blobs p) l') = []" if "l' \<in> set ?ls" "fst l' = d" for l'
    proof -
      from dist l that have "l' = (d, True)" by (metis eq_key_imp_eq_value prod.collapse)
      then show ?thesis by (simp add: pull_line_def)
    qed
    moreover have "fst ` set (snd (pull_line (fp_blobs p) l')) \<subseteq> {fst l'}" for l'
      by (simp add: pull_line_def split: option.split)
    ultimately show "d \<notin> fst ` set out" unfolding out by fastforce
  qed
  ultimately show ?thesis using dist by simp
qed

end
