(* ===== verification/DisplayProps.thy ===== *)
theory DisplayProps
  imports Display Samples
begin

text \<open>The properties of what is shown: no printer panics on a report that makes sense, and nothing is shown twice.\<close>


definition sample_report :: fetch_progress where
  "sample_report = start_progress
     [(''L'', \<lparr>bi_desc = blob_desc '''' ''L'', bi_state = BlobFetching, bi_type = BlobTypeImageLayer,
               bi_store_size = 0, bi_runtime_size = 0, bi_bytes_fetched = 0\<rparr>)]"


text \<open>The lines of a pull are for distinct blobs after every report, a blob that was shown as done stays so, and it is
  not shown again.\<close>
theorem pull_lines_once:
  assumes "distinct (map fst ls)" and "pull_handler p ls = (out, ls')"
  shows "distinct (map fst ls') \<and> (\<forall>d. (d, True) \<in> set ls \<longrightarrow> (d, True) \<in> set ls' \<and> d \<notin> fst ` set out)"
  using assms by (rule pull_handler_lines)

theorem pull_lines_once_witness:
  "distinct (map fst (snd (pull_handler sample_report [(''D'', True)]))) \<and>
   ''D'' \<notin> fst ` set (fst (pull_handler sample_report [(''D'', True)]))"
  using pull_lines_once [of "[(''D'', True)]" sample_report "fst (pull_handler sample_report [(''D'', True)])"
      "snd (pull_handler sample_report [(''D'', True)])"] by simp

end
